theory Spec2Isabelle
  imports Complex_Main
begin

section \<open>Elevation samples and two-dimensional arrays\<close>

text \<open>
  The scripts under \<^verbatim>\<open>scripts/terrain\<close> work on numpy arrays of
  \<^verbatim>\<open>float32\<close> elevation samples in which NaN marks a cell without data.
  A sample is either NaN or a number; numbers are modelled as exact reals, so the rounding
  of binary floating point is outside this model, and so are infinities. Geographic
  coordinates, pixel sizes and radii are finite numbers, modelled as reals.
\<close>

datatype sample = NaN | Val real

datatype error = SystemExit | ZeroDivisionError | ValueError | IndexError

definition isnan :: "sample \<Rightarrow> bool" where
  "isnan y = (case y of NaN \<Rightarrow> True | Val v \<Rightarrow> False)"

definition fmul :: "sample \<Rightarrow> real \<Rightarrow> sample" where
  "fmul y k = (case y of NaN \<Rightarrow> NaN | Val v \<Rightarrow> Val (v * k))"

definition flt :: "sample \<Rightarrow> real \<Rightarrow> bool" where
  "flt y k = (case y of NaN \<Rightarrow> False | Val v \<Rightarrow> v < k)"

text \<open>
  A two-dimensional numpy array: its shape and its rows. The shape is kept beside the rows
  because an array with no rows still has a number of columns.
\<close>

record array2 =
  nrows :: nat
  ncols :: nat
  cells :: "sample list list"

definition wf_array :: "array2 \<Rightarrow> bool" where
  "wf_array a = (length (cells a) = nrows a \<and> list_all (\<lambda>row. length row = ncols a) (cells a))"

definition cell :: "array2 \<Rightarrow> nat \<Rightarrow> nat \<Rightarrow> sample" where
  "cell a r c = cells a ! r ! c"

definition mk_array :: "nat \<Rightarrow> nat \<Rightarrow> (nat \<Rightarrow> nat \<Rightarrow> sample) \<Rightarrow> array2" where
  "mk_array h w f =
     \<lparr>nrows = h, ncols = w, cells = map (\<lambda>r. map (\<lambda>c. f r c) [0..<w]) [0..<h]\<rparr>"

text \<open>
  Python's slice \<^verbatim>\<open>a[start:stop]\<close> on a sequence of length \<open>len\<close>: a negative
  bound counts from the end, both bounds are clamped to \<open>[0, len]\<close>, and a stop before the
  start selects nothing.
\<close>

definition slice_index :: "nat \<Rightarrow> int \<Rightarrow> nat" where
  "slice_index len i = (if i < 0 then nat (max 0 (i + int len)) else min (nat i) len)"

definition slice_range :: "nat \<Rightarrow> int \<Rightarrow> int \<Rightarrow> nat \<times> nat" where
  "slice_range len start stop =
     (let lo = slice_index len start; hi = slice_index len stop in (lo, max lo hi))"

text \<open>\<^verbatim>\<open>a[rs:re, cs:ce]\<close>\<close>

definition slice2 :: "array2 \<Rightarrow> int \<Rightarrow> int \<Rightarrow> int \<Rightarrow> int \<Rightarrow> array2" where
  "slice2 a rs re cs ce =
     (let (rlo, rhi) = slice_range (nrows a) rs re;
          (clo, chi) = slice_range (ncols a) cs ce
      in mk_array (rhi - rlo) (chi - clo) (\<lambda>r c. cell a (rlo + r) (clo + c)))"

text \<open>\<^verbatim>\<open>a[::d, ::d]\<close> for a step \<open>d > 0\<close>: rows and columns \<open>0, d, 2d, ...\<close>\<close>

definition stride_slice :: "array2 \<Rightarrow> nat \<Rightarrow> array2" where
  "stride_slice a d =
     mk_array ((nrows a + d - 1) div d) ((ncols a + d - 1) div d) (\<lambda>r c. cell a (r * d) (c * d))"

text \<open>
  \<^verbatim>\<open>dest[rs:re, cs:ce] = src\<close>: numpy broadcasts the source to the shape of the
  selected region (a source dimension of length 1 is repeated) and raises ValueError when
  the shapes do not fit.
\<close>

definition set_slice2 :: "array2 \<Rightarrow> int \<Rightarrow> int \<Rightarrow> int \<Rightarrow> int \<Rightarrow> array2 \<Rightarrow> error + array2" where
  "set_slice2 dest rs re cs ce src =
     (let (rlo, rhi) = slice_range (nrows dest) rs re;
          (clo, chi) = slice_range (ncols dest) cs ce;
          sh = nrows src; sw = ncols src
      in if (sh = rhi - rlo \<or> sh = 1) \<and> (sw = chi - clo \<or> sw = 1)
         then Inr (mk_array (nrows dest) (ncols dest)
                (\<lambda>r c. if rlo \<le> r \<and> r < rhi \<and> clo \<le> c \<and> c < chi
                        then cell src (if sh = 1 then 0 else r - rlo) (if sw = 1 then 0 else c - clo)
                        else cell dest r c))
         else Inl ValueError)"

text \<open>\<^verbatim>\<open>math.radians\<close>\<close>

definition radians :: "real \<Rightarrow> real" where
  "radians d = d * pi / 180"

text \<open>The metadata document written beside the heightmap and read back by the mesh builder.\<close>

record meta =
  originLat :: real
  originLon :: real
  pixelSizeDeg :: real
  meta_width :: int
  meta_height :: int
  centerLat :: real
  centerLon :: real
  radiusMiles :: real

section \<open>build\_heightmap.py\<close>

text \<open>
  A loaded \<^verbatim>\<open>Tile\<close>. The fields carry the prefix \<open>t_\<close> because the
  functions below use the bare names for their local variables. Reading the raster file is an
  external library, so a tile appears here as it is after \<^verbatim>\<open>load\<close>.
\<close>

record tile =
  t_data :: array2
  t_origin_lon :: real
  t_origin_lat :: real
  t_scale_lon :: real
  t_scale_lat :: real

type_synonym bounds = "real \<times> real \<times> real \<times> real"

text \<open>\<^verbatim>\<open>Tile.bounds\<close>: \<open>(min_lon, min_lat, max_lon, max_lat)\<close>\<close>

definition tile_bounds :: "tile \<Rightarrow> bounds" where
  "tile_bounds t =
     (let height = nrows (t_data t);
          width = ncols (t_data t);
          min_lon = t_origin_lon t;
          max_lon = t_origin_lon t + real width * t_scale_lon t;
          max_lat = t_origin_lat t;
          min_lat = t_origin_lat t - real height * t_scale_lat t
      in (min_lon, min_lat, max_lon, max_lat))"

text \<open>Python's \<^verbatim>\<open>min\<close> and \<^verbatim>\<open>max\<close> of an iterable raise ValueError when it is empty.\<close>

fun compute_union_bounds :: "tile list \<Rightarrow> error + bounds" where
  "compute_union_bounds [] = Inl ValueError"
| "compute_union_bounds (t # ts) =
     (let min_lon = foldl min (fst (tile_bounds t)) (map (\<lambda>t. fst (tile_bounds t)) ts);
          min_lat = foldl min (fst (snd (tile_bounds t))) (map (\<lambda>t. fst (snd (tile_bounds t))) ts);
          max_lon = foldl max (fst (snd (snd (tile_bounds t))))
                      (map (\<lambda>t. fst (snd (snd (tile_bounds t)))) ts);
          max_lat = foldl max (snd (snd (snd (tile_bounds t))))
                      (map (\<lambda>t. snd (snd (snd (tile_bounds t)))) ts)
      in Inr (min_lon, min_lat, max_lon, max_lat))"

text \<open>A float division by zero raises ZeroDivisionError.\<close>

definition clamp_bounds :: "bounds \<Rightarrow> real \<Rightarrow> real \<Rightarrow> real \<Rightarrow> error + bounds" where
  "clamp_bounds bounds center_lat center_lon radius_miles =
     (let dlat = radius_miles / 69 in
      if 69 * cos (radians center_lat) = 0 then Inl ZeroDivisionError
      else
        let dlon = radius_miles / (69 * cos (radians center_lat));
            min_lon = max (fst bounds) (center_lon - dlon);
            max_lon = min (fst (snd (snd bounds))) (center_lon + dlon);
            min_lat = max (fst (snd bounds)) (center_lat - dlat);
            max_lat = min (snd (snd (snd bounds))) (center_lat + dlat)
        in Inr (min_lon, min_lat, max_lon, max_lat))"

text \<open>Python's one-argument \<^verbatim>\<open>round\<close>: to the nearest integer, a tie to the even one.\<close>

definition py_round :: "real \<Rightarrow> int" where
  "py_round x =
     (let f = \<lfloor>x\<rfloor>; d = x - of_int f
      in if d < 1 / 2 then f else if 1 / 2 < d then f + 1 else if even f then f else f + 1)"

text \<open>
  The loop body of \<^verbatim>\<open>main\<close> for one tile, in the order of the source: the two
  tests that skip a tile outside the clip bounds (lines 123 to 126), the pixel offset of the
  tile in the target grid (lines 128 and 129), and the bounds of the destination and the
  source slice (lines 134 to 143).
\<close>

definition tile_skipped :: "bounds \<Rightarrow> tile \<Rightarrow> bool" where
  "tile_skipped clip tile =
     (let (min_lon, min_lat, max_lon, max_lat) = clip;
          (tile_min_lon, tile_min_lat, tile_max_lon, tile_max_lat) = tile_bounds tile
      in if tile_max_lon < min_lon \<or> tile_min_lon > max_lon then True
         else if tile_max_lat < min_lat \<or> tile_min_lat > max_lat then True
         else False)"

definition origin_col_of :: "bounds \<Rightarrow> real \<Rightarrow> tile \<Rightarrow> int" where
  "origin_col_of clip scale_lon tile =
     (let (min_lon, min_lat, max_lon, max_lat) = clip
      in py_round ((t_origin_lon tile - min_lon) / scale_lon))"

definition origin_row_of :: "bounds \<Rightarrow> real \<Rightarrow> tile \<Rightarrow> int" where
  "origin_row_of clip scale_lat tile =
     (let (min_lon, min_lat, max_lon, max_lat) = clip
      in py_round ((max_lat - t_origin_lat tile) / scale_lat))"

text \<open>
  None when the tile is skipped, otherwise \<open>((row_start, row_end, col_start, col_end),
  (src_row_start, src_row_end, src_col_start, src_col_end))\<close>.
\<close>

type_synonym placement = "(int \<times> int \<times> int \<times> int) \<times> (int \<times> int \<times> int \<times> int)"

definition tile_placement ::
  "int \<Rightarrow> int \<Rightarrow> bounds \<Rightarrow> real \<Rightarrow> real \<Rightarrow> tile \<Rightarrow> placement option" where
  "tile_placement height width clip scale_lon scale_lat tile =
     (if tile_skipped clip tile then None
      else
        let origin_col = origin_col_of clip scale_lon tile;
            origin_row = origin_row_of clip scale_lat tile;
            tile_data = t_data tile;
            tile_height = int (nrows tile_data);
            tile_width = int (ncols tile_data);
            row_start = max 0 origin_row;
            col_start = max 0 origin_col;
            row_end = min height (origin_row + tile_height);
            col_end = min width (origin_col + tile_width);
            src_row_start = max 0 (- origin_row);
            src_col_start = max 0 (- origin_col);
            src_row_end = src_row_start + (row_end - row_start);
            src_col_end = src_col_start + (col_end - col_start)
        in Some ((row_start, row_end, col_start, col_end),
                 (src_row_start, src_row_end, src_col_start, src_col_end)))"

text \<open>The slice assignment of line 145.\<close>

definition composite_tile ::
  "array2 \<Rightarrow> int \<Rightarrow> int \<Rightarrow> bounds \<Rightarrow> real \<Rightarrow> real \<Rightarrow> tile \<Rightarrow> error + array2" where
  "composite_tile grid height width clip scale_lon scale_lat tile =
     (case tile_placement height width clip scale_lon scale_lat tile of
        None \<Rightarrow> Inr grid
      | Some ((row_start, row_end, col_start, col_end),
              (src_row_start, src_row_end, src_col_start, src_col_end)) \<Rightarrow>
          set_slice2 grid row_start row_end col_start col_end
            (slice2 (t_data tile) src_row_start src_row_end src_col_start src_col_end))"

text \<open>The loop over the tiles; an exception ends it.\<close>

fun composite_loop ::
  "array2 \<Rightarrow> int \<Rightarrow> int \<Rightarrow> bounds \<Rightarrow> real \<Rightarrow> real \<Rightarrow> tile list \<Rightarrow> error + array2" where
  "composite_loop grid height width clip scale_lon scale_lat [] = Inr grid"
| "composite_loop grid height width clip scale_lon scale_lat (tile # tiles) =
     (case composite_tile grid height width clip scale_lon scale_lat tile of
        Inl e \<Rightarrow> Inl e
      | Inr grid' \<Rightarrow> composite_loop grid' height width clip scale_lon scale_lat tiles)"

text \<open>
  The size of the target grid (lines 111 to 115): \<open>(height, width)\<close>. The divisions are
  float divisions.
\<close>

definition grid_size :: "tile list \<Rightarrow> bounds \<Rightarrow> error + (int \<times> int)" where
  "grid_size tiles clip =
     (let (min_lon, min_lat, max_lon, max_lat) = clip in
      case tiles of
        [] \<Rightarrow> Inl IndexError
      | t0 # rest \<Rightarrow>
          let scale_lon = t_scale_lon t0;
              scale_lat = t_scale_lat t0
          in if scale_lon = 0 then Inl ZeroDivisionError
             else if scale_lat = 0 then Inl ZeroDivisionError
             else Inr (\<lceil>(max_lat - min_lat) / scale_lat\<rceil>, \<lceil>(max_lon - min_lon) / scale_lon\<rceil>))"

text \<open>
  The compositing stage of \<^verbatim>\<open>main\<close> (lines 111 to 145) for the tiles in the order
  of the sorted paths and the clip bounds. \<^verbatim>\<open>np.full\<close> raises ValueError for a
  negative dimension.
\<close>

definition composite :: "tile list \<Rightarrow> bounds \<Rightarrow> error + array2" where
  "composite tiles clip =
     (case grid_size tiles clip of
        Inl e \<Rightarrow> Inl e
      | Inr (height, width) \<Rightarrow>
          if height < 0 \<or> width < 0 then Inl ValueError
          else composite_loop (mk_array (nat height) (nat width) (\<lambda>r c. NaN)) height width clip
                 (t_scale_lon (hd tiles)) (t_scale_lat (hd tiles)) tiles)"

text \<open>
  \<^verbatim>\<open>main\<close> from the loaded tiles on: Inr is the grid and the metadata that are
  written to the two output files, Inl an exception, raised before anything is written.
\<close>

definition main :: "tile list \<Rightarrow> real \<Rightarrow> real \<Rightarrow> real \<Rightarrow> error + (array2 \<times> meta)" where
  "main tiles center_lat center_lon radius_miles =
     (if tiles = [] then Inl SystemExit
      else case compute_union_bounds tiles of
        Inl e \<Rightarrow> Inl e
      | Inr union_bounds \<Rightarrow>
         (case clamp_bounds union_bounds center_lat center_lon radius_miles of
            Inl e \<Rightarrow> Inl e
          | Inr (min_lon, min_lat, max_lon, max_lat) \<Rightarrow>
             (case composite tiles (min_lon, min_lat, max_lon, max_lat) of
                Inl e \<Rightarrow> Inl e
              | Inr grid \<Rightarrow>
                  Inr (grid,
                    \<lparr>originLat = max_lat, originLon = min_lon,
                     pixelSizeDeg = t_scale_lon (hd tiles),
                     meta_width = int (ncols grid), meta_height = int (nrows grid),
                     centerLat = center_lat, centerLon = center_lon,
                     radiusMiles = radius_miles\<rparr>))))"

text \<open>
  Whether the slice assignment for a tile writes the cell \<open>(r, c)\<close> of a grid of the given
  shape: the tile is not skipped and the cell lies in the destination slice.
\<close>

definition writes_cell ::
  "int \<Rightarrow> int \<Rightarrow> bounds \<Rightarrow> real \<Rightarrow> real \<Rightarrow> tile \<Rightarrow> nat \<Rightarrow> nat \<Rightarrow> bool" where
  "writes_cell height width clip scale_lon scale_lat tile r c =
     (case tile_placement height width clip scale_lon scale_lat tile of
        None \<Rightarrow> False
      | Some ((row_start, row_end, col_start, col_end), src) \<Rightarrow>
          (let (rlo, rhi) = slice_range (nat height) row_start row_end;
               (clo, chi) = slice_range (nat width) col_start col_end
           in rlo \<le> r \<and> r < rhi \<and> clo \<le> c \<and> c < chi))"

section \<open>build\_terrain\_mesh.py\<close>

definition EARTH_RADIUS :: real where
  "EARTH_RADIUS = 6378137"

definition METERS_TO_FEET :: real where
  "METERS_TO_FEET = 3.28084"

definition latlon_to_local :: "real \<Rightarrow> real \<Rightarrow> real \<Rightarrow> real \<Rightarrow> real \<times> real" where
  "latlon_to_local lat lon origin_lat origin_lon =
     (let origin_lat_rad = radians origin_lat;
          meters_per_deg_lat = (pi / 180) * EARTH_RADIUS;
          meters_per_deg_lon = (pi / 180) * EARTH_RADIUS * cos origin_lat_rad;
          dx_meters = (lon - origin_lon) * meters_per_deg_lon;
          dz_meters = (lat - origin_lat) * meters_per_deg_lat
      in (dx_meters * METERS_TO_FEET, dz_meters * METERS_TO_FEET))"

type_synonym vertex = "real \<times> sample \<times> real"

type_synonym face = "nat \<times> nat \<times> nat"

text \<open>
  What \<^verbatim>\<open>create_terrain_mesh\<close> hands to the mesh container: the vertex list and
  the face list. The container itself and its normals are an external library.
\<close>

record mesh =
  vertices :: "vertex list"
  faces :: "face list"

text \<open>The grid after the optional downsampling at the head of both mesh functions.\<close>

definition downsampled :: "array2 \<Rightarrow> int \<Rightarrow> array2" where
  "downsampled grid downsample =
     (if downsample > 1 then stride_slice grid (nat downsample) else grid)"

text \<open>The body of the vertex loop for one cell.\<close>

definition terrain_vertex ::
  "array2 \<Rightarrow> real \<Rightarrow> real \<Rightarrow> real \<Rightarrow> real \<Rightarrow> real \<Rightarrow> nat \<Rightarrow> nat \<Rightarrow> vertex" where
  "terrain_vertex grid pixel_size hmap_origin_lat hmap_origin_lon origin_lat origin_lon row col =
     (let lon = hmap_origin_lon + real col * pixel_size;
          lat = hmap_origin_lat - real row * pixel_size;
          (x, z) = latlon_to_local lat lon origin_lat origin_lon;
          y = fmul (cell grid row col) METERS_TO_FEET;
          y = (if isnan y \<or> flt y (- 1000) then Val 0 else y)
      in (x, y, z))"

text \<open>The body of the face loop for one quad.\<close>

definition quad_faces :: "nat \<Rightarrow> nat \<Rightarrow> nat \<Rightarrow> face list" where
  "quad_faces width row col =
     (let v00 = row * width + col;
          v01 = row * width + col + 1;
          v10 = (row + 1) * width + col;
          v11 = (row + 1) * width + col + 1
      in [(v00, v10, v01), (v01, v10, v11)])"

definition create_terrain_mesh :: "array2 \<Rightarrow> meta \<Rightarrow> real \<Rightarrow> real \<Rightarrow> int \<Rightarrow> mesh" where
  "create_terrain_mesh grid0 meta origin_lat origin_lon downsample =
     (let grid = downsampled grid0 downsample;
          height = nrows grid;
          width = ncols grid;
          pixel_size = pixelSizeDeg meta * of_int downsample;
          hmap_origin_lat = originLat meta;
          hmap_origin_lon = originLon meta
      in \<lparr>vertices =
            concat (map (\<lambda>row. map (\<lambda>col.
              terrain_vertex grid pixel_size hmap_origin_lat hmap_origin_lon
                origin_lat origin_lon row col) [0..<width]) [0..<height]),
          faces =
            concat (map (\<lambda>row. concat (map (\<lambda>col. quad_faces width row col) [0..<width - 1]))
              [0..<height - 1])\<rparr>)"

text \<open>
  One entry of the manifest's \<^verbatim>\<open>files\<close> list, together with the mesh exported
  to the chunk's file. The file name is left out.
\<close>

record chunk_file =
  chunk_x :: nat
  chunk_z :: nat
  bounds_min_x :: real
  bounds_max_x :: real
  bounds_min_z :: real
  bounds_max_z :: real
  chunk_mesh :: mesh

record manifest =
  m_chunks_x :: int
  m_chunks_z :: int
  m_chunk_size :: int
  m_origin_lat :: real
  m_origin_lon :: real
  m_files :: "chunk_file list"

text \<open>The sub-grid and the metadata of one chunk (lines 169 to 181).\<close>

definition chunk_grid_of :: "array2 \<Rightarrow> int \<Rightarrow> nat \<Rightarrow> nat \<Rightarrow> array2" where
  "chunk_grid_of grid chunk_size chunk_row chunk_col =
     (let height = int (nrows grid);
          width = int (ncols grid);
          row_start = int chunk_row * chunk_size;
          row_end = min (row_start + chunk_size + 1) height;
          col_start = int chunk_col * chunk_size;
          col_end = min (col_start + chunk_size + 1) width
      in slice2 grid row_start row_end col_start col_end)"

definition chunk_meta_of :: "array2 \<Rightarrow> meta \<Rightarrow> real \<Rightarrow> int \<Rightarrow> nat \<Rightarrow> nat \<Rightarrow> meta" where
  "chunk_meta_of grid meta pixel_size chunk_size chunk_row chunk_col =
     (let row_start = int chunk_row * chunk_size;
          col_start = int chunk_col * chunk_size;
          chunk_grid = chunk_grid_of grid chunk_size chunk_row chunk_col
      in meta\<lparr>originLat := originLat meta - of_int row_start * pixel_size,
              originLon := originLon meta + of_int col_start * pixel_size,
              meta_width := int (ncols chunk_grid),
              meta_height := int (nrows chunk_grid)\<rparr>)"

text \<open>The body of the chunk loop (lines 168 to 212).\<close>

definition build_chunk ::
  "array2 \<Rightarrow> meta \<Rightarrow> real \<Rightarrow> real \<Rightarrow> int \<Rightarrow> real \<Rightarrow> nat \<Rightarrow> nat \<Rightarrow> chunk_file" where
  "build_chunk grid meta origin_lat origin_lon chunk_size pixel_size chunk_row chunk_col =
     (let height = int (nrows grid);
          width = int (ncols grid);
          row_start = int chunk_row * chunk_size;
          row_end = min (row_start + chunk_size + 1) height;
          col_start = int chunk_col * chunk_size;
          col_end = min (col_start + chunk_size + 1) width;
          chunk_grid = chunk_grid_of grid chunk_size chunk_row chunk_col;
          chunk_meta = chunk_meta_of grid meta pixel_size chunk_size chunk_row chunk_col;
          mesh = create_terrain_mesh chunk_grid chunk_meta origin_lat origin_lon 1;
          min_lon = originLon meta + of_int col_start * pixel_size;
          max_lon = originLon meta + of_int (col_end - 1) * pixel_size;
          max_lat = originLat meta - of_int row_start * pixel_size;
          min_lat = originLat meta - of_int (row_end - 1) * pixel_size;
          (min_x, min_z) = latlon_to_local min_lat min_lon origin_lat origin_lon;
          (max_x, max_z) = latlon_to_local max_lat max_lon origin_lat origin_lon
      in \<lparr>chunk_x = chunk_col, chunk_z = chunk_row,
          bounds_min_x = min min_x max_x, bounds_max_x = max min_x max_x,
          bounds_min_z = min min_z max_z, bounds_max_z = max min_z max_z,
          chunk_mesh = mesh\<rparr>)"

text \<open>
  \<^verbatim>\<open>create_chunked_terrain\<close>: the manifest, each entry with the mesh that is
  exported for it. \<^verbatim>\<open>width / chunk_size\<close> is a float division.
\<close>

definition create_chunked_terrain ::
  "array2 \<Rightarrow> meta \<Rightarrow> real \<Rightarrow> real \<Rightarrow> int \<Rightarrow> int \<Rightarrow> error + manifest" where
  "create_chunked_terrain grid0 meta origin_lat origin_lon chunk_size downsample =
     (let grid = downsampled grid0 downsample;
          height = nrows grid;
          width = ncols grid;
          pixel_size = pixelSizeDeg meta * of_int downsample
      in if chunk_size = 0 then Inl ZeroDivisionError
         else
           let chunks_x = \<lceil>real width / of_int chunk_size\<rceil>;
               chunks_z = \<lceil>real height / of_int chunk_size\<rceil>
           in Inr \<lparr>m_chunks_x = chunks_x, m_chunks_z = chunks_z, m_chunk_size = chunk_size,
                    m_origin_lat = origin_lat, m_origin_lon = origin_lon,
                    m_files =
                      concat (map (\<lambda>chunk_row. map (\<lambda>chunk_col.
                        build_chunk grid meta origin_lat origin_lon chunk_size pixel_size
                          chunk_row chunk_col) [0..<nat chunks_x]) [0..<nat chunks_z])\<rparr>)"

section \<open>Binary floating point\<close>

text \<open>
  A Python float is an IEEE 754 binary64 number, and the vertex array of a mesh is binary32.
  \<open>round_to prec x\<close> is the real number nearest to \<open>x\<close> among those with a significand of
  \<open>prec\<close> bits, a tie going to the even significand. The exponent is unbounded: overflow and
  the subnormal range are left out, so \<open>round_to\<close> is the machine rounding wherever the
  result is a normal number. A floating-point operation of the code is the exact operation
  followed by \<open>fl64\<close>.

  The sections above compute over exact reals. The two properties that depend on the rounding
  of coordinates, the round trip of a single tile and the seams between adjacent chunks, are
  stated about the rounded functions of the next two sections.
\<close>

definition round_to :: "nat \<Rightarrow> real \<Rightarrow> real" where
  "round_to prec x =
     (if x = 0 then 0
      else
        let e = \<lfloor>log 2 \<bar>x\<bar>\<rfloor>;
            ulp = 2 powr (of_int e - (real prec - 1))
        in of_int (py_round (x / ulp)) * ulp)"

definition fl64 :: "real \<Rightarrow> real" where
  "fl64 x = round_to 53 x"

definition fl32 :: "real \<Rightarrow> real" where
  "fl32 x = round_to 24 x"

section \<open>build\_heightmap.py in binary64\<close>

text \<open>
  The bounds of a tile and the compositing stage once more, each floating-point operation
  rounded where the source performs it. These definitions differ from \<open>tile_bounds\<close>,
  \<open>tile_placement\<close>, \<open>composite_tile\<close>, \<open>composite_loop\<close>, \<open>grid_size\<close> and \<open>composite\<close>
  in the rounding only. They describe a run of the code when the fields of the tiles and the
  clip bounds are binary64 numbers.
\<close>

definition tile_bounds_f64 :: "tile \<Rightarrow> bounds" where
  "tile_bounds_f64 t =
     (let height = nrows (t_data t);
          width = ncols (t_data t);
          min_lon = t_origin_lon t;
          max_lon = fl64 (t_origin_lon t + fl64 (real width * t_scale_lon t));
          max_lat = t_origin_lat t;
          min_lat = fl64 (t_origin_lat t - fl64 (real height * t_scale_lat t))
      in (min_lon, min_lat, max_lon, max_lat))"

definition tile_skipped_f64 :: "bounds \<Rightarrow> tile \<Rightarrow> bool" where
  "tile_skipped_f64 clip tile =
     (let (min_lon, min_lat, max_lon, max_lat) = clip;
          (tile_min_lon, tile_min_lat, tile_max_lon, tile_max_lat) = tile_bounds_f64 tile
      in if tile_max_lon < min_lon \<or> tile_min_lon > max_lon then True
         else if tile_max_lat < min_lat \<or> tile_min_lat > max_lat then True
         else False)"

definition origin_col_of_f64 :: "bounds \<Rightarrow> real \<Rightarrow> tile \<Rightarrow> int" where
  "origin_col_of_f64 clip scale_lon tile =
     (let (min_lon, min_lat, max_lon, max_lat) = clip
      in py_round (fl64 (fl64 (t_origin_lon tile - min_lon) / scale_lon)))"

definition origin_row_of_f64 :: "bounds \<Rightarrow> real \<Rightarrow> tile \<Rightarrow> int" where
  "origin_row_of_f64 clip scale_lat tile =
     (let (min_lon, min_lat, max_lon, max_lat) = clip
      in py_round (fl64 (fl64 (max_lat - t_origin_lat tile) / scale_lat)))"

definition tile_placement_f64 ::
  "int \<Rightarrow> int \<Rightarrow> bounds \<Rightarrow> real \<Rightarrow> real \<Rightarrow> tile \<Rightarrow> placement option" where
  "tile_placement_f64 height width clip scale_lon scale_lat tile =
     (if tile_skipped_f64 clip tile then None
      else
        let origin_col = origin_col_of_f64 clip scale_lon tile;
            origin_row = origin_row_of_f64 clip scale_lat tile;
            tile_data = t_data tile;
            tile_height = int (nrows tile_data);
            tile_width = int (ncols tile_data);
            row_start = max 0 origin_row;
            col_start = max 0 origin_col;
            row_end = min height (origin_row + tile_height);
            col_end = min width (origin_col + tile_width);
            src_row_start = max 0 (- origin_row);
            src_col_start = max 0 (- origin_col);
            src_row_end = src_row_start + (row_end - row_start);
            src_col_end = src_col_start + (col_end - col_start)
        in Some ((row_start, row_end, col_start, col_end),
                 (src_row_start, src_row_end, src_col_start, src_col_end)))"

definition composite_tile_f64 ::
  "array2 \<Rightarrow> int \<Rightarrow> int \<Rightarrow> bounds \<Rightarrow> real \<Rightarrow> real \<Rightarrow> tile \<Rightarrow> error + array2" where
  "composite_tile_f64 grid height width clip scale_lon scale_lat tile =
     (case tile_placement_f64 height width clip scale_lon scale_lat tile of
        None \<Rightarrow> Inr grid
      | Some ((row_start, row_end, col_start, col_end),
              (src_row_start, src_row_end, src_col_start, src_col_end)) \<Rightarrow>
          set_slice2 grid row_start row_end col_start col_end
            (slice2 (t_data tile) src_row_start src_row_end src_col_start src_col_end))"

fun composite_loop_f64 ::
  "array2 \<Rightarrow> int \<Rightarrow> int \<Rightarrow> bounds \<Rightarrow> real \<Rightarrow> real \<Rightarrow> tile list \<Rightarrow> error + array2" where
  "composite_loop_f64 grid height width clip scale_lon scale_lat [] = Inr grid"
| "composite_loop_f64 grid height width clip scale_lon scale_lat (tile # tiles) =
     (case composite_tile_f64 grid height width clip scale_lon scale_lat tile of
        Inl e \<Rightarrow> Inl e
      | Inr grid' \<Rightarrow> composite_loop_f64 grid' height width clip scale_lon scale_lat tiles)"

definition grid_size_f64 :: "tile list \<Rightarrow> bounds \<Rightarrow> error + (int \<times> int)" where
  "grid_size_f64 tiles clip =
     (let (min_lon, min_lat, max_lon, max_lat) = clip in
      case tiles of
        [] \<Rightarrow> Inl IndexError
      | t0 # rest \<Rightarrow>
          let scale_lon = t_scale_lon t0;
              scale_lat = t_scale_lat t0
          in if scale_lon = 0 then Inl ZeroDivisionError
             else if scale_lat = 0 then Inl ZeroDivisionError
             else Inr (\<lceil>fl64 (fl64 (max_lat - min_lat) / scale_lat)\<rceil>,
                       \<lceil>fl64 (fl64 (max_lon - min_lon) / scale_lon)\<rceil>))"

definition composite_f64 :: "tile list \<Rightarrow> bounds \<Rightarrow> error + array2" where
  "composite_f64 tiles clip =
     (case grid_size_f64 tiles clip of
        Inl e \<Rightarrow> Inl e
      | Inr (height, width) \<Rightarrow>
          if height < 0 \<or> width < 0 then Inl ValueError
          else composite_loop_f64 (mk_array (nat height) (nat width) (\<lambda>r c. NaN)) height width clip
                 (t_scale_lon (hd tiles)) (t_scale_lat (hd tiles)) tiles)"

section \<open>build\_terrain\_mesh.py in binary64\<close>

text \<open>
  The same for the mesh functions. \<^verbatim>\<open>math.pi\<close> is the binary64 number \<open>pi_f64\<close>,
  \<^verbatim>\<open>math.radians\<close> multiplies by the binary64 quotient of \<^verbatim>\<open>math.pi\<close> and 180, and
  \<^verbatim>\<open>math.cos\<close> is taken to be correctly rounded (the examples evaluate it at 0 only, where
  the cosine is 1). The coordinates \<open>x\<close> and \<open>z\<close> of a vertex are rounded to binary32 when
  the vertex list is turned into a \<^verbatim>\<open>float32\<close> array. The elevation \<open>y\<close> is kept as in
  \<open>terrain_vertex\<close>: it depends on the sample of the cell only.
\<close>

definition pi_f64 :: real where
  "pi_f64 = 884279719003555 / 281474976710656"

definition radians_f64 :: "real \<Rightarrow> real" where
  "radians_f64 d = fl64 (d * fl64 (pi_f64 / 180))"

definition cos_f64 :: "real \<Rightarrow> real" where
  "cos_f64 x = fl64 (cos x)"

definition latlon_to_local_f64 :: "real \<Rightarrow> real \<Rightarrow> real \<Rightarrow> real \<Rightarrow> real \<times> real" where
  "latlon_to_local_f64 lat lon origin_lat origin_lon =
     (let origin_lat_rad = radians_f64 origin_lat;
          meters_per_deg_lat = fl64 (fl64 (pi_f64 / 180) * EARTH_RADIUS);
          meters_per_deg_lon = fl64 (fl64 (fl64 (pi_f64 / 180) * EARTH_RADIUS) * cos_f64 origin_lat_rad);
          dx_meters = fl64 (fl64 (lon - origin_lon) * meters_per_deg_lon);
          dz_meters = fl64 (fl64 (lat - origin_lat) * meters_per_deg_lat)
      in (fl64 (dx_meters * fl64 METERS_TO_FEET), fl64 (dz_meters * fl64 METERS_TO_FEET)))"

definition terrain_vertex_f64 ::
  "array2 \<Rightarrow> real \<Rightarrow> real \<Rightarrow> real \<Rightarrow> real \<Rightarrow> real \<Rightarrow> nat \<Rightarrow> nat \<Rightarrow> vertex" where
  "terrain_vertex_f64 grid pixel_size hmap_origin_lat hmap_origin_lon origin_lat origin_lon row col =
     (let lon = fl64 (hmap_origin_lon + fl64 (real col * pixel_size));
          lat = fl64 (hmap_origin_lat - fl64 (real row * pixel_size));
          (x, z) = latlon_to_local_f64 lat lon origin_lat origin_lon;
          y = fmul (cell grid row col) METERS_TO_FEET;
          y = (if isnan y \<or> flt y (- 1000) then Val 0 else y)
      in (fl32 x, y, fl32 z))"

definition create_terrain_mesh_f64 :: "array2 \<Rightarrow> meta \<Rightarrow> real \<Rightarrow> real \<Rightarrow> int \<Rightarrow> mesh" where
  "create_terrain_mesh_f64 grid0 meta origin_lat origin_lon downsample =
     (let grid = downsampled grid0 downsample;
          height = nrows grid;
          width = ncols grid;
          pixel_size = fl64 (pixelSizeDeg meta * of_int downsample);
          hmap_origin_lat = originLat meta;
          hmap_origin_lon = originLon meta
      in \<lparr>vertices =
            concat (map (\<lambda>row. map (\<lambda>col.
              terrain_vertex_f64 grid pixel_size hmap_origin_lat hmap_origin_lon
                origin_lat origin_lon row col) [0..<width]) [0..<height]),
          faces =
            concat (map (\<lambda>row. concat (map (\<lambda>col. quad_faces width row col) [0..<width - 1]))
              [0..<height - 1])\<rparr>)"

definition chunk_meta_of_f64 :: "array2 \<Rightarrow> meta \<Rightarrow> real \<Rightarrow> int \<Rightarrow> nat \<Rightarrow> nat \<Rightarrow> meta" where
  "chunk_meta_of_f64 grid meta pixel_size chunk_size chunk_row chunk_col =
     (let row_start = int chunk_row * chunk_size;
          col_start = int chunk_col * chunk_size;
          chunk_grid = chunk_grid_of grid chunk_size chunk_row chunk_col
      in meta\<lparr>originLat := fl64 (originLat meta - fl64 (of_int row_start * pixel_size)),
              originLon := fl64 (originLon meta + fl64 (of_int col_start * pixel_size)),
              meta_width := int (ncols chunk_grid),
              meta_height := int (nrows chunk_grid)\<rparr>)"

definition build_chunk_f64 ::
  "array2 \<Rightarrow> meta \<Rightarrow> real \<Rightarrow> real \<Rightarrow> int \<Rightarrow> real \<Rightarrow> nat \<Rightarrow> nat \<Rightarrow> chunk_file" where
  "build_chunk_f64 grid meta origin_lat origin_lon chunk_size pixel_size chunk_row chunk_col =
     (let height = int (nrows grid);
          width = int (ncols grid);
          row_start = int chunk_row * chunk_size;
          row_end = min (row_start + chunk_size + 1) height;
          col_start = int chunk_col * chunk_size;
          col_end = min (col_start + chunk_size + 1) width;
          chunk_grid = chunk_grid_of grid chunk_size chunk_row chunk_col;
          chunk_meta = chunk_meta_of_f64 grid meta pixel_size chunk_size chunk_row chunk_col;
          mesh = create_terrain_mesh_f64 chunk_grid chunk_meta origin_lat origin_lon 1;
          min_lon = fl64 (originLon meta + fl64 (of_int col_start * pixel_size));
          max_lon = fl64 (originLon meta + fl64 (of_int (col_end - 1) * pixel_size));
          max_lat = fl64 (originLat meta - fl64 (of_int row_start * pixel_size));
          min_lat = fl64 (originLat meta - fl64 (of_int (row_end - 1) * pixel_size));
          (min_x, min_z) = latlon_to_local_f64 min_lat min_lon origin_lat origin_lon;
          (max_x, max_z) = latlon_to_local_f64 max_lat max_lon origin_lat origin_lon
      in \<lparr>chunk_x = chunk_col, chunk_z = chunk_row,
          bounds_min_x = min min_x max_x, bounds_max_x = max min_x max_x,
          bounds_min_z = min min_z max_z, bounds_max_z = max min_z max_z,
          chunk_mesh = mesh\<rparr>)"

definition create_chunked_terrain_f64 ::
  "array2 \<Rightarrow> meta \<Rightarrow> real \<Rightarrow> real \<Rightarrow> int \<Rightarrow> int \<Rightarrow> error + manifest" where
  "create_chunked_terrain_f64 grid0 meta origin_lat origin_lon chunk_size downsample =
     (let grid = downsampled grid0 downsample;
          height = nrows grid;
          width = ncols grid;
          pixel_size = fl64 (pixelSizeDeg meta * of_int downsample)
      in if chunk_size = 0 then Inl ZeroDivisionError
         else
           let chunks_x = \<lceil>fl64 (real width / of_int chunk_size)\<rceil>;
               chunks_z = \<lceil>fl64 (real height / of_int chunk_size)\<rceil>
           in Inr \<lparr>m_chunks_x = chunks_x, m_chunks_z = chunks_z, m_chunk_size = chunk_size,
                    m_origin_lat = origin_lat, m_origin_lon = origin_lon,
                    m_files =
                      concat (map (\<lambda>chunk_row. map (\<lambda>chunk_col.
                        build_chunk_f64 grid meta origin_lat origin_lon chunk_size pixel_size
                          chunk_row chunk_col) [0..<nat chunks_x]) [0..<nat chunks_z])\<rparr>)"

text \<open>
  The longitude of the boundary column between the chunks \<open>chunk_col\<close> and \<open>chunk_col + 1\<close> as
  each of the two chunks computes it: the left chunk for its local column
  \<open>chunk_size\<close>, the right chunk for its local column 0.
\<close>

definition seam_lon_left :: "meta \<Rightarrow> int \<Rightarrow> nat \<Rightarrow> real" where
  "seam_lon_left meta chunk_size chunk_col =
     fl64 (fl64 (originLon meta + fl64 (of_int (int chunk_col * chunk_size) * fl64 (pixelSizeDeg meta)))
           + fl64 (real (nat chunk_size) * fl64 (pixelSizeDeg meta)))"

definition seam_lon_right :: "meta \<Rightarrow> int \<Rightarrow> nat \<Rightarrow> real" where
  "seam_lon_right meta chunk_size chunk_col =
     fl64 (fl64 (originLon meta + fl64 (of_int (int (chunk_col + 1) * chunk_size) * fl64 (pixelSizeDeg meta)))
           + fl64 (real 0 * fl64 (pixelSizeDeg meta)))"

section \<open>Example inputs\<close>

definition grid22 :: array2 where
  "grid22 = \<lparr>nrows = 2, ncols = 2, cells = [[Val 1, Val (- 400)], [NaN, Val 4]]\<rparr>"

definition meta0 :: meta where
  "meta0 = \<lparr>originLat = 0, originLon = 0, pixelSizeDeg = 1, meta_width = 2, meta_height = 2,
     centerLat = 0, centerLon = 0, radiusMiles = 1\<rparr>"

definition nan33 :: array2 where
  "nan33 = mk_array 3 3 (\<lambda>r c. NaN)"

definition tile22 :: "real \<Rightarrow> real \<Rightarrow> sample \<Rightarrow> sample \<Rightarrow> sample \<Rightarrow> sample \<Rightarrow> tile" where
  "tile22 lon lat s00 s01 s10 s11 =
     \<lparr>t_data = \<lparr>nrows = 2, ncols = 2, cells = [[s00, s01], [s10, s11]]\<rparr>,
      t_origin_lon = lon, t_origin_lat = lat, t_scale_lon = 1, t_scale_lat = 1\<rparr>"

definition tileA :: tile where
  "tileA = tile22 0 1 (Val 1) (Val 2) (Val 3) (Val 4)"

definition tileB :: tile where
  "tileB = tile22 (1 / 2) 1 (Val 5) (Val 6) (Val 7) (Val 8)"

definition tileN :: tile where
  "tileN = tile22 0 1 NaN (Val 6) (Val 7) (Val 8)"

definition tile1 :: tile where
  "tile1 = \<lparr>t_data = \<lparr>nrows = 1, ncols = 1, cells = [[Val 7]]\<rparr>,
     t_origin_lon = 0, t_origin_lat = 1, t_scale_lon = 1, t_scale_lat = 1\<rparr>"

definition grid33 :: array2 where
  "grid33 = \<lparr>nrows = 3, ncols = 3,
     cells = [[Val 10, Val 11, Val 12], [Val 13, Val 14, Val 15], [Val 16, Val 17, Val 18]]\<rparr>"

definition grid13 :: array2 where
  "grid13 = \<lparr>nrows = 1, ncols = 3, cells = [[Val 1, Val 2, Val 3]]\<rparr>"

text \<open>
  A 1 by 3 tile with a pixel size of 0.1 degrees, and the metadata of a grid with the same
  pixel size whose first column is at longitude 1.
\<close>

definition tile13 :: tile where
  "tile13 = \<lparr>t_data = \<lparr>nrows = 1, ncols = 3, cells = [[Val 1, Val 2, Val 3]]\<rparr>,
     t_origin_lon = 0, t_origin_lat = 0, t_scale_lon = fl64 (1 / 10), t_scale_lat = fl64 (1 / 10)\<rparr>"

definition meta_tenth :: meta where
  "meta_tenth = \<lparr>originLat = 0, originLon = 1, pixelSizeDeg = fl64 (1 / 10), meta_width = 3,
     meta_height = 1, centerLat = 0, centerLon = 0, radiusMiles = 1\<rparr>"

section \<open>Lists built by nested loops\<close>

lemma length_concat_map_upt:
  assumes "\<And>i. i < n \<Longrightarrow> length (f i) = m"
  shows "length (concat (map f [0..<n])) = n * m"
  using assms by (induction n) simp_all

lemma nth_concat_map_upt:
  assumes len: "\<And>i. i < n \<Longrightarrow> length (f i) = m" and r: "r < n" and c: "c < m"
  shows "concat (map f [0..<n]) ! (r * m + c) = f r ! c"
  using len r
proof (induction n)
  case 0
  then show ?case by simp
next
  case (Suc n)
  have pre: "length (concat (map f [0..<n])) = n * m"
    using Suc.prems(1) by (intro length_concat_map_upt) simp
  show ?case
  proof (cases "r < n")
    case True
    then have "Suc r \<le> n" by simp
    then have "Suc r * m \<le> n * m" by (rule mult_le_mono1)
    with c have "r * m + c < n * m" by simp
    with pre Suc.IH Suc.prems(1) True show ?thesis
      by (simp add: nth_append)
  next
    case False
    with Suc.prems(2) have "r = n" by simp
    with pre show ?thesis
      by (simp add: nth_append)
  qed
qed

section \<open>Arrays\<close>

lemma cell_mk_array [simp]: "r < h \<Longrightarrow> c < w \<Longrightarrow> cell (mk_array h w f) r c = f r c"
  by (simp add: cell_def mk_array_def)

lemma nrows_mk_array [simp]: "nrows (mk_array h w f) = h"
  by (simp add: mk_array_def)

lemma ncols_mk_array [simp]: "ncols (mk_array h w f) = w"
  by (simp add: mk_array_def)

lemma mk_array_cong:
  assumes "\<And>r c. r < h \<Longrightarrow> c < w \<Longrightarrow> f r c = g r c"
  shows "mk_array h w f = mk_array h w g"
  using assms by (simp add: mk_array_def)

lemma mk_array_cells:
  assumes "wf_array a"
  shows "mk_array (nrows a) (ncols a) (cell a) = a"
proof -
  have len: "length (cells a) = nrows a" and rows: "\<And>r. r < nrows a \<Longrightarrow> length (cells a ! r) = ncols a"
    using assms by (auto simp: wf_array_def list_all_length)
  have "map (\<lambda>r. map (\<lambda>c. cells a ! r ! c) [0..<ncols a]) [0..<nrows a] = cells a"
    using len rows by (intro nth_equalityI) (simp_all add: map_nth)
  then show ?thesis
    by (simp add: mk_array_def cell_def)
qed

lemma set_slice2_shape:
  assumes "set_slice2 dest rs re cs ce src = Inr g"
  shows "nrows g = nrows dest" "ncols g = ncols dest"
  using assms by (auto simp: set_slice2_def Let_def split: prod.splits if_splits)

lemma set_slice2_outside:
  assumes "set_slice2 dest rs re cs ce src = Inr g"
    and "r < nrows dest" "c < ncols dest"
    and "slice_range (nrows dest) rs re = (rlo, rhi)" "slice_range (ncols dest) cs ce = (clo, chi)"
    and "\<not> (rlo \<le> r \<and> r < rhi \<and> clo \<le> c \<and> c < chi)"
  shows "cell g r c = cell dest r c"
  using assms by (auto simp: set_slice2_def Let_def split: if_splits)

lemma set_slice2_inside:
  assumes "set_slice2 dest rs re cs ce src = Inr g"
    and "r < nrows dest" "c < ncols dest"
    and "slice_range (nrows dest) rs re = (rlo, rhi)" "slice_range (ncols dest) cs ce = (clo, chi)"
    and "rlo \<le> r" "r < rhi" "clo \<le> c" "c < chi"
  shows "cell g r c = cell src (if nrows src = 1 then 0 else r - rlo) (if ncols src = 1 then 0 else c - clo)"
  using assms by (auto simp: set_slice2_def Let_def split: if_splits)

section \<open>The mesh of a grid\<close>

lemma length_row_faces:
  "length (concat (map (\<lambda>col. quad_faces W row col) [0..<n])) = n * 2"
  by (rule length_concat_map_upt) (simp add: quad_faces_def Let_def)

lemma nth_row_faces:
  assumes "c < n" "k < 2"
  shows "concat (map (\<lambda>col. quad_faces W row col) [0..<n]) ! (c * 2 + k) = quad_faces W row c ! k"
  using assms by (intro nth_concat_map_upt) (simp_all add: quad_faces_def Let_def)

lemma length_faces:
  "length (faces (create_terrain_mesh grid0 meta olat olon d)) =
     (nrows (downsampled grid0 d) - 1) * ((ncols (downsampled grid0 d) - 1) * 2)"
  unfolding create_terrain_mesh_def Let_def
  by (simp add: length_concat_map_upt length_row_faces)

lemma length_vertices:
  "length (vertices (create_terrain_mesh grid0 meta olat olon d)) =
     nrows (downsampled grid0 d) * ncols (downsampled grid0 d)"
  unfolding create_terrain_mesh_def Let_def
  by (simp add: length_concat_map_upt)

lemma nth_vertices:
  assumes "r < nrows (downsampled grid0 d)" "c < ncols (downsampled grid0 d)"
  shows "vertices (create_terrain_mesh grid0 meta olat olon d) ! (r * ncols (downsampled grid0 d) + c) =
     terrain_vertex (downsampled grid0 d) (pixelSizeDeg meta * of_int d) (originLat meta) (originLon meta) olat olon r c"
proof -
  let ?g = "downsampled grid0 d"
  let ?f = "\<lambda>row. map (\<lambda>col. terrain_vertex ?g (pixelSizeDeg meta * of_int d) (originLat meta) (originLon meta) olat olon row col) [0..<ncols ?g]"
  have "concat (map ?f [0..<nrows ?g]) ! (r * ncols ?g + c) = ?f r ! c"
    using assms by (intro nth_concat_map_upt) simp_all
  with assms show ?thesis
    unfolding create_terrain_mesh_def Let_def by simp
qed

lemma nth_faces:
  assumes "r < nrows (downsampled grid0 d) - 1" "c < ncols (downsampled grid0 d) - 1" "k < 2"
  shows "faces (create_terrain_mesh grid0 meta olat olon d) ! (2 * (r * (ncols (downsampled grid0 d) - 1) + c) + k) =
     quad_faces (ncols (downsampled grid0 d)) r c ! k"
proof -
  let ?g = "downsampled grid0 d"
  let ?W = "ncols ?g"
  let ?f = "\<lambda>row. concat (map (\<lambda>col. quad_faces ?W row col) [0..<?W - 1])"
  have idx: "2 * (r * (?W - 1) + c) + k = r * ((?W - 1) * 2) + (c * 2 + k)"
    by (simp add: algebra_simps)
  have "c * 2 + k < (?W - 1) * 2"
    using assms(2,3) by simp
  then have "concat (map ?f [0..<nrows ?g - 1]) ! (r * ((?W - 1) * 2) + (c * 2 + k)) = ?f r ! (c * 2 + k)"
    using assms(1) by (intro nth_concat_map_upt) (simp_all add: length_row_faces)
  also have "\<dots> = quad_faces ?W r c ! k"
    using assms(2,3) by (rule nth_row_faces)
  finally show ?thesis
    unfolding create_terrain_mesh_def Let_def idx by simp
qed

lemma set_faces:
  assumes "t \<in> set (faces (create_terrain_mesh grid0 meta olat olon d))"
  shows "\<exists>r c. r < nrows (downsampled grid0 d) - 1 \<and> c < ncols (downsampled grid0 d) - 1
           \<and> t \<in> set (quad_faces (ncols (downsampled grid0 d)) r c)"
  using assms unfolding create_terrain_mesh_def Let_def by auto blast

lemma quad_faces_sound:
  assumes "r < H - 1" "c < W - 1" "(a, b, e) \<in> set (quad_faces W r c)"
  shows "a \<noteq> b \<and> b \<noteq> e \<and> a \<noteq> e \<and> a < W * H \<and> b < W * H \<and> e < W * H"
proof -
  from assms(1) have "r + 2 \<le> H" by simp
  then have "(r + 2) * W \<le> H * W" by (rule mult_le_mono1)
  then have bound: "r * W + 2 * W \<le> W * H" by (simp add: algebra_simps)
  from assms(2) have "c + 2 \<le> W" by simp
  with bound assms(3) show ?thesis
    by (auto simp: quad_faces_def Let_def)
qed

text \<open>
  Claim C1. For a grid of width \<open>W \<ge> 1\<close> and height \<open>H \<ge> 1\<close> (the grid after the
  downsampling step), \<^verbatim>\<open>create_terrain_mesh\<close> produces \<open>W * H\<close> vertices, the
  vertex of cell \<open>(r, c)\<close> at index \<open>r * W + c\<close>, and \<open>2 * (W - 1) * (H - 1)\<close> faces; the quad
  at \<open>(r, c)\<close> contributes the faces \<open>(v00, v10, v01)\<close> and \<open>(v01, v10, v11)\<close>, in this
  order, at the positions \<open>2 * (r * (W - 1) + c)\<close> and the next one; the three indices of
  every face are pairwise distinct and below \<open>W * H\<close>.
\<close>

theorem create_terrain_mesh_layout:
  assumes "grid = downsampled grid0 downsample"
    and "W = ncols grid" and "H = nrows grid"
    and "m = create_terrain_mesh grid0 meta origin_lat origin_lon downsample"
    and "1 \<le> W" and "1 \<le> H"
  shows "length (vertices m) = W * H
    \<and> (\<forall>r<H. \<forall>c<W. vertices m ! (r * W + c) =
          terrain_vertex grid (pixelSizeDeg meta * of_int downsample) (originLat meta)
            (originLon meta) origin_lat origin_lon r c)
    \<and> int (length (faces m)) = 2 * (int W - 1) * (int H - 1)
    \<and> (\<forall>r<H - 1. \<forall>c<W - 1.
          faces m ! (2 * (r * (W - 1) + c)) = (r * W + c, (r + 1) * W + c, r * W + c + 1)
        \<and> faces m ! (2 * (r * (W - 1) + c) + 1) =
            (r * W + c + 1, (r + 1) * W + c, (r + 1) * W + c + 1))
    \<and> (\<forall>(a, b, c)\<in>set (faces m).
          a \<noteq> b \<and> b \<noteq> c \<and> a \<noteq> c \<and> a < W * H \<and> b < W * H \<and> c < W * H)"
proof (intro conjI allI impI)
  show "length (vertices m) = W * H"
    using assms(1-4) by (simp add: length_vertices mult.commute)
next
  fix r c assume "r < H" "c < W"
  then show "vertices m ! (r * W + c) =
      terrain_vertex grid (pixelSizeDeg meta * of_int downsample) (originLat meta)
        (originLon meta) origin_lat origin_lon r c"
    using assms(1-4) nth_vertices [of r grid0 downsample c] by simp
next
  have "length (faces m) = (H - 1) * ((W - 1) * 2)"
    using assms(1-4) by (simp add: length_faces)
  moreover have "int (H - 1) = int H - 1" "int (W - 1) = int W - 1"
    using assms(5,6) by simp_all
  ultimately show "int (length (faces m)) = 2 * (int W - 1) * (int H - 1)"
    by simp
next
  fix r c assume rc: "r < H - 1" "c < W - 1"
  from rc show "faces m ! (2 * (r * (W - 1) + c)) = (r * W + c, (r + 1) * W + c, r * W + c + 1)"
    using assms(1-4) nth_faces [of r grid0 downsample c 0 meta origin_lat origin_lon]
    by (simp add: quad_faces_def Let_def)
  from rc show "faces m ! (2 * (r * (W - 1) + c) + 1) =
      (r * W + c + 1, (r + 1) * W + c, (r + 1) * W + c + 1)"
    using assms(1-4) nth_faces [of r grid0 downsample c 1 meta origin_lat origin_lon]
    by (simp add: quad_faces_def Let_def)
next
  show "\<forall>(a, b, c)\<in>set (faces m).
          a \<noteq> b \<and> b \<noteq> c \<and> a \<noteq> c \<and> a < W * H \<and> b < W * H \<and> c < W * H"
  proof (intro ballI)
    fix t assume t: "t \<in> set (faces m)"
    obtain a b e where abe: "t = (a, b, e)" by (cases t)
    from t obtain r c where "r < H - 1" "c < W - 1" "t \<in> set (quad_faces W r c)"
      using assms(1-4) set_faces [of t grid0 meta origin_lat origin_lon downsample] by auto
    then have "a \<noteq> b \<and> b \<noteq> e \<and> a \<noteq> e \<and> a < W * H \<and> b < W * H \<and> e < W * H"
      unfolding abe by (rule quad_faces_sound)
    then show "case t of (a, b, c) \<Rightarrow>
        a \<noteq> b \<and> b \<noteq> c \<and> a \<noteq> c \<and> a < W * H \<and> b < W * H \<and> c < W * H"
      unfolding abe by simp
  qed
qed

theorem create_terrain_mesh_layout_witness:
  "1 \<le> ncols grid22 \<and> 1 \<le> nrows grid22
   \<and> length (vertices (create_terrain_mesh grid22 meta0 0 0 1)) = 4
   \<and> int (length (faces (create_terrain_mesh grid22 meta0 0 0 1))) = 2
   \<and> faces (create_terrain_mesh grid22 meta0 0 0 1) ! 0 = (0, 2, 1)
   \<and> faces (create_terrain_mesh grid22 meta0 0 0 1) ! 1 = (1, 2, 3)"
proof -
  have g: "grid22 = downsampled grid22 1"
    by (simp add: downsampled_def)
  have W: "2 = ncols grid22" and H: "2 = nrows grid22"
    by (simp_all add: grid22_def)
  have "(\<forall>r<2 - 1. \<forall>c<2 - 1.
          faces (create_terrain_mesh grid22 meta0 0 0 1) ! (2 * (r * (2 - 1) + c)) =
            (r * 2 + c, (r + 1) * 2 + c, r * 2 + c + 1)
        \<and> faces (create_terrain_mesh grid22 meta0 0 0 1) ! (2 * (r * (2 - 1) + c) + 1) =
            (r * 2 + c + 1, (r + 1) * 2 + c, (r + 1) * 2 + c + 1))
     \<and> length (vertices (create_terrain_mesh grid22 meta0 0 0 1)) = 2 * 2
     \<and> int (length (faces (create_terrain_mesh grid22 meta0 0 0 1))) = 2 * (int 2 - 1) * (int 2 - 1)"
    using create_terrain_mesh_layout [OF g W H refl, of meta0 0 0] by simp
  then show ?thesis
    by (simp add: grid22_def)
qed

lemma terrain_vertex_y:
  "fst (snd (terrain_vertex g ps hlat hlon olat olon row col)) =
     (if isnan (fmul (cell g row col) METERS_TO_FEET) \<or> flt (fmul (cell g row col) METERS_TO_FEET) (- 1000)
      then Val 0 else fmul (cell g row col) METERS_TO_FEET)"
  by (simp add: terrain_vertex_def Let_def split: prod.split)

lemma set_vertices:
  assumes "v \<in> set (vertices (create_terrain_mesh grid0 meta olat olon d))"
  shows "\<exists>r c. r < nrows (downsampled grid0 d) \<and> c < ncols (downsampled grid0 d) \<and>
     v = terrain_vertex (downsampled grid0 d) (pixelSizeDeg meta * of_int d) (originLat meta)
           (originLon meta) olat olon r c"
  using assms unfolding create_terrain_mesh_def Let_def by auto blast

text \<open>
  Claim C7. For every cell of the grid (after the downsampling step) whose sample is NaN, or
  whose elevation in feet is below \<open>-1000\<close>, the vertex of that cell has the Y coordinate
  \<open>0\<close>; no vertex has a NaN Y coordinate. For the 3 by 3 grid of NaN samples the mesh has
  9 vertices, all at Y \<open>0\<close>, and 8 faces.
\<close>

theorem nodata_snapped_to_zero:
  "(\<forall>r<nrows (downsampled grid0 d). \<forall>c<ncols (downsampled grid0 d).
      (cell (downsampled grid0 d) r c = NaN
        \<or> (\<exists>v. cell (downsampled grid0 d) r c = Val v \<and> v * METERS_TO_FEET < - 1000))
      \<longrightarrow> fst (snd (vertices (create_terrain_mesh grid0 meta olat olon d)
                          ! (r * ncols (downsampled grid0 d) + c))) = Val 0)
   \<and> (\<forall>v\<in>set (vertices (create_terrain_mesh grid0 meta olat olon d)). fst (snd v) \<noteq> NaN)
   \<and> length (vertices (create_terrain_mesh nan33 meta olat olon 1)) = 9
   \<and> (\<forall>v\<in>set (vertices (create_terrain_mesh nan33 meta olat olon 1)). fst (snd v) = Val 0)
   \<and> length (faces (create_terrain_mesh nan33 meta olat olon 1)) = 8"
proof (intro conjI allI impI ballI)
  fix r c
  assume rc: "r < nrows (downsampled grid0 d)" "c < ncols (downsampled grid0 d)"
    and nodata: "cell (downsampled grid0 d) r c = NaN
        \<or> (\<exists>v. cell (downsampled grid0 d) r c = Val v \<and> v * METERS_TO_FEET < - 1000)"
  from nodata show "fst (snd (vertices (create_terrain_mesh grid0 meta olat olon d)
                          ! (r * ncols (downsampled grid0 d) + c))) = Val 0"
    unfolding nth_vertices [OF rc] terrain_vertex_y
    by (auto simp: fmul_def isnan_def flt_def)
next
  fix v assume "v \<in> set (vertices (create_terrain_mesh grid0 meta olat olon d))"
  then obtain r c where "v = terrain_vertex (downsampled grid0 d) (pixelSizeDeg meta * of_int d)
      (originLat meta) (originLon meta) olat olon r c"
    using set_vertices by blast
  then show "fst (snd v) \<noteq> NaN"
    by (simp add: terrain_vertex_y isnan_def split: sample.splits)
next
  show "length (vertices (create_terrain_mesh nan33 meta olat olon 1)) = 9"
    by (simp add: length_vertices downsampled_def nan33_def)
next
  fix v assume "v \<in> set (vertices (create_terrain_mesh nan33 meta olat olon 1))"
  then obtain r c where rc: "r < nrows nan33" "c < ncols nan33"
    and v: "v = terrain_vertex nan33 (pixelSizeDeg meta * of_int 1)
      (originLat meta) (originLon meta) olat olon r c"
    using set_vertices [of v nan33 meta olat olon 1] by (auto simp: downsampled_def)
  from rc have "cell nan33 r c = NaN"
    by (simp add: nan33_def)
  with v show "fst (snd v) = Val 0"
    by (simp add: terrain_vertex_y fmul_def isnan_def)
next
  show "length (faces (create_terrain_mesh nan33 meta olat olon 1)) = 8"
    by (simp add: length_faces downsampled_def nan33_def)
qed

theorem nodata_snapped_to_zero_witness:
  "cell grid22 1 0 = NaN
   \<and> fst (snd (vertices (create_terrain_mesh grid22 meta0 0 0 1) ! 2)) = Val 0
   \<and> cell grid22 0 1 = Val (- 400) \<and> - 400 * METERS_TO_FEET < - 1000
   \<and> fst (snd (vertices (create_terrain_mesh grid22 meta0 0 0 1) ! 1)) = Val 0"
proof -
  have g: "downsampled grid22 1 = grid22"
    by (simp add: downsampled_def)
  have shape: "nrows grid22 = 2" "ncols grid22 = 2"
    by (simp_all add: grid22_def)
  have c10: "cell grid22 1 0 = NaN" and c01: "cell grid22 0 1 = Val (- 400)"
    by (simp_all add: grid22_def cell_def)
  have low: "- 400 * METERS_TO_FEET < - 1000"
    by (simp add: METERS_TO_FEET_def)
  have all: "\<forall>r<2. \<forall>c<2.
      (cell grid22 r c = NaN \<or> (\<exists>v. cell grid22 r c = Val v \<and> v * METERS_TO_FEET < - 1000))
      \<longrightarrow> fst (snd (vertices (create_terrain_mesh grid22 meta0 0 0 1) ! (r * 2 + c))) = Val 0"
    using nodata_snapped_to_zero [of grid22 1 meta0 0 0] unfolding g shape by blast
  from all c10 have "fst (snd (vertices (create_terrain_mesh grid22 meta0 0 0 1) ! (1 * 2 + 0))) = Val 0"
    by (metis one_less_numeral_iff pos2 semiring_norm(76))
  moreover from all c01 low
  have "fst (snd (vertices (create_terrain_mesh grid22 meta0 0 0 1) ! (0 * 2 + 1))) = Val 0"
    by (metis one_less_numeral_iff pos2 semiring_norm(76))
  ultimately show ?thesis
    using c10 c01 low by simp
qed

section \<open>Clip bounds\<close>

text \<open>
  Claim C3. With \<open>dlat = radius / 69\<close> and \<open>dlon = radius / (69 * cos (radians center_lat))\<close>,
  \<^verbatim>\<open>clamp_bounds\<close> returns a box (the division is by a number other than zero)
  whose minima are at least, and whose maxima are at most, those of the input box and those
  of the box of the centre plus or minus \<open>dlon\<close> and \<open>dlat\<close>.
\<close>

theorem clamp_bounds_contained:
  assumes "cos (radians center_lat) \<noteq> 0"
    and "dlat = radius_miles / 69"
    and "dlon = radius_miles / (69 * cos (radians center_lat))"
  shows "\<exists>min_lon min_lat max_lon max_lat.
      clamp_bounds (b_min_lon, b_min_lat, b_max_lon, b_max_lat) center_lat center_lon radius_miles =
        Inr (min_lon, min_lat, max_lon, max_lat)
    \<and> b_min_lon \<le> min_lon \<and> max_lon \<le> b_max_lon
    \<and> b_min_lat \<le> min_lat \<and> max_lat \<le> b_max_lat
    \<and> center_lon - dlon \<le> min_lon \<and> max_lon \<le> center_lon + dlon
    \<and> center_lat - dlat \<le> min_lat \<and> max_lat \<le> center_lat + dlat"
  using assms(1) unfolding assms(2,3) by (simp add: clamp_bounds_def Let_def)

theorem clamp_bounds_contained_witness:
  "cos (radians 0) \<noteq> 0
   \<and> clamp_bounds (0, 0, 3, 1) 0 2 69 = Inr (1, 0, 3, 1)
   \<and> (0::real) \<le> 1 \<and> (3::real) \<le> 3 \<and> (2::real) - 69 / (69 * cos (radians 0)) \<le> 1"
proof -
  have c: "cos (radians 0) \<noteq> 0"
    by (simp add: radians_def)
  from clamp_bounds_contained [OF c refl refl, of 0 0 3 1 2 69]
  show ?thesis
    by (auto simp: radians_def clamp_bounds_def)
qed

section \<open>Compositing\<close>

lemma composite_tile_shape:
  assumes "composite_tile grid height width clip scale_lon scale_lat tile = Inr g"
  shows "nrows g = nrows grid" "ncols g = ncols grid"
  using assms
  by (auto simp: composite_tile_def split: option.splits prod.splits dest: set_slice2_shape)

lemma composite_tile_unwritten:
  assumes "composite_tile grid height width clip scale_lon scale_lat tile = Inr g"
    and "nrows grid = nat height" "ncols grid = nat width"
    and "r < nrows grid" "c < ncols grid"
    and "\<not> writes_cell height width clip scale_lon scale_lat tile r c"
  shows "cell g r c = cell grid r c"
proof (cases "tile_placement height width clip scale_lon scale_lat tile")
  case None
  with assms(1) show ?thesis by (simp add: composite_tile_def)
next
  case (Some p)
  obtain row_start row_end col_start col_end src_row_start src_row_end src_col_start src_col_end
    where p: "p = ((row_start, row_end, col_start, col_end),
                   (src_row_start, src_row_end, src_col_start, src_col_end))"
    by (metis prod.exhaust)
  obtain rlo rhi clo chi where rng: "slice_range (nrows grid) row_start row_end = (rlo, rhi)"
      "slice_range (ncols grid) col_start col_end = (clo, chi)"
    by (metis prod.exhaust)
  from assms(6) Some p rng assms(2,3) have out: "\<not> (rlo \<le> r \<and> r < rhi \<and> clo \<le> c \<and> c < chi)"
    by (simp add: writes_cell_def)
  from assms(1) Some p have "set_slice2 grid row_start row_end col_start col_end
      (slice2 (t_data tile) src_row_start src_row_end src_col_start src_col_end) = Inr g"
    by (simp add: composite_tile_def)
  from set_slice2_outside [OF this assms(4,5) rng out] show ?thesis .
qed

lemma composite_loop_shape:
  assumes "composite_loop grid height width clip scale_lon scale_lat tiles = Inr g"
  shows "nrows g = nrows grid \<and> ncols g = ncols grid"
  using assms
proof (induction tiles arbitrary: grid)
  case Nil
  then show ?case by simp
next
  case (Cons t ts)
  then show ?case
    by (auto split: sum.splits dest: composite_tile_shape)
qed

lemma composite_loop_unwritten:
  assumes "composite_loop grid height width clip scale_lon scale_lat tiles = Inr g"
    and "nrows grid = nat height" "ncols grid = nat width"
    and "r < nrows grid" "c < ncols grid"
    and "list_all (\<lambda>t. \<not> writes_cell height width clip scale_lon scale_lat t r c) tiles"
  shows "cell g r c = cell grid r c"
  using assms
proof (induction tiles arbitrary: grid)
  case Nil
  then show ?case by simp
next
  case (Cons t ts)
  from Cons.prems(1) obtain g1 where g1: "composite_tile grid height width clip scale_lon scale_lat t = Inr g1"
    and rest: "composite_loop g1 height width clip scale_lon scale_lat ts = Inr g"
    by (auto split: sum.splits)
  have shape: "nrows g1 = nrows grid" "ncols g1 = ncols grid"
    using g1 by (rule composite_tile_shape)+
  from Cons.prems(6) have nw: "\<not> writes_cell height width clip scale_lon scale_lat t r c"
    and nws: "list_all (\<lambda>t. \<not> writes_cell height width clip scale_lon scale_lat t r c) ts"
    by simp_all
  have "cell g1 r c = cell grid r c"
    using g1 Cons.prems(2-5) nw by (rule composite_tile_unwritten)
  moreover have "cell g r c = cell g1 r c"
  proof -
    have "nrows g1 = nat height" "ncols g1 = nat width" "r < nrows g1" "c < ncols g1"
      using shape Cons.prems(2-5) by simp_all
    with rest show ?thesis
      using nws by (rule Cons.IH)
  qed
  ultimately show ?case by simp
qed

lemma composite_loop_append:
  "composite_loop grid height width clip scale_lon scale_lat (ts1 @ ts2) =
     (case composite_loop grid height width clip scale_lon scale_lat ts1 of
        Inl e \<Rightarrow> Inl e
      | Inr g1 \<Rightarrow> composite_loop g1 height width clip scale_lon scale_lat ts2)"
  by (induction ts1 arbitrary: grid) (auto split: sum.splits)

lemma composite_Inr:
  assumes "composite tiles clip = Inr grid"
  shows "\<exists>height width. grid_size tiles clip = Inr (height, width) \<and> 0 \<le> height \<and> 0 \<le> width
    \<and> composite_loop (mk_array (nat height) (nat width) (\<lambda>r c. NaN)) height width clip
         (t_scale_lon (hd tiles)) (t_scale_lat (hd tiles)) tiles = Inr grid
    \<and> nrows grid = nat height \<and> ncols grid = nat width"
proof -
  from assms obtain height width where gs: "grid_size tiles clip = Inr (height, width)"
    by (auto simp: composite_def split: sum.splits)
  with assms have nn: "0 \<le> height" "0 \<le> width"
    and loop: "composite_loop (mk_array (nat height) (nat width) (\<lambda>r c. NaN)) height width clip
         (t_scale_lon (hd tiles)) (t_scale_lat (hd tiles)) tiles = Inr grid"
    by (auto simp: composite_def split: if_splits)
  from composite_loop_shape [OF loop] gs nn loop show ?thesis by simp
qed

text \<open>
  Claim C2. After the compositing loop, every cell of the target grid that lies in the
  destination slice of no tile that was not skipped is NaN: the grid starts as NaN everywhere
  and only the destination slices are written.
\<close>

theorem uncovered_cells_nan:
  assumes "composite tiles clip = Inr grid"
    and "r < nrows grid" and "c < ncols grid"
    and "list_all (\<lambda>t. \<not> writes_cell (int (nrows grid)) (int (ncols grid)) clip
            (t_scale_lon (hd tiles)) (t_scale_lat (hd tiles)) t r c) tiles"
  shows "cell grid r c = NaN"
proof -
  from composite_Inr [OF assms(1)] obtain height width
    where nn: "0 \<le> height" "0 \<le> width"
      and loop: "composite_loop (mk_array (nat height) (nat width) (\<lambda>r c. NaN)) height width clip
         (t_scale_lon (hd tiles)) (t_scale_lat (hd tiles)) tiles = Inr grid"
      and shape: "nrows grid = nat height" "ncols grid = nat width"
    by blast
  from nn shape have hw: "int (nrows grid) = height" "int (ncols grid) = width"
    by simp_all
  have "cell grid r c = cell (mk_array (nat height) (nat width) (\<lambda>r c. NaN)) r c"
    using loop assms(2-4) shape unfolding hw
    by (intro composite_loop_unwritten) simp_all
  with assms(2,3) shape show ?thesis by simp
qed

lemma py_round_0 [simp]: "py_round 0 = 0"
  by (simp add: py_round_def Let_def)

lemma slice_1d:
  fixes origin :: int and r len th :: nat
  assumes "origin \<le> int r" "int r < origin + int th" "r < len"
    and "rs = max 0 origin" "re = min (int len) (origin + int th)"
    and "ss = max 0 (- origin)" "se = ss + (re - rs)"
  shows "slice_range len rs re = (nat rs, nat re)"
    and "slice_range th ss se = (nat ss, nat se)"
    and "nat rs \<le> r" and "r < nat re"
    and "nat se - nat ss = nat re - nat rs"
    and "nat ss + (r - nat rs) = nat (int r - origin)"
  using assms by (auto simp: slice_range_def slice_index_def Let_def max_def min_def)

lemma tile_placement_Some:
  assumes "\<not> tile_skipped clip tile"
    and "orow = origin_row_of clip scale_lat tile" "ocol = origin_col_of clip scale_lon tile"
    and "rs = max 0 orow" "re = min height (orow + int (nrows (t_data tile)))"
    and "cs = max 0 ocol" "ce = min width (ocol + int (ncols (t_data tile)))"
    and "srs = max 0 (- orow)" "sre = srs + (re - rs)"
    and "scs = max 0 (- ocol)" "sce = scs + (ce - cs)"
  shows "tile_placement height width clip scale_lon scale_lat tile =
      Some ((rs, re, cs, ce), (srs, sre, scs, sce))"
  using assms(1) unfolding assms(2-) by (simp add: tile_placement_def Let_def)

lemma composite_tile_written:
  assumes ct: "composite_tile grid height width clip scale_lon scale_lat tile = Inr g"
    and shape: "nrows grid = nat height" "ncols grid = nat width"
    and ns: "\<not> tile_skipped clip tile"
    and rc: "r < nrows grid" "c < ncols grid"
    and row: "origin_row_of clip scale_lat tile \<le> int r"
      "int r < origin_row_of clip scale_lat tile + int (nrows (t_data tile))"
    and col: "origin_col_of clip scale_lon tile \<le> int c"
      "int c < origin_col_of clip scale_lon tile + int (ncols (t_data tile))"
  shows "cell g r c = cell (t_data tile) (nat (int r - origin_row_of clip scale_lat tile))
                        (nat (int c - origin_col_of clip scale_lon tile))
       \<and> writes_cell height width clip scale_lon scale_lat tile r c"
proof -
  define orow where "orow = origin_row_of clip scale_lat tile"
  define ocol where "ocol = origin_col_of clip scale_lon tile"
  define rs where "rs = max 0 orow"
  define re where "re = min height (orow + int (nrows (t_data tile)))"
  define cs where "cs = max 0 ocol"
  define ce where "ce = min width (ocol + int (ncols (t_data tile)))"
  define srs where "srs = max 0 (- orow)"
  define sre where "sre = srs + (re - rs)"
  define scs where "scs = max 0 (- ocol)"
  define sce where "sce = scs + (ce - cs)"
  have hw: "height = int (nrows grid)" "width = int (ncols grid)"
    using shape rc by simp_all
  have re': "re = min (int (nrows grid)) (orow + int (nrows (t_data tile)))"
    and ce': "ce = min (int (ncols grid)) (ocol + int (ncols (t_data tile)))"
    by (simp_all add: re_def ce_def hw)
  have r': "orow \<le> int r" "int r < orow + int (nrows (t_data tile))"
    and c': "ocol \<le> int c" "int c < ocol + int (ncols (t_data tile))"
    using row col by (simp_all add: orow_def ocol_def)
  note R = slice_1d [OF r' rc(1) rs_def re' srs_def sre_def]
  note C = slice_1d [OF c' rc(2) cs_def ce' scs_def sce_def]
  have pl: "tile_placement height width clip scale_lon scale_lat tile =
      Some ((rs, re, cs, ce), (srs, sre, scs, sce))"
    using ns orow_def ocol_def rs_def re_def cs_def ce_def srs_def sre_def scs_def sce_def
    by (rule tile_placement_Some)
  have w: "writes_cell height width clip scale_lon scale_lat tile r c"
    using R(3,4) C(3,4) by (simp add: writes_cell_def pl shape [symmetric] R(1) C(1))
  define src where "src = slice2 (t_data tile) srs sre scs sce"
  have src: "src = mk_array (nat re - nat rs) (nat ce - nat cs)
      (\<lambda>r' c'. cell (t_data tile) (nat srs + r') (nat scs + c'))"
    by (simp add: src_def slice2_def R(2,5) C(2,5))
  have ss: "set_slice2 grid rs re cs ce src = Inr g"
    using ct by (simp add: composite_tile_def pl src_def)
  have in_r: "r - nat rs < nat re - nat rs" and in_c: "c - nat cs < nat ce - nat cs"
    using R(3,4) C(3,4) by linarith+
  have "cell g r c = cell src (if nrows src = 1 then 0 else r - nat rs)
      (if ncols src = 1 then 0 else c - nat cs)"
    using ss rc R(1) C(1) R(3,4) C(3,4) by (rule set_slice2_inside)
  also have "\<dots> = cell src (r - nat rs) (c - nat cs)"
  proof -
    have "nrows src = 1 \<Longrightarrow> r - nat rs = 0" "ncols src = 1 \<Longrightarrow> c - nat cs = 0"
      using in_r in_c by (simp_all add: src)
    then show ?thesis by auto
  qed
  also have "\<dots> = cell (t_data tile) (nat srs + (r - nat rs)) (nat scs + (c - nat cs))"
    unfolding src using in_r in_c by (rule cell_mk_array)
  also have "\<dots> = cell (t_data tile) (nat (int r - orow)) (nat (int c - ocol))"
    by (simp only: R(6) C(6))
  finally show ?thesis
    using w by (simp add: orow_def ocol_def)
qed

text \<open>
  Claim C10. A tile copies its samples verbatim, NaN included: at a grid position inside the
  footprint of a tile that is not skipped, and written by no tile processed after it, the
  final grid holds that tile's sample, whatever earlier tiles wrote there. So a NaN of a later
  tile replaces a valid elevation of an earlier one.
\<close>

theorem later_tile_overwrites:
  assumes comp: "composite (ts1 @ t # ts2) clip = Inr grid"
    and sl: "scale_lon = t_scale_lon (hd (ts1 @ t # ts2))"
    and sa: "scale_lat = t_scale_lat (hd (ts1 @ t # ts2))"
    and ns: "\<not> tile_skipped clip t"
    and rc: "r < nrows grid" "c < ncols grid"
    and row: "origin_row_of clip scale_lat t \<le> int r"
      "int r < origin_row_of clip scale_lat t + int (nrows (t_data t))"
    and col: "origin_col_of clip scale_lon t \<le> int c"
      "int c < origin_col_of clip scale_lon t + int (ncols (t_data t))"
    and later: "list_all (\<lambda>t'. \<not> writes_cell (int (nrows grid)) (int (ncols grid)) clip
                  scale_lon scale_lat t' r c) ts2"
  shows "cell grid r c = cell (t_data t) (nat (int r - origin_row_of clip scale_lat t))
                           (nat (int c - origin_col_of clip scale_lon t))"
proof -
  from composite_Inr [OF comp] obtain height width
    where nn: "0 \<le> height" "0 \<le> width"
      and loop: "composite_loop (mk_array (nat height) (nat width) (\<lambda>r c. NaN)) height width clip
         scale_lon scale_lat (ts1 @ t # ts2) = Inr grid"
      and shape: "nrows grid = nat height" "ncols grid = nat width"
    unfolding sl sa by blast
  from nn shape have hw: "int (nrows grid) = height" "int (ncols grid) = width"
    by simp_all
  from loop obtain g1 where g1: "composite_loop (mk_array (nat height) (nat width) (\<lambda>r c. NaN))
      height width clip scale_lon scale_lat ts1 = Inr g1"
    and rest: "composite_loop g1 height width clip scale_lon scale_lat (t # ts2) = Inr grid"
    by (auto simp: composite_loop_append split: sum.splits)
  from rest obtain g2 where g2: "composite_tile g1 height width clip scale_lon scale_lat t = Inr g2"
    and tail: "composite_loop g2 height width clip scale_lon scale_lat ts2 = Inr grid"
    by (auto split: sum.splits)
  have s1: "nrows g1 = nat height" "ncols g1 = nat width"
    using composite_loop_shape [OF g1] by simp_all
  have s2: "nrows g2 = nat height" "ncols g2 = nat width"
    using composite_tile_shape [OF g2] s1 by simp_all
  have rc1: "r < nrows g1" "c < ncols g1" and rc2: "r < nrows g2" "c < ncols g2"
    using rc shape s1 s2 by simp_all
  have "cell grid r c = cell g2 r c"
    using tail s2 rc2 later [unfolded hw] by (rule composite_loop_unwritten)
  also have "\<dots> = cell (t_data t) (nat (int r - origin_row_of clip scale_lat t))
                           (nat (int c - origin_col_of clip scale_lon t))"
    using composite_tile_written [OF g2 s1 ns rc1 row col] by simp
  finally show ?thesis .
qed

lemma composite_tileA_tileN: "composite [tileA, tileN] (0, - 1, 2, 1) =
    Inr \<lparr>nrows = 2, ncols = 2, cells = [[NaN, Val 6], [Val 7, Val 8]]\<rparr>"
  by code_simp

lemma composite_tileA: "composite [tileA] (0, - 1, 2, 1) =
    Inr \<lparr>nrows = 2, ncols = 2, cells = [[Val 1, Val 2], [Val 3, Val 4]]\<rparr>"
  by code_simp

lemma tileN_facts: "\<not> tile_skipped (0, - 1, 2, 1) tileN" "origin_row_of (0, - 1, 2, 1) 1 tileN = 0"
  "origin_col_of (0, - 1, 2, 1) 1 tileN = 0" "t_scale_lon tileA = 1" "t_scale_lat tileA = 1"
  "nrows (t_data tileN) = 2" "ncols (t_data tileN) = 2" "cell (t_data tileN) 0 0 = NaN"
  by code_simp+

theorem later_tile_overwrites_witness:
  "composite [tileA] (0, - 1, 2, 1) =
     Inr \<lparr>nrows = 2, ncols = 2, cells = [[Val 1, Val 2], [Val 3, Val 4]]\<rparr>
   \<and> composite ([tileA] @ tileN # []) (0, - 1, 2, 1) =
     Inr \<lparr>nrows = 2, ncols = 2, cells = [[NaN, Val 6], [Val 7, Val 8]]\<rparr>
   \<and> \<not> tile_skipped (0, - 1, 2, 1) tileN
   \<and> origin_row_of (0, - 1, 2, 1) 1 tileN = 0 \<and> origin_col_of (0, - 1, 2, 1) 1 tileN = 0
   \<and> cell (t_data tileN) 0 0 = NaN
   \<and> cell \<lparr>nrows = 2, ncols = 2, cells = [[NaN, Val 6], [Val 7, Val 8]]\<rparr> 0 0 =
       cell (t_data tileN) 0 0"
proof -
  have comp: "composite ([tileA] @ tileN # []) (0, - 1, 2, 1) =
      Inr \<lparr>nrows = 2, ncols = 2, cells = [[NaN, Val 6], [Val 7, Val 8]]\<rparr>"
    using composite_tileA_tileN by simp
  have "cell \<lparr>nrows = 2, ncols = 2, cells = [[NaN, Val 6], [Val 7, Val 8]]\<rparr> 0 0 =
      cell (t_data tileN) (nat (int 0 - origin_row_of (0, - 1, 2, 1) 1 tileN))
        (nat (int 0 - origin_col_of (0, - 1, 2, 1) 1 tileN))"
    by (rule later_tile_overwrites [OF comp, where scale_lon = 1 and scale_lat = 1])
      (simp_all add: tileN_facts)
  then show ?thesis
    using comp composite_tileA tileN_facts by simp
qed

lemma composite_tileA_tileB:
  "composite [tileA, tileB] (0, - 1, 5 / 2, 1) =
     Inr \<lparr>nrows = 2, ncols = 3, cells = [[Val 5, Val 6, NaN], [Val 7, Val 8, NaN]]\<rparr>"
  by code_simp

lemma column2_unwritten:
  "list_all (\<lambda>t. \<not> writes_cell (int 2) (int 3) (0, - 1, 5 / 2, 1)
      (t_scale_lon (hd [tileA, tileB])) (t_scale_lat (hd [tileA, tileB])) t 0 2) [tileA, tileB]"
  by code_simp

theorem uncovered_cells_nan_witness:
  "composite [tileA, tileB] (0, - 1, 5 / 2, 1) =
     Inr \<lparr>nrows = 2, ncols = 3, cells = [[Val 5, Val 6, NaN], [Val 7, Val 8, NaN]]\<rparr>
   \<and> list_all (\<lambda>t. \<not> writes_cell 2 3 (0, - 1, 5 / 2, 1)
        (t_scale_lon (hd [tileA, tileB])) (t_scale_lat (hd [tileA, tileB])) t 0 2) [tileA, tileB]
   \<and> cell \<lparr>nrows = 2, ncols = 3, cells = [[Val 5, Val 6, NaN], [Val 7, Val 8, NaN]]\<rparr> 0 2 = NaN"
proof -
  have "cell \<lparr>nrows = 2, ncols = 3, cells = [[Val 5, Val 6, NaN], [Val 7, Val 8, NaN]]\<rparr> 0 2 = NaN"
    using composite_tileA_tileB
    by (rule uncovered_cells_nan) (use column2_unwritten in simp_all)
  then show ?thesis
    using composite_tileA_tileB column2_unwritten by simp
qed

lemma py_round_half: "py_round (1 / 2) = 0"
  by (simp add: py_round_def Let_def)

lemma upt2: "[0..<2] = [0, 1]" and upt3: "[0..<3] = [0, 1, 2]"
  by (simp_all add: upt_rec)

lemma tile22_scales:
  "t_scale_lon (tile22 lon lat s00 s01 s10 s11) = 1"
  "t_scale_lat (tile22 lon lat s00 s01 s10 s11) = 1"
  by (simp_all add: tile22_def)

lemma two_tiles_union:
  "compute_union_bounds [tile22 0 1 a00 a01 a10 a11, tile22 (1 / 2) 1 b00 b01 b10 b11] =
     Inr (0, - 1, 5 / 2, 1)"
  by (simp add: tile22_def tile_bounds_def)

lemma two_tiles_size:
  "grid_size [tile22 0 1 a00 a01 a10 a11, tile22 (1 / 2) 1 b00 b01 b10 b11] (0, - 1, 5 / 2, 1) =
     Inr (2, 3)"
  by (simp add: grid_size_def tile22_def)

lemma two_tiles_origin:
  "origin_col_of (0, - 1, 5 / 2, 1) 1 (tile22 0 1 a00 a01 a10 a11) = 0"
  "origin_row_of (0, - 1, 5 / 2, 1) 1 (tile22 0 1 a00 a01 a10 a11) = 0"
  "origin_col_of (0, - 1, 5 / 2, 1) 1 (tile22 (1 / 2) 1 b00 b01 b10 b11) = 0"
  "origin_row_of (0, - 1, 5 / 2, 1) 1 (tile22 (1 / 2) 1 b00 b01 b10 b11) = 0"
  by (simp_all add: origin_col_of_def origin_row_of_def tile22_def py_round_half)

lemma two_tiles_placement:
  "tile_placement 2 3 (0, - 1, 5 / 2, 1) 1 1 (tile22 0 1 a00 a01 a10 a11) =
     Some ((0, 2, 0, 2), (0, 2, 0, 2))"
  "tile_placement 2 3 (0, - 1, 5 / 2, 1) 1 1 (tile22 (1 / 2) 1 b00 b01 b10 b11) =
     Some ((0, 2, 0, 2), (0, 2, 0, 2))"
  by (simp_all add: tile_placement_def two_tiles_origin Let_def)
    (simp_all add: tile_skipped_def tile22_def tile_bounds_def)

lemma slice2_tile22:
  "slice2 (t_data (tile22 lon lat s00 s01 s10 s11)) 0 2 0 2 =
     \<lparr>nrows = 2, ncols = 2, cells = [[s00, s01], [s10, s11]]\<rparr>"
  by (simp add: slice2_def slice_range_def slice_index_def tile22_def mk_array_def cell_def upt2)

lemma set_slice2_23:
  assumes "nrows g = 2" "ncols g = 3"
  shows "set_slice2 g 0 2 0 2 \<lparr>nrows = 2, ncols = 2, cells = [[s00, s01], [s10, s11]]\<rparr> =
     Inr \<lparr>nrows = 2, ncols = 3, cells = [[s00, s01, cell g 0 2], [s10, s11, cell g 1 2]]\<rparr>"
  using assms
  by (simp add: set_slice2_def slice_range_def slice_index_def mk_array_def cell_def upt2 upt3)

text \<open>
  Claim C8, as amended. Two 2 by 2 tiles of pixel size 1, A at origin \<open>(lon 0, lat 1)\<close> and B at
  origin \<open>(lon 1/2, lat 1)\<close>, composited in the order A, B with the union of their bounds as
  clip bounds, give a grid of width 3 and height 2. The column offset of B is
  \<^verbatim>\<open>round(0.5)\<close>, which is 0, so both tiles are copied to the columns 0 and 1: these
  two columns hold B's samples, and column 2 is written by no tile and stays NaN.
\<close>

theorem two_tiles_later_wins:
  "compute_union_bounds [tile22 0 1 a00 a01 a10 a11, tile22 (1 / 2) 1 b00 b01 b10 b11] =
     Inr (0, - 1, 5 / 2, 1)
   \<and> composite [tile22 0 1 a00 a01 a10 a11, tile22 (1 / 2) 1 b00 b01 b10 b11] (0, - 1, 5 / 2, 1) =
     Inr \<lparr>nrows = 2, ncols = 3, cells = [[b00, b01, NaN], [b10, b11, NaN]]\<rparr>
   \<and> origin_col_of (0, - 1, 5 / 2, 1) 1 (tile22 (1 / 2) 1 b00 b01 b10 b11) = 0
   \<and> tile_placement 2 3 (0, - 1, 5 / 2, 1) 1 1 (tile22 0 1 a00 a01 a10 a11) =
     Some ((0, 2, 0, 2), (0, 2, 0, 2))
   \<and> tile_placement 2 3 (0, - 1, 5 / 2, 1) 1 1 (tile22 (1 / 2) 1 b00 b01 b10 b11) =
     Some ((0, 2, 0, 2), (0, 2, 0, 2))"
proof -
  have comp: "composite [tile22 0 1 a00 a01 a10 a11, tile22 (1 / 2) 1 b00 b01 b10 b11] (0, - 1, 5 / 2, 1) =
     Inr \<lparr>nrows = 2, ncols = 3, cells = [[b00, b01, NaN], [b10, b11, NaN]]\<rparr>"
    unfolding composite_def two_tiles_size
    by (simp add: composite_tile_def two_tiles_placement slice2_tile22 set_slice2_23 tile22_scales)
      (simp add: cell_def)
  show ?thesis
    by (intro conjI comp two_tiles_union two_tiles_origin(3) two_tiles_placement)
qed

text \<open>
  The claim as stated expects one overlapping column between a column of A and a column of
  B. For the tiles \<open>tileA\<close> (samples 1 to 4) and \<open>tileB\<close> (samples 5 to 8) both tiles write
  the columns 0 and 1, none writes column 2, and the result is not the grid whose columns are
  A's first column, B's first column and B's second column.
\<close>

theorem two_tiles_overlap_counterexample:
  "composite [tileA, tileB] (0, - 1, 5 / 2, 1) =
     Inr \<lparr>nrows = 2, ncols = 3, cells = [[Val 5, Val 6, NaN], [Val 7, Val 8, NaN]]\<rparr>
   \<and> writes_cell 2 3 (0, - 1, 5 / 2, 1) 1 1 tileA 0 0 \<and> writes_cell 2 3 (0, - 1, 5 / 2, 1) 1 1 tileB 0 0
   \<and> writes_cell 2 3 (0, - 1, 5 / 2, 1) 1 1 tileA 0 1 \<and> writes_cell 2 3 (0, - 1, 5 / 2, 1) 1 1 tileB 0 1
   \<and> \<not> writes_cell 2 3 (0, - 1, 5 / 2, 1) 1 1 tileA 0 2 \<and> \<not> writes_cell 2 3 (0, - 1, 5 / 2, 1) 1 1 tileB 0 2
   \<and> composite [tileA, tileB] (0, - 1, 5 / 2, 1) \<noteq>
     Inr \<lparr>nrows = 2, ncols = 3, cells = [[Val 1, Val 5, Val 6], [Val 3, Val 7, Val 8]]\<rparr>"
  by code_simp

section \<open>The whole heightmap pipeline\<close>

lemma main_steps:
  assumes "tiles \<noteq> []"
    and "compute_union_bounds tiles = Inr ub"
    and "clamp_bounds ub center_lat center_lon radius_miles = Inr (min_lon, min_lat, max_lon, max_lat)"
  shows "main tiles center_lat center_lon radius_miles =
     (case composite tiles (min_lon, min_lat, max_lon, max_lat) of
        Inl e \<Rightarrow> Inl e
      | Inr grid \<Rightarrow>
          Inr (grid,
            \<lparr>originLat = max_lat, originLon = min_lon, pixelSizeDeg = t_scale_lon (hd tiles),
             meta_width = int (ncols grid), meta_height = int (nrows grid),
             centerLat = center_lat, centerLon = center_lon, radiusMiles = radius_miles\<rparr>))"
  using assms by (simp add: main_def)

lemma grid_size_pos:
  assumes "tiles \<noteq> []" "0 < t_scale_lon (hd tiles)" "0 < t_scale_lat (hd tiles)"
  shows "grid_size tiles (min_lon, min_lat, max_lon, max_lat) =
     Inr (\<lceil>(max_lat - min_lat) / t_scale_lat (hd tiles)\<rceil>,
          \<lceil>(max_lon - min_lon) / t_scale_lon (hd tiles)\<rceil>)"
  using assms by (cases tiles) (simp_all add: grid_size_def Let_def)

lemma ceiling_div_neg:
  fixes x s :: real
  assumes "0 < s" "x \<le> - s"
  shows "\<lceil>x / s\<rceil> < 0"
proof -
  from assms have "x / s \<le> - 1"
    by (simp add: pos_divide_le_eq)
  then show ?thesis
    by (simp add: ceiling_less_iff)
qed

lemma ceiling_div_zero:
  fixes x s :: real
  assumes "0 < s" "- s < x" "x \<le> 0"
  shows "\<lceil>x / s\<rceil> = 0"
proof -
  from assms have "- 1 < x / s" "x / s \<le> 0"
    by (simp_all add: pos_less_divide_eq pos_divide_le_eq)
  then show ?thesis
    by (simp add: ceiling_eq_iff)
qed

text \<open>
  Claim C4, as amended. The code has no check of its own for an empty clip region. With a
  positive pixel size of the first tile: when the clamped box is empty by a pixel or more in
  longitude or in latitude (\<open>max - min \<le> - scale\<close>), \<^verbatim>\<open>main\<close> fails with the
  ValueError of the grid allocation, before anything is written; when the extent in a
  dimension lies in \<open>(- scale, 0]\<close>, no such error is raised and every output that
  \<^verbatim>\<open>main\<close> writes then has zero columns, or zero rows.
\<close>

theorem empty_clip_region:
  assumes ne: "tiles \<noteq> []"
    and ub: "compute_union_bounds tiles = Inr ub"
    and cb: "clamp_bounds ub center_lat center_lon radius_miles = Inr (min_lon, min_lat, max_lon, max_lat)"
    and sl: "scale_lon = t_scale_lon (hd tiles)" "0 < scale_lon"
    and sa: "scale_lat = t_scale_lat (hd tiles)" "0 < scale_lat"
  shows "(max_lon - min_lon \<le> - scale_lon \<or> max_lat - min_lat \<le> - scale_lat
          \<longrightarrow> main tiles center_lat center_lon radius_miles = Inl ValueError)
     \<and> (- scale_lon < max_lon - min_lon \<and> max_lon - min_lon \<le> 0
          \<longrightarrow> (\<forall>grid m. main tiles center_lat center_lon radius_miles = Inr (grid, m)
                \<longrightarrow> ncols grid = 0))
     \<and> (- scale_lat < max_lat - min_lat \<and> max_lat - min_lat \<le> 0
          \<longrightarrow> (\<forall>grid m. main tiles center_lat center_lon radius_miles = Inr (grid, m)
                \<longrightarrow> nrows grid = 0))"
proof -
  note m = main_steps [OF ne ub cb]
  have gs: "grid_size tiles (min_lon, min_lat, max_lon, max_lat) =
      Inr (\<lceil>(max_lat - min_lat) / scale_lat\<rceil>, \<lceil>(max_lon - min_lon) / scale_lon\<rceil>)"
    using grid_size_pos [OF ne sl(2) [unfolded sl(1)] sa(2) [unfolded sa(1)]] sl(1) sa(1) by simp
  have shape: "ncols grid = nat \<lceil>(max_lon - min_lon) / scale_lon\<rceil>
        \<and> nrows grid = nat \<lceil>(max_lat - min_lat) / scale_lat\<rceil>"
    if "main tiles center_lat center_lon radius_miles = Inr (grid, m)" for grid m
  proof -
    from that have "composite tiles (min_lon, min_lat, max_lon, max_lat) = Inr grid"
      unfolding m by (auto split: sum.splits)
    from composite_Inr [OF this] gs show ?thesis by auto
  qed
  show ?thesis
  proof (intro conjI impI allI)
    assume "max_lon - min_lon \<le> - scale_lon \<or> max_lat - min_lat \<le> - scale_lat"
    then have "\<lceil>(max_lat - min_lat) / scale_lat\<rceil> < 0 \<or> \<lceil>(max_lon - min_lon) / scale_lon\<rceil> < 0"
      using ceiling_div_neg [OF sl(2)] ceiling_div_neg [OF sa(2)] by blast
    then show "main tiles center_lat center_lon radius_miles = Inl ValueError"
      unfolding m by (simp add: composite_def gs)
  next
    fix grid m
    assume "- scale_lon < max_lon - min_lon \<and> max_lon - min_lon \<le> 0"
      and "main tiles center_lat center_lon radius_miles = Inr (grid, m)"
    then show "ncols grid = 0"
      using shape [of grid m] ceiling_div_zero [OF sl(2), of "max_lon - min_lon"] by simp
  next
    fix grid m
    assume "- scale_lat < max_lat - min_lat \<and> max_lat - min_lat \<le> 0"
      and "main tiles center_lat center_lon radius_miles = Inr (grid, m)"
    then show "nrows grid = 0"
      using shape [of grid m] ceiling_div_zero [OF sa(2), of "max_lat - min_lat"] by simp
  qed
qed

lemma tile1_union: "compute_union_bounds [tile1] = Inr (0, 0, 1, 1)"
  by (simp add: tile1_def tile_bounds_def)

lemma tile1_clamp:
  "clamp_bounds (0, 0, 1, 1) 0 2 69 = Inr (1, 0, 1, 1)"
  "clamp_bounds (0, 0, 1, 1) 0 5 69 = Inr (4, 0, 1, 1)"
  by (simp_all add: clamp_bounds_def radians_def)

lemma tile1_composite:
  "composite [tile1] (1, 0, 1, 1) = Inr \<lparr>nrows = 1, ncols = 0, cells = [[]]\<rparr>"
  by code_simp

lemma tile1_scales: "t_scale_lon (hd [tile1]) = 1" "t_scale_lat (hd [tile1]) = 1"
  by (simp_all add: tile1_def)

lemma main_tile1_degenerate:
  "main [tile1] 0 2 69 =
     Inr (\<lparr>nrows = 1, ncols = 0, cells = [[]]\<rparr>,
          \<lparr>originLat = 1, originLon = 1, pixelSizeDeg = 1, meta_width = 0, meta_height = 1,
           centerLat = 0, centerLon = 2, radiusMiles = 69\<rparr>)"
proof -
  have "[tile1] \<noteq> []" by simp
  from main_steps [OF this tile1_union tile1_clamp(1)] show ?thesis
    unfolding tile1_composite tile1_scales by simp
qed

text \<open>
  A degenerate clip region that is written out: one tile of one pixel covering longitudes
  0 to 1, centre longitude 2 and a radius of one degree. The clamped box has zero width, and
  \<^verbatim>\<open>main\<close> returns a grid with no columns and its metadata.
\<close>

theorem empty_clip_region_counterexample:
  "compute_union_bounds [tile1] = Inr (0, 0, 1, 1)
   \<and> clamp_bounds (0, 0, 1, 1) 0 2 69 = Inr (1, 0, 1, 1)
   \<and> main [tile1] 0 2 69 =
       Inr (\<lparr>nrows = 1, ncols = 0, cells = [[]]\<rparr>,
            \<lparr>originLat = 1, originLon = 1, pixelSizeDeg = 1, meta_width = 0, meta_height = 1,
             centerLat = 0, centerLon = 2, radiusMiles = 69\<rparr>)"
  by (intro conjI tile1_union tile1_clamp(1) main_tile1_degenerate)

theorem empty_clip_region_witness:
  "[tile1] \<noteq> [] \<and> compute_union_bounds [tile1] = Inr (0, 0, 1, 1)
   \<and> clamp_bounds (0, 0, 1, 1) 0 5 69 = Inr (4, 0, 1, 1)
   \<and> (1::real) - 4 \<le> - 1 \<and> main [tile1] 0 5 69 = Inl ValueError
   \<and> clamp_bounds (0, 0, 1, 1) 0 2 69 = Inr (1, 0, 1, 1)
   \<and> - 1 < (1::real) - 1 \<and> (1::real) - 1 \<le> 0
   \<and> ncols \<lparr>nrows = 1, ncols = 0, cells = [[]]\<rparr> = 0"
proof -
  have ne: "[tile1] \<noteq> []" by simp
  have pos: "(0::real) < 1" by simp
  note far = empty_clip_region [OF ne tile1_union tile1_clamp(2) tile1_scales(1) [symmetric] pos
      tile1_scales(2) [symmetric] pos]
  note near = empty_clip_region [OF ne tile1_union tile1_clamp(1) tile1_scales(1) [symmetric] pos
      tile1_scales(2) [symmetric] pos]
  from far have "main [tile1] 0 5 69 = Inl ValueError" by simp
  moreover from near have "\<forall>grid m. main [tile1] 0 2 69 = Inr (grid, m) \<longrightarrow> ncols grid = 0"
    by simp
  with main_tile1_degenerate have "ncols \<lparr>nrows = 1, ncols = 0, cells = [[]]\<rparr> = 0"
    by blast
  ultimately show ?thesis
    using tile1_union tile1_clamp by (intro conjI) simp_all
qed

section \<open>Chunks\<close>

lemma downsampled_1 [simp]: "downsampled grid 1 = grid"
  by (simp add: downsampled_def)

lemma chunk_start_in_range:
  assumes "1 \<le> chunk_size" "k < nat \<lceil>real n / of_int chunk_size\<rceil>"
  shows "int k * chunk_size < int n"
proof -
  from assms(2) have "int k < \<lceil>real n / of_int chunk_size\<rceil>"
    by simp
  then have "of_int (int k) < real n / of_int chunk_size"
    by (simp only: less_ceiling_iff)
  with assms(1) have "real_of_int (int k) * of_int chunk_size < real n"
    by (simp add: pos_less_divide_eq)
  then have "real_of_int (int k * chunk_size) < real_of_int (int n)"
    by simp
  then show ?thesis
    by (simp only: of_int_less_iff)
qed

lemma chunk_slice_1d:
  assumes "1 \<le> chunk_size" "int k * chunk_size < int n"
  shows "slice_range n (int k * chunk_size) (min (int k * chunk_size + chunk_size + 1) (int n)) =
     (k * nat chunk_size, nat (min (int k * chunk_size + chunk_size + 1) (int n)))"
    and "k * nat chunk_size < nat (min (int k * chunk_size + chunk_size + 1) (int n))"
    and "nat (min (int k * chunk_size + chunk_size + 1) (int n)) \<le> n"
proof -
  have k: "nat (int k * chunk_size) = k * nat chunk_size"
    using assms(1) by (simp add: nat_mult_distrib)
  have nn: "0 \<le> int k * chunk_size"
    using assms(1) by simp
  show "slice_range n (int k * chunk_size) (min (int k * chunk_size + chunk_size + 1) (int n)) =
     (k * nat chunk_size, nat (min (int k * chunk_size + chunk_size + 1) (int n)))"
    using assms nn k [symmetric] by (auto simp: slice_range_def slice_index_def Let_def min_def max_def)
  show "k * nat chunk_size < nat (min (int k * chunk_size + chunk_size + 1) (int n))"
  proof -
    have lt: "int k * chunk_size < min (int k * chunk_size + chunk_size + 1) (int n)"
      using assms by simp
    with nn have "0 < min (int k * chunk_size + chunk_size + 1) (int n)"
      by linarith
    then have "nat (int k * chunk_size) < nat (min (int k * chunk_size + chunk_size + 1) (int n))"
      using lt by (simp only: nat_mono_iff)
    then show ?thesis
      by (simp only: k)
  qed
  show "nat (min (int k * chunk_size + chunk_size + 1) (int n)) \<le> n"
    by (auto simp: min_def)
qed

lemma chunk_grid_shape:
  assumes "1 \<le> chunk_size"
    and "int chunk_row * chunk_size < int (nrows grid)"
    and "int chunk_col * chunk_size < int (ncols grid)"
  shows "nrows (chunk_grid_of grid chunk_size chunk_row chunk_col) =
      nat (min (int chunk_row * chunk_size + chunk_size + 1) (int (nrows grid))) - chunk_row * nat chunk_size"
    and "ncols (chunk_grid_of grid chunk_size chunk_row chunk_col) =
      nat (min (int chunk_col * chunk_size + chunk_size + 1) (int (ncols grid))) - chunk_col * nat chunk_size"
  using chunk_slice_1d(1) [OF assms(1,2)] chunk_slice_1d(1) [OF assms(1,3)]
  by (simp_all add: chunk_grid_of_def slice2_def Let_def)

lemma chunk_grid_cell:
  assumes "1 \<le> chunk_size"
    and "int chunk_row * chunk_size < int (nrows grid)"
    and "int chunk_col * chunk_size < int (ncols grid)"
    and "r < nrows (chunk_grid_of grid chunk_size chunk_row chunk_col)"
    and "c < ncols (chunk_grid_of grid chunk_size chunk_row chunk_col)"
  shows "cell (chunk_grid_of grid chunk_size chunk_row chunk_col) r c =
      cell grid (chunk_row * nat chunk_size + r) (chunk_col * nat chunk_size + c)"
  using assms(4,5) chunk_slice_1d(1) [OF assms(1,2)] chunk_slice_1d(1) [OF assms(1,3)]
  by (simp add: chunk_grid_of_def slice2_def Let_def)

lemma create_chunked_terrain_1:
  assumes "chunk_size \<noteq> 0"
  shows "create_chunked_terrain grid meta origin_lat origin_lon chunk_size 1 =
     Inr \<lparr>m_chunks_x = \<lceil>real (ncols grid) / of_int chunk_size\<rceil>,
          m_chunks_z = \<lceil>real (nrows grid) / of_int chunk_size\<rceil>,
          m_chunk_size = chunk_size, m_origin_lat = origin_lat, m_origin_lon = origin_lon,
          m_files = concat (map (\<lambda>chunk_row. map (\<lambda>chunk_col.
              build_chunk grid meta origin_lat origin_lon chunk_size (pixelSizeDeg meta)
                chunk_row chunk_col) [0..<nat \<lceil>real (ncols grid) / of_int chunk_size\<rceil>])
              [0..<nat \<lceil>real (nrows grid) / of_int chunk_size\<rceil>])\<rparr>"
  using assms by (simp add: create_chunked_terrain_def Let_def)

lemma build_chunk_fields:
  "chunk_x (build_chunk grid meta origin_lat origin_lon chunk_size pixel_size chunk_row chunk_col) = chunk_col"
  "chunk_z (build_chunk grid meta origin_lat origin_lon chunk_size pixel_size chunk_row chunk_col) = chunk_row"
  "chunk_mesh (build_chunk grid meta origin_lat origin_lon chunk_size pixel_size chunk_row chunk_col) =
     create_terrain_mesh (chunk_grid_of grid chunk_size chunk_row chunk_col)
       (chunk_meta_of grid meta pixel_size chunk_size chunk_row chunk_col) origin_lat origin_lon 1"
  by (simp_all add: build_chunk_def Let_def split: prod.split)

lemma chunk_meta_fields:
  "pixelSizeDeg (chunk_meta_of grid meta pixel_size chunk_size chunk_row chunk_col) = pixelSizeDeg meta"
  "originLat (chunk_meta_of grid meta pixel_size chunk_size chunk_row chunk_col) =
     originLat meta - of_int (int chunk_row * chunk_size) * pixel_size"
  "originLon (chunk_meta_of grid meta pixel_size chunk_size chunk_row chunk_col) =
     originLon meta + of_int (int chunk_col * chunk_size) * pixel_size"
  by (simp_all add: chunk_meta_of_def Let_def)

lemma terrain_vertex_eq:
  assumes "cell g row col = cell g' row' col'"
    and "hlon + real col * ps = hlon' + real col' * ps'"
    and "hlat - real row * ps = hlat' - real row' * ps'"
  shows "terrain_vertex g ps hlat hlon olat olon row col =
         terrain_vertex g' ps' hlat' hlon' olat olon row' col'"
  by (simp add: terrain_vertex_def assms Let_def)

lemma chunk_vertex:
  assumes "r < nrows (chunk_grid_of grid chunk_size chunk_row chunk_col)"
    and "c < ncols (chunk_grid_of grid chunk_size chunk_row chunk_col)"
  shows "vertices (chunk_mesh (build_chunk grid meta origin_lat origin_lon chunk_size pixel_size
            chunk_row chunk_col)) ! (r * ncols (chunk_grid_of grid chunk_size chunk_row chunk_col) + c) =
     terrain_vertex (chunk_grid_of grid chunk_size chunk_row chunk_col) (pixelSizeDeg meta)
       (originLat meta - of_int (int chunk_row * chunk_size) * pixel_size)
       (originLon meta + of_int (int chunk_col * chunk_size) * pixel_size)
       origin_lat origin_lon r c"
  using nth_vertices [of r "chunk_grid_of grid chunk_size chunk_row chunk_col" 1 c
      "chunk_meta_of grid meta pixel_size chunk_size chunk_row chunk_col" origin_lat origin_lon] assms
  by (simp add: build_chunk_fields chunk_meta_fields)

lemma nth_files:
  assumes "chunk_row < nz" "chunk_col < nx"
  shows "concat (map (\<lambda>chunk_row. map (\<lambda>chunk_col. f chunk_row chunk_col) [0..<nx]) [0..<nz])
           ! (chunk_row * nx + chunk_col) = f chunk_row chunk_col"
proof -
  have "concat (map (\<lambda>chunk_row. map (\<lambda>chunk_col. f chunk_row chunk_col) [0..<nx]) [0..<nz])
           ! (chunk_row * nx + chunk_col) = map (\<lambda>chunk_col. f chunk_row chunk_col) [0..<nx] ! chunk_col"
    using assms by (intro nth_concat_map_upt) simp_all
  with assms(2) show ?thesis by simp
qed

text \<open>
  With a chunk size that covers the whole grid there is one chunk. Without downsampling its
  vertices are those of the single mesh.
\<close>

lemma ceiling_one_chunk:
  assumes "1 \<le> n" "int n \<le> chunk_size"
  shows "\<lceil>real n / of_int chunk_size\<rceil> = 1"
proof (rule ceiling_unique)
  from assms have pos: "(0::real) < of_int chunk_size" by simp
  from assms show "of_int 1 - 1 < real n / real_of_int chunk_size"
    using pos by simp
  from assms have "real n \<le> real_of_int chunk_size"
    by linarith
  then show "real n / real_of_int chunk_size \<le> of_int 1"
    using pos by (simp add: pos_divide_le_eq)
qed

lemma single_chunk_without_downsampling:
  assumes h: "1 \<le> nrows grid" "int (nrows grid) \<le> chunk_size"
    and w: "1 \<le> ncols grid" "int (ncols grid) \<le> chunk_size"
  shows "\<exists>man. create_chunked_terrain grid meta origin_lat origin_lon chunk_size 1 = Inr man
     \<and> length (m_files man) = 1
     \<and> vertices (chunk_mesh (m_files man ! 0)) =
         vertices (create_terrain_mesh grid meta origin_lat origin_lon 1)"
proof -
  have cs: "1 \<le> chunk_size"
    using h by linarith
  have n1: "\<lceil>real (nrows grid) / of_int chunk_size\<rceil> = 1" "\<lceil>real (ncols grid) / of_int chunk_size\<rceil> = 1"
    using h w by (simp_all add: ceiling_one_chunk)
  have run: "create_chunked_terrain grid meta origin_lat origin_lon chunk_size 1 =
      Inr \<lparr>m_chunks_x = 1, m_chunks_z = 1, m_chunk_size = chunk_size,
           m_origin_lat = origin_lat, m_origin_lon = origin_lon,
           m_files = [build_chunk grid meta origin_lat origin_lon chunk_size (pixelSizeDeg meta) 0 0]\<rparr>"
    using cs by (simp add: create_chunked_terrain_1 n1)
  have r0: "int (0::nat) * chunk_size < int (nrows grid)" and c0: "int (0::nat) * chunk_size < int (ncols grid)"
    using h w by simp_all
  let ?cg = "chunk_grid_of grid chunk_size 0 0"
  have shape: "nrows ?cg = nrows grid" "ncols ?cg = ncols grid"
    using chunk_grid_shape [OF cs r0 c0] h w by simp_all
  have cells: "cell ?cg r c = cell grid r c" if "r < nrows grid" "c < ncols grid" for r c
    using chunk_grid_cell [OF cs r0 c0, of r c] that shape by simp
  have "vertices (create_terrain_mesh ?cg
          (chunk_meta_of grid meta (pixelSizeDeg meta) chunk_size 0 0) origin_lat origin_lon 1) =
        vertices (create_terrain_mesh grid meta origin_lat origin_lon 1)"
    unfolding create_terrain_mesh_def Let_def downsampled_1 shape
    by (auto simp: chunk_meta_fields cells intro!: arg_cong [where f = concat] terrain_vertex_eq)
  then show ?thesis
    by (simp add: run build_chunk_fields)
qed

lemma terrain_vertex_x:
  "fst (terrain_vertex g ps hlat hlon olat olon row col) =
     fst (latlon_to_local (hlat - real row * ps) (hlon + real col * ps) olat olon)"
  by (simp add: terrain_vertex_def Let_def split: prod.split)

lemma local_x_at_equator:
  "fst (latlon_to_local lat lon 0 0) = lon * (pi / 180 * EARTH_RADIUS) * METERS_TO_FEET"
  by (simp add: latlon_to_local_def radians_def Let_def)

lemma downsampled_grid13:
  "nrows (downsampled grid13 2) = 1" "ncols (downsampled grid13 2) = 2"
  by (simp_all add: downsampled_def stride_slice_def grid13_def)

lemma single_mesh_x:
  "fst (vertices (create_terrain_mesh grid13 meta0 0 0 2) ! 1) =
     2 * (pi / 180 * EARTH_RADIUS) * METERS_TO_FEET"
  using nth_vertices [of 0 grid13 2 1 meta0 0 0]
  by (simp add: downsampled_grid13 terrain_vertex_x local_x_at_equator meta0_def)

lemma chunked_files:
  "create_chunked_terrain grid13 meta0 0 0 3 2 =
     Inr \<lparr>m_chunks_x = 1, m_chunks_z = 1, m_chunk_size = 3, m_origin_lat = 0, m_origin_lon = 0,
          m_files = [build_chunk (downsampled grid13 2) meta0 0 0 3 (pixelSizeDeg meta0 * 2) 0 0]\<rparr>"
proof -
  have "\<lceil>(1::real) / 3\<rceil> = 1" "\<lceil>(2::real) / 3\<rceil> = 1"
    by (rule ceiling_unique; simp)+
  then show ?thesis
    by (simp add: create_chunked_terrain_def Let_def downsampled_grid13)
qed

lemma chunk_grid_whole:
  "nrows (chunk_grid_of (downsampled grid13 2) 3 0 0) = 1"
  "ncols (chunk_grid_of (downsampled grid13 2) 3 0 0) = 2"
  by (simp_all add: chunk_grid_of_def slice2_def slice_range_def slice_index_def Let_def
        downsampled_grid13)

lemma chunk_mesh_x:
  "fst (vertices (chunk_mesh (build_chunk (downsampled grid13 2) meta0 0 0 3 (pixelSizeDeg meta0 * 2) 0 0)) ! 1) =
     1 * (pi / 180 * EARTH_RADIUS) * METERS_TO_FEET"
  using chunk_vertex [of 0 "downsampled grid13 2" 3 0 0 1 meta0 0 0 "pixelSizeDeg meta0 * 2"]
  by (simp add: chunk_grid_whole terrain_vertex_x local_x_at_equator meta0_def)

text \<open>
  Claim C9 does not hold for a downsample factor above 1. \<^verbatim>\<open>create_chunked_terrain\<close>
  downsamples the grid and places the chunk origins with the scaled pixel size, but hands
  \<^verbatim>\<open>create_terrain_mesh\<close> the metadata with the unscaled \<^verbatim>\<open>pixelSizeDeg\<close>
  and \<^verbatim>\<open>downsample=1\<close>. For the 1 by 3 grid \<open>grid13\<close>, pixel size 1, all origins 0,
  chunk size 3 and downsample factor 2 there is one chunk; its second vertex lies one pixel
  east of the origin, while the second vertex of the single mesh built with the same factor
  lies two pixels east.
\<close>

theorem chunked_downsample_divergence:
  "\<exists>man. create_chunked_terrain grid13 meta0 0 0 3 2 = Inr man
     \<and> m_chunks_x man = 1 \<and> m_chunks_z man = 1 \<and> length (m_files man) = 1
     \<and> fst (vertices (chunk_mesh (m_files man ! 0)) ! 1) = 1 * (pi / 180 * EARTH_RADIUS) * METERS_TO_FEET
     \<and> fst (vertices (create_terrain_mesh grid13 meta0 0 0 2) ! 1) = 2 * (pi / 180 * EARTH_RADIUS) * METERS_TO_FEET
     \<and> vertices (chunk_mesh (m_files man ! 0)) \<noteq> vertices (create_terrain_mesh grid13 meta0 0 0 2)"
proof -
  have pos: "0 < (pi / 180 * EARTH_RADIUS) * METERS_TO_FEET"
    by (simp add: EARTH_RADIUS_def METERS_TO_FEET_def)
  then have ne: "1 * (pi / 180 * EARTH_RADIUS) * METERS_TO_FEET \<noteq> 2 * (pi / 180 * EARTH_RADIUS) * METERS_TO_FEET"
    by (simp add: EARTH_RADIUS_def METERS_TO_FEET_def)
  have "vertices (chunk_mesh (build_chunk (downsampled grid13 2) meta0 0 0 3 (pixelSizeDeg meta0 * 2) 0 0))
      \<noteq> vertices (create_terrain_mesh grid13 meta0 0 0 2)"
    using ne chunk_mesh_x single_mesh_x by metis
  then show ?thesis
    using chunk_mesh_x single_mesh_x by (simp add: chunked_files)
qed

section \<open>Rounding to a given precision\<close>

lemma floor_log2_eq:
  assumes "2 powr of_int e \<le> x" "x < 2 powr (of_int e + 1)"
  shows "\<lfloor>log 2 x\<rfloor> = e"
proof -
  have pos: "0 < x"
    using assms(1) by (smt (verit) powr_gt_zero)
  have "of_int e \<le> log 2 x"
    using assms(1) pos by (simp add: le_log_iff)
  moreover have "log 2 x < of_int e + 1"
    using assms(2) pos by (simp add: log_less_iff)
  ultimately show ?thesis
    by (simp add: floor_eq_iff)
qed

lemma round_to_eval:
  assumes u: "u = 2 powr of_int k"
    and lo: "2 ^ (prec - 1) * u \<le> \<bar>x\<bar>" and hi: "\<bar>x\<bar> < 2 ^ prec * u"
    and prec: "1 \<le> prec"
    and m: "py_round (x / u) = m"
  shows "round_to prec x = of_int m * u"
proof -
  have upos: "0 < u"
    by (simp add: u)
  have x0: "x \<noteq> 0"
    using lo upos by (smt (verit) mult_pos_pos zero_less_power)
  have p1: "(2::real) ^ (prec - 1) = 2 powr (real prec - 1)"
    using prec by (simp add: powr_realpow [symmetric] of_nat_diff)
  have p2: "(2::real) ^ prec = 2 powr real prec"
    by (simp add: powr_realpow)
  have "2 powr (of_int (k + int prec - 1)) \<le> \<bar>x\<bar>"
    using lo unfolding u p1 by (simp add: powr_add [symmetric] algebra_simps)
  moreover have "\<bar>x\<bar> < 2 powr (of_int (k + int prec - 1) + 1)"
    using hi unfolding u p2 by (simp add: powr_add [symmetric] algebra_simps)
  ultimately have e: "\<lfloor>log 2 \<bar>x\<bar>\<rfloor> = k + int prec - 1"
    by (rule floor_log2_eq)
  have "2 powr (of_int (k + int prec - 1) - (real prec - 1)) = u"
    by (simp add: u)
  with x0 e m show ?thesis
    by (simp add: round_to_def Let_def)
qed

lemma round_to_eval_small:
  assumes "2 ^ (prec - 1) * (1 / 2 ^ n) \<le> \<bar>x\<bar>" and "\<bar>x\<bar> < 2 ^ prec * (1 / 2 ^ n)"
    and "1 \<le> prec"
    and "py_round (x / (1 / 2 ^ n)) = m"
  shows "round_to prec x = of_int m * (1 / 2 ^ n)"
proof -
  have "(1::real) / 2 ^ n = 2 powr of_int (- int n)"
    by (simp add: powr_minus powr_realpow divide_inverse)
  from round_to_eval [OF this assms] show ?thesis .
qed

lemma round_to_eval_large:
  assumes "2 ^ (prec - 1) * 2 ^ n \<le> \<bar>x\<bar>" and "\<bar>x\<bar> < 2 ^ prec * 2 ^ n"
    and "1 \<le> prec"
    and "py_round (x / 2 ^ n) = m"
  shows "round_to prec x = of_int m * 2 ^ n"
proof -
  have "(2::real) ^ n = 2 powr of_int (int n)"
    by (simp add: powr_realpow)
  from round_to_eval [OF this assms] show ?thesis .
qed

lemma py_round_of_int [simp]: "py_round (of_int n) = n"
  by (simp add: py_round_def Let_def)

lemma py_round_range: "\<lfloor>x\<rfloor> \<le> py_round x" "py_round x \<le> \<lfloor>x\<rfloor> + 1"
  by (simp_all add: py_round_def Let_def)

lemma py_round_mono:
  assumes "x \<le> y"
  shows "py_round x \<le> py_round y"
proof (cases "\<lfloor>x\<rfloor> = \<lfloor>y\<rfloor>")
  case True
  have "x - of_int \<lfloor>x\<rfloor> \<le> y - of_int \<lfloor>y\<rfloor>"
    using assms True by simp
  then show ?thesis
    unfolding py_round_def Let_def True by auto
next
  case False
  with assms have "\<lfloor>x\<rfloor> < \<lfloor>y\<rfloor>"
    by (simp add: floor_mono le_neq_trans)
  with py_round_range(2) [of x] py_round_range(1) [of y] show ?thesis
    by linarith
qed

lemma py_round_minus: "py_round (- x) = - py_round x"
proof (cases "x = of_int \<lfloor>x\<rfloor>")
  case True
  then obtain n where "x = of_int n" ..
  then show ?thesis
    by (simp flip: of_int_minus)
next
  case False
  then have fl: "\<lfloor>- x\<rfloor> = - \<lfloor>x\<rfloor> - 1"
    by (metis Ints_of_int add.commute ceiling_altdef diff_minus_eq_add floor_minus minus_diff_eq
        of_int_floor_cancel uminus_add_conv_diff)
  have "x - of_int \<lfloor>x\<rfloor> < 1" "0 \<le> x - of_int \<lfloor>x\<rfloor>"
    by linarith+
  then show ?thesis
    unfolding py_round_def Let_def fl by (auto simp: algebra_simps)
qed

lemma round_to_0 [simp]: "round_to prec 0 = 0"
  by (simp add: round_to_def)

lemma round_to_minus: "round_to prec (- x) = - round_to prec x"
  by (simp add: round_to_def Let_def py_round_minus)

lemma log2_bounds:
  assumes "0 < x"
  shows "2 powr of_int \<lfloor>log 2 x\<rfloor> \<le> x" "x < 2 powr (of_int \<lfloor>log 2 x\<rfloor> + 1)"
proof -
  have "of_int \<lfloor>log 2 x\<rfloor> \<le> log 2 x"
    by simp
  then show "2 powr of_int \<lfloor>log 2 x\<rfloor> \<le> x"
    using assms by (simp add: powr_le_iff)
  have "log 2 x < of_int \<lfloor>log 2 x\<rfloor> + 1"
    by linarith
  then show "x < 2 powr (of_int \<lfloor>log 2 x\<rfloor> + 1)"
    using assms by (simp add: less_powr_iff)
qed

lemma round_to_pos_form:
  assumes "0 < x" "1 \<le> prec"
  shows "\<exists>n. round_to prec x = of_int n * 2 powr of_int (\<lfloor>log 2 x\<rfloor> - (int prec - 1))
           \<and> 2 ^ (prec - 1) \<le> n \<and> n \<le> 2 ^ prec"
proof -
  define e where "e = \<lfloor>log 2 x\<rfloor>"
  define u :: real where "u = 2 powr of_int (e - (int prec - 1))"
  define n where "n = py_round (x / u)"
  have upos: "0 < u" by (simp add: u_def)
  have u': "2 powr (of_int e - (real prec - 1)) = u"
    using assms(2) by (simp add: u_def)
  have rt: "round_to prec x = of_int n * u"
    using assms(1) by (simp add: round_to_def Let_def e_def [symmetric] u' n_def)
  have p1: "2 powr of_int e = 2 ^ (prec - 1) * u"
  proof -
    have "(2::real) ^ (prec - 1) = 2 powr of_int (int prec - 1)"
      using assms(2) by (simp add: powr_realpow [symmetric] of_nat_diff)
    then show ?thesis
      unfolding u_def by (simp add: powr_add [symmetric])
  qed
  have p2: "2 powr (of_int e + 1) = 2 ^ prec * u"
  proof -
    have "(2::real) ^ prec = 2 powr of_int (int prec)"
      by (simp add: powr_realpow)
    then show ?thesis
      unfolding u_def by (simp add: powr_add [symmetric])
  qed
  from log2_bounds [OF assms(1)] have "2 ^ (prec - 1) * u \<le> x" "x < 2 ^ prec * u"
    unfolding e_def [symmetric] p1 p2 by simp_all
  then have "of_int (2 ^ (prec - 1)) \<le> x / u" "x / u \<le> of_int (2 ^ prec)"
    using upos by (simp_all add: pos_le_divide_eq pos_divide_le_eq)
  then have "py_round (of_int (2 ^ (prec - 1))) \<le> n" "n \<le> py_round (of_int (2 ^ prec))"
    unfolding n_def by (simp_all only: py_round_mono)
  then have "2 ^ (prec - 1) \<le> n" "n \<le> 2 ^ prec"
    by (simp_all only: py_round_of_int)
  with rt show ?thesis
    unfolding u_def e_def by blast
qed

lemma round_to_pos_bounds:
  assumes "0 < x" "1 \<le> prec"
  shows "2 powr of_int \<lfloor>log 2 x\<rfloor> \<le> round_to prec x"
    and "round_to prec x \<le> 2 powr (of_int \<lfloor>log 2 x\<rfloor> + 1)"
proof -
  from round_to_pos_form [OF assms] obtain n
    where rt: "round_to prec x = of_int n * 2 powr of_int (\<lfloor>log 2 x\<rfloor> - (int prec - 1))"
      and n: "2 ^ (prec - 1) \<le> n" "n \<le> 2 ^ prec"
    by blast
  define u :: real where "u = 2 powr of_int (\<lfloor>log 2 x\<rfloor> - (int prec - 1))"
  have upos: "0 < u" by (simp add: u_def)
  have p1: "2 powr of_int \<lfloor>log 2 x\<rfloor> = 2 ^ (prec - 1) * u"
  proof -
    have "(2::real) ^ (prec - 1) = 2 powr of_int (int prec - 1)"
      using assms(2) by (simp add: powr_realpow [symmetric] of_nat_diff)
    then show ?thesis
      unfolding u_def by (simp add: powr_add [symmetric])
  qed
  have p2: "2 powr (of_int \<lfloor>log 2 x\<rfloor> + 1) = 2 ^ prec * u"
  proof -
    have "(2::real) ^ prec = 2 powr of_int (int prec)"
      by (simp add: powr_realpow)
    then show ?thesis
      unfolding u_def by (simp add: powr_add [symmetric])
  qed
  from n have "(2::real) ^ (prec - 1) \<le> of_int n" "real_of_int n \<le> 2 ^ prec"
    by (metis of_int_le_iff of_int_numeral of_int_power)+
  then show "2 powr of_int \<lfloor>log 2 x\<rfloor> \<le> round_to prec x"
    and "round_to prec x \<le> 2 powr (of_int \<lfloor>log 2 x\<rfloor> + 1)"
    unfolding rt p1 p2 u_def [symmetric] using upos by simp_all
qed

lemma round_to_pos: "0 < x \<Longrightarrow> 1 \<le> prec \<Longrightarrow> 0 < round_to prec x"
  using round_to_pos_bounds(1) [of x prec] by (smt (verit) powr_gt_zero)

lemma round_to_mono_pos:
  assumes "0 < x" "x \<le> y" "1 \<le> prec"
  shows "round_to prec x \<le> round_to prec y"
proof -
  have y: "0 < y" using assms by simp
  have le: "\<lfloor>log 2 x\<rfloor> \<le> \<lfloor>log 2 y\<rfloor>"
    using assms by (intro floor_mono) simp
  show ?thesis
  proof (cases "\<lfloor>log 2 x\<rfloor> = \<lfloor>log 2 y\<rfloor>")
    case True
    define u :: real where "u = 2 powr (of_int \<lfloor>log 2 y\<rfloor> - (real prec - 1))"
    have upos: "0 < u" by (simp add: u_def)
    have "x / u \<le> y / u"
      using assms(2) upos by (simp add: divide_right_mono)
    then have "py_round (x / u) \<le> py_round (y / u)"
      by (rule py_round_mono)
    then have "of_int (py_round (x / u)) * u \<le> of_int (py_round (y / u)) * u"
      using upos by simp
    then show ?thesis
      using assms(1) y True by (simp add: round_to_def Let_def u_def)
  next
    case False
    with le have "\<lfloor>log 2 x\<rfloor> + 1 \<le> \<lfloor>log 2 y\<rfloor>" by simp
    then have "of_int \<lfloor>log 2 x\<rfloor> + 1 \<le> (of_int \<lfloor>log 2 y\<rfloor> :: real)"
      by linarith
    then have "(2::real) powr (of_int \<lfloor>log 2 x\<rfloor> + 1) \<le> 2 powr of_int \<lfloor>log 2 y\<rfloor>"
      by simp
    with round_to_pos_bounds(2) [OF assms(1,3)] round_to_pos_bounds(1) [OF y assms(3)]
    show ?thesis by linarith
  qed
qed

lemma round_to_mono:
  assumes "x \<le> y" "1 \<le> prec"
  shows "round_to prec x \<le> round_to prec y"
proof -
  consider "0 < x" | "x = 0" "0 < y" | "x = 0" "y = 0" | "x < 0" "0 < y" | "x < 0" "y = 0" | "y < 0"
    using assms(1) by linarith
  then show ?thesis
  proof cases
    case 1
    then show ?thesis using assms by (rule round_to_mono_pos)
  next
    case 2
    then show ?thesis using round_to_pos [of y prec] assms(2) by simp
  next
    case 3
    then show ?thesis by simp
  next
    case 4
    then have "0 < round_to prec (- x)" "0 < round_to prec y"
      using assms(2) by (simp_all add: round_to_pos)
    then show ?thesis by (simp add: round_to_minus)
  next
    case 5
    then have "0 < round_to prec (- x)"
      using assms(2) by (simp add: round_to_pos)
    with 5 show ?thesis by (simp add: round_to_minus)
  next
    case 6
    then have "round_to prec (- y) \<le> round_to prec (- x)"
      using assms by (intro round_to_mono_pos) simp_all
    then show ?thesis by (simp add: round_to_minus)
  qed
qed

lemma round_to_exact:
  assumes "0 < x" "x / 2 powr (of_int \<lfloor>log 2 x\<rfloor> - (real prec - 1)) = of_int n"
  shows "round_to prec x = x"
proof -
  define u :: real where "u = 2 powr (of_int \<lfloor>log 2 x\<rfloor> - (real prec - 1))"
  have "0 < u" by (simp add: u_def)
  with assms(2) have "of_int n * u = x"
    unfolding u_def [symmetric] by (simp add: field_simps)
  then have "of_int n * 2 powr (of_int \<lfloor>log 2 x\<rfloor> - (real prec - 1)) = x"
    by (simp add: u_def)
  with assms show ?thesis
    by (simp add: round_to_def Let_def)
qed

lemma round_to_representable_pos:
  assumes prec: "1 \<le> prec" and m: "0 < m" "m \<le> 2 ^ prec"
  shows "round_to prec (of_int m * 2 powr of_int k) = of_int m * 2 powr of_int k"
proof -
  define x :: real where "x = of_int m * 2 powr of_int k"
  define j where "j = \<lfloor>log 2 (of_int m)\<rfloor>"
  have mpos: "(0::real) < of_int m" using m(1) by simp
  have xpos: "0 < x" using mpos by (simp add: x_def)
  have "log 2 x = log 2 (of_int m) + of_int k"
    using mpos by (simp add: x_def log_mult)
  then have e: "\<lfloor>log 2 x\<rfloor> = j + k"
    by (simp add: j_def)
  have mle: "real_of_int m \<le> 2 ^ prec"
    using m(2) by (metis of_int_le_iff of_int_numeral of_int_power)
  have jb: "2 powr of_int j \<le> real_of_int m" "real_of_int m < 2 powr (of_int j + 1)"
    using log2_bounds [OF mpos] by (simp_all add: j_def)
  have quot: "x / 2 powr (of_int \<lfloor>log 2 x\<rfloor> - (real prec - 1)) =
      of_int m * 2 powr of_int (int prec - 1 - j)"
  proof -
    have "x / 2 powr (of_int (j + k) - (real prec - 1)) =
        of_int m * (2 powr of_int k / 2 powr (of_int (j + k) - (real prec - 1)))"
      by (simp add: x_def)
    also have "2 powr of_int k / 2 powr (of_int (j + k) - (real prec - 1)) =
        (2::real) powr (of_int k - (of_int (j + k) - (real prec - 1)))"
      by (simp only: powr_diff)
    also have "of_int k - (of_int (j + k) - (real prec - 1)) = real_of_int (int prec - 1 - j)"
      using prec by simp
    finally show ?thesis
      unfolding e .
  qed
  have "\<exists>n. of_int m * 2 powr of_int (int prec - 1 - j) = real_of_int n"
  proof (cases "j \<le> int prec - 1")
    case True
    then have "2 powr of_int (int prec - 1 - j) = (2::real) ^ nat (int prec - 1 - j)"
      by (simp add: powr_realpow [symmetric])
    then have "of_int m * 2 powr of_int (int prec - 1 - j) = real_of_int (m * 2 ^ nat (int prec - 1 - j))"
      by simp
    then show ?thesis ..
  next
    case False
    then have "int prec \<le> j" by simp
    then have "(2::real) powr of_int (int prec) \<le> 2 powr of_int j"
      by simp
    moreover have "(2::real) powr of_int (int prec) = 2 ^ prec"
      by (simp add: powr_realpow)
    ultimately have "(2::real) ^ prec \<le> of_int m"
      using jb(1) by linarith
    with mle have meq: "real_of_int m = 2 ^ prec" by simp
    then have "log 2 (of_int m) = real prec"
      by (simp add: log_nat_power)
    then have "j = int prec"
      by (simp add: j_def)
    then have "of_int m * 2 powr of_int (int prec - 1 - j) = (2::real) ^ prec * 2 powr (- 1)"
      using meq by simp
    also have "\<dots> = 2 ^ (prec - 1)"
      using prec by (cases prec) (simp_all add: powr_minus)
    also have "\<dots> = real_of_int (2 ^ (prec - 1))"
      by simp
    finally show ?thesis ..
  qed
  then obtain n where "x / 2 powr (of_int \<lfloor>log 2 x\<rfloor> - (real prec - 1)) = of_int n"
    unfolding quot ..
  with xpos have "round_to prec x = x"
    by (rule round_to_exact)
  then show ?thesis
    by (simp add: x_def)
qed

lemma round_to_representable:
  assumes "1 \<le> prec" "\<bar>m\<bar> \<le> 2 ^ prec"
  shows "round_to prec (of_int m * 2 powr of_int k) = of_int m * 2 powr of_int k"
proof -
  consider "0 < m" | "m = 0" | "m < 0" by linarith
  then show ?thesis
  proof cases
    case 1
    with assms show ?thesis by (intro round_to_representable_pos) simp_all
  next
    case 2
    then show ?thesis by simp
  next
    case 3
    with assms have "round_to prec (of_int (- m) * 2 powr of_int k) = of_int (- m) * 2 powr of_int k"
      by (intro round_to_representable_pos) simp_all
    then show ?thesis
      using round_to_minus [of prec "of_int m * 2 powr of_int k"] by simp
  qed
qed

lemma round_to_of_int:
  assumes "1 \<le> prec" "\<bar>m\<bar> \<le> 2 ^ prec"
  shows "round_to prec (of_int m) = of_int m"
  using round_to_representable [OF assms, of 0] by simp

lemma round_to_idem:
  assumes "1 \<le> prec"
  shows "round_to prec (round_to prec x) = round_to prec x"
proof -
  have pos: "round_to prec (round_to prec x) = round_to prec x" if "0 < x" for x
  proof -
    from round_to_pos_form [OF that assms] obtain n
      where rt: "round_to prec x = of_int n * 2 powr of_int (\<lfloor>log 2 x\<rfloor> - (int prec - 1))"
        and n: "2 ^ (prec - 1) \<le> n" "n \<le> 2 ^ prec"
      by blast
    have "0 \<le> n"
      using n(1) by (smt (verit) zero_le_power)
    with n(2) have "\<bar>n\<bar> \<le> 2 ^ prec" by simp
    from round_to_representable [OF assms this] show ?thesis
      unfolding rt .
  qed
  consider "0 < x" | "x = 0" | "x < 0" by linarith
  then show ?thesis
  proof cases
    case 1
    then show ?thesis by (rule pos)
  next
    case 2
    then show ?thesis by simp
  next
    case 3
    then have "round_to prec (round_to prec (- x)) = round_to prec (- x)"
      by (intro pos) simp
    then show ?thesis
      by (simp add: round_to_minus)
  qed
qed

lemma py_round_lower: "x - 1 / 2 \<le> of_int (py_round x)"
proof -
  have "x - of_int \<lfloor>x\<rfloor> < 1" "0 \<le> x - of_int \<lfloor>x\<rfloor>"
    by linarith+
  then show ?thesis
    unfolding py_round_def Let_def by (auto simp: algebra_simps)
qed

lemma round_to_lower:
  assumes "0 < x" "1 \<le> prec"
  shows "x - x / 2 ^ prec \<le> round_to prec x"
proof -
  define e where "e = \<lfloor>log 2 x\<rfloor>"
  define u :: real where "u = 2 powr of_int (e - (int prec - 1))"
  have upos: "0 < u" by (simp add: u_def)
  have u': "2 powr (of_int e - (real prec - 1)) = u"
    using assms(2) by (simp add: u_def)
  have rt: "round_to prec x = of_int (py_round (x / u)) * u"
    using assms(1) by (simp add: round_to_def Let_def e_def [symmetric] u')
  have p1: "2 powr of_int e = 2 ^ (prec - 1) * u"
  proof -
    have "(2::real) ^ (prec - 1) = 2 powr of_int (int prec - 1)"
      using assms(2) by (simp add: powr_realpow [symmetric] of_nat_diff)
    then show ?thesis
      unfolding u_def by (simp add: powr_add [symmetric])
  qed
  from log2_bounds(1) [OF assms(1)] have "2 ^ (prec - 1) * u \<le> x"
    unfolding e_def [symmetric] p1 .
  moreover have "(2::real) ^ prec = 2 * 2 ^ (prec - 1)"
    using assms(2) by (cases prec) simp_all
  ultimately have "2 ^ prec * u \<le> 2 * x"
    by simp
  then have half: "u / 2 \<le> x / 2 ^ prec"
    by (simp add: field_simps)
  from py_round_lower [of "x / u"] upos
  have "(x / u - 1 / 2) * u \<le> of_int (py_round (x / u)) * u"
    by (simp only: mult_le_cancel_right) simp
  moreover have "(x / u - 1 / 2) * u = x - u / 2"
    using upos by (simp add: field_simps)
  ultimately have "x - u / 2 \<le> round_to prec x"
    unfolding rt by simp
  with half show ?thesis by linarith
qed

section \<open>Facts about binary64 rounding\<close>

lemma fl64_0 [simp]: "fl64 0 = 0"
  by (simp add: fl64_def)

lemma fl64_mono: "x \<le> y \<Longrightarrow> fl64 x \<le> fl64 y"
  unfolding fl64_def by (rule round_to_mono) simp_all

lemma fl64_nonneg: "0 \<le> x \<Longrightarrow> 0 \<le> fl64 x"
  using fl64_mono [of 0 x] by simp

lemma fl64_idem [simp]: "fl64 (fl64 x) = fl64 x"
  unfolding fl64_def by (rule round_to_idem) simp

lemma fl64_minus: "fl64 (- x) = - fl64 x"
  unfolding fl64_def by (rule round_to_minus)

lemma fl64_of_int: "\<bar>m\<bar> \<le> 2 ^ 53 \<Longrightarrow> fl64 (of_int m) = of_int m"
  unfolding fl64_def by (rule round_to_of_int) simp_all

lemma fl64_ge: "fl64 a = a \<Longrightarrow> a \<le> x \<Longrightarrow> a \<le> fl64 x"
  using fl64_mono [of a x] by simp

lemma fl64_le: "fl64 a = a \<Longrightarrow> x \<le> a \<Longrightarrow> fl64 x \<le> a"
  using fl64_mono [of x a] by simp

text \<open>The literal 0.1 and the values computed from it for a tile of three columns.\<close>

lemma fl64_tenth:
  "fl64 (1 / 10) = 3602879701896397 / 36028797018963968"
proof -
  have "round_to 53 (1 / 10) = of_int 7205759403792794 * (1 / 2 ^ 56)"
  proof (rule round_to_eval_small)
    show "py_round (1 / 10 / (1 / 2 ^ 56)) = 7205759403792794"
      by (simp add: py_round_def Let_def)
  qed simp_all
  then show ?thesis
    by (simp add: fl64_def)
qed

lemma fl64_three_tenths_num:
  "fl64 (3 * (3602879701896397 / 36028797018963968)) = 1351079888211149 / 4503599627370496"
proof -
  have "round_to 53 (3 * (3602879701896397 / 36028797018963968)) = of_int 5404319552844596 * (1 / 2 ^ 54)"
  proof (rule round_to_eval_small)
    show "py_round (3 * (3602879701896397 / 36028797018963968) / (1 / 2 ^ 54)) = 5404319552844596"
      by (simp add: py_round_def Let_def)
  qed simp_all
  then show ?thesis
    by (simp add: fl64_def)
qed

lemma fl64_quotient_three_num:
  "fl64 (1351079888211149 / 4503599627370496 / (3602879701896397 / 36028797018963968)) = 6755399441055745 / 2251799813685248"
proof -
  have "round_to 53 (1351079888211149 / 4503599627370496 / (3602879701896397 / 36028797018963968)) = of_int 6755399441055745 * (1 / 2 ^ 51)"
  proof (rule round_to_eval_small)
    show "py_round (1351079888211149 / 4503599627370496 / (3602879701896397 / 36028797018963968) / (1 / 2 ^ 51)) = 6755399441055745"
      by (simp add: py_round_def Let_def)
  qed simp_all
  then show ?thesis
    by (simp add: fl64_def)
qed

lemma fl64_three_tenths:
  "fl64 (3 * fl64 (1 / 10)) = 1351079888211149 / 4503599627370496"
  by (simp only: fl64_tenth fl64_three_tenths_num)

lemma fl64_quotient_three:
  "fl64 (fl64 (3 * fl64 (1 / 10)) / fl64 (1 / 10)) = 6755399441055745 / 2251799813685248"
  by (simp only: fl64_tenth fl64_three_tenths_num fl64_quotient_three_num)

lemma fl64_1 [simp]: "fl64 1 = 1"
  using fl64_of_int [of 1] by simp

lemma fl64_2 [simp]: "fl64 2 = 2"
  using fl64_of_int [of 2] by simp

lemma fl64_3 [simp]: "fl64 3 = 3"
  using fl64_of_int [of 3] by simp

lemma ceiling_fl64_div:
  assumes cs: "1 \<le> chunk_size" and n: "int n < 2 ^ 53"
  shows "\<lceil>fl64 (real n / of_int chunk_size)\<rceil> = \<lceil>real n / of_int chunk_size\<rceil>"
proof (cases "n = 0")
  case True
  then show ?thesis by simp
next
  case False
  define q where "q = real n / real_of_int chunk_size"
  define c where "c = \<lceil>q\<rceil>"
  have cpos: "(0::real) < of_int chunk_size" using cs by simp
  have qpos: "0 < q"
    unfolding q_def using False cpos by simp
  have qn: "q \<le> real n"
    unfolding q_def using cs by (simp add: pos_divide_le_eq mult_le_cancel_left1)
  have c1: "of_int c - 1 < q" and c2: "q \<le> of_int c"
    unfolding c_def by linarith+
  have "0 < c"
    unfolding c_def using qpos by simp
  moreover have "c \<le> int n"
    unfolding c_def using qn by (simp add: ceiling_le_iff)
  ultimately have cb: "\<bar>c\<bar> \<le> 2 ^ 53"
    using n by linarith
  have upper: "fl64 q \<le> of_int c"
    using fl64_of_int [OF cb] c2 by (intro fl64_le)
  have "real_of_int (c - 1) * of_int chunk_size < real n"
    using c1 cpos unfolding q_def by (simp add: pos_less_divide_eq)
  then have "real_of_int ((c - 1) * chunk_size) < real_of_int (int n)"
    by simp
  then have "(c - 1) * chunk_size < int n"
    by (simp only: of_int_less_iff)
  then have "(c - 1) * chunk_size + 1 \<le> int n"
    by simp
  then have "real_of_int ((c - 1) * chunk_size + 1) \<le> real_of_int (int n)"
    by (simp only: of_int_le_iff)
  then have "(of_int c - 1) * of_int chunk_size + 1 \<le> real n"
    by simp
  then have "((of_int c - 1) * of_int chunk_size + 1) / of_int chunk_size \<le> real n / of_int chunk_size"
    using cpos by (intro divide_right_mono) simp_all
  moreover have "((real_of_int c - 1) * of_int chunk_size + 1) / of_int chunk_size =
      of_int c - 1 + 1 / of_int chunk_size"
    using cpos by (simp add: field_simps)
  ultimately have gap: "of_int c - 1 + 1 / of_int chunk_size \<le> q"
    unfolding q_def by simp
  have "real n < 2 ^ 53"
    using n by (metis of_int_less_iff of_int_of_nat_eq of_int_numeral of_int_power)
  then have "q / 2 ^ 53 < 1 / of_int chunk_size"
    unfolding q_def using cpos by (simp add: field_simps)
  moreover have "q - q / 2 ^ 53 \<le> fl64 q"
    unfolding fl64_def using qpos by (intro round_to_lower) simp_all
  ultimately have lower: "of_int c - 1 < fl64 q"
    using gap by linarith
  from lower upper have "\<lceil>fl64 q\<rceil> = c"
    by (intro ceiling_unique) simp_all
  then show ?thesis
    unfolding c_def q_def .
qed

section \<open>A single tile in binary64\<close>

lemma tile13_bounds:
  "tile_bounds_f64 tile13 = (0, - fl64 (1 / 10), fl64 (3 * fl64 (1 / 10)), 0)"
  by (simp add: tile_bounds_f64_def tile13_def fl64_minus)

lemma tile13_size:
  "grid_size_f64 [tile13] (0, - fl64 (1 / 10), fl64 (3 * fl64 (1 / 10)), 0) = Inr (1, 4)"
proof -
  have nz: "fl64 (1 / 10) \<noteq> 0"
    by (simp add: fl64_tenth)
  have "\<lceil>(6755399441055745::real) / 2251799813685248\<rceil> = 4"
    by (rule ceiling_unique) simp_all
  with nz show ?thesis
    by (simp add: grid_size_f64_def tile13_def fl64_quotient_three)
qed

lemma own_bounds_f64:
  assumes sl: "0 < t_scale_lon t" and sa: "0 < t_scale_lat t"
    and lon: "fl64 (t_origin_lon t) = t_origin_lon t"
    and lat: "fl64 (t_origin_lat t) = t_origin_lat t"
  shows "\<exists>min_lat max_lon. tile_bounds_f64 t = (t_origin_lon t, min_lat, max_lon, t_origin_lat t)
      \<and> min_lat \<le> t_origin_lat t \<and> t_origin_lon t \<le> max_lon"
proof -
  have "0 \<le> fl64 (real (ncols (t_data t)) * t_scale_lon t)"
    using sl by (intro fl64_nonneg) simp
  then have a: "t_origin_lon t \<le> fl64 (t_origin_lon t + fl64 (real (ncols (t_data t)) * t_scale_lon t))"
    using lon by (intro fl64_ge) simp_all
  have "0 \<le> fl64 (real (nrows (t_data t)) * t_scale_lat t)"
    using sa by (intro fl64_nonneg) simp
  then have b: "fl64 (t_origin_lat t - fl64 (real (nrows (t_data t)) * t_scale_lat t)) \<le> t_origin_lat t"
    using lat by (intro fl64_le) simp_all
  show ?thesis
    using a b by (simp add: tile_bounds_f64_def Let_def)
qed

lemma own_clip_f64:
  assumes sl: "0 < t_scale_lon t" and sa: "0 < t_scale_lat t"
    and b: "tile_bounds_f64 t = (t_origin_lon t, min_lat, max_lon, t_origin_lat t)"
    and le: "min_lat \<le> t_origin_lat t" "t_origin_lon t \<le> max_lon"
  shows "\<not> tile_skipped_f64 (tile_bounds_f64 t) t"
    and "origin_col_of_f64 (tile_bounds_f64 t) (t_scale_lon t) t = 0"
    and "origin_row_of_f64 (tile_bounds_f64 t) (t_scale_lat t) t = 0"
    and "grid_size_f64 [t] (tile_bounds_f64 t) =
      Inr (\<lceil>fl64 (fl64 (t_origin_lat t - min_lat) / t_scale_lat t)\<rceil>,
           \<lceil>fl64 (fl64 (max_lon - t_origin_lon t) / t_scale_lon t)\<rceil>)"
    and "0 \<le> \<lceil>fl64 (fl64 (t_origin_lat t - min_lat) / t_scale_lat t)\<rceil>"
    and "0 \<le> \<lceil>fl64 (fl64 (max_lon - t_origin_lon t) / t_scale_lon t)\<rceil>"
proof -
  show "\<not> tile_skipped_f64 (tile_bounds_f64 t) t"
    using le by (simp add: tile_skipped_f64_def b)
  show "origin_col_of_f64 (tile_bounds_f64 t) (t_scale_lon t) t = 0"
    by (simp add: origin_col_of_f64_def b py_round_def)
  show "origin_row_of_f64 (tile_bounds_f64 t) (t_scale_lat t) t = 0"
    by (simp add: origin_row_of_f64_def b py_round_def)
  show "grid_size_f64 [t] (tile_bounds_f64 t) =
      Inr (\<lceil>fl64 (fl64 (t_origin_lat t - min_lat) / t_scale_lat t)\<rceil>,
           \<lceil>fl64 (fl64 (max_lon - t_origin_lon t) / t_scale_lon t)\<rceil>)"
    using sl sa by (simp add: grid_size_f64_def b)
  have "0 \<le> fl64 (t_origin_lat t - min_lat)" "0 \<le> fl64 (max_lon - t_origin_lon t)"
    using le by (simp_all add: fl64_nonneg)
  then have "0 \<le> fl64 (fl64 (t_origin_lat t - min_lat) / t_scale_lat t)"
    "0 \<le> fl64 (fl64 (max_lon - t_origin_lon t) / t_scale_lon t)"
    using sl sa by (simp_all add: fl64_nonneg)
  then show "0 \<le> \<lceil>fl64 (fl64 (t_origin_lat t - min_lat) / t_scale_lat t)\<rceil>"
    and "0 \<le> \<lceil>fl64 (fl64 (max_lon - t_origin_lon t) / t_scale_lon t)\<rceil>"
    by (simp_all add: ceiling_le_iff le_ceiling_iff)
qed

lemma slice_range_prefix:
  assumes "0 \<le> stop" "nat stop \<le> n"
  shows "slice_range n 0 stop = (0, nat stop)"
  using assms by (simp add: slice_range_def slice_index_def)

lemma copy_at_origin:
  assumes H: "0 \<le> H" and W: "0 \<le> W"
  shows "set_slice2 (mk_array (nat H) (nat W) (\<lambda>r c. NaN)) 0 (min H (int (nrows a))) 0 (min W (int (ncols a)))
           (slice2 a 0 (min H (int (nrows a))) 0 (min W (int (ncols a)))) =
         Inr (mk_array (nat H) (nat W)
           (\<lambda>r c. if r < nrows a \<and> c < ncols a then cell a r c else NaN))"
proof -
  define rh where "rh = min H (int (nrows a))"
  define cw where "cw = min W (int (ncols a))"
  have nn: "0 \<le> rh" "0 \<le> cw"
    using H W by (simp_all add: rh_def cw_def)
  have le: "nat rh \<le> nrows a" "nat cw \<le> ncols a" "nat rh \<le> nat H" "nat cw \<le> nat W"
    by (simp_all add: rh_def cw_def)
  have src: "slice2 a 0 rh 0 cw = mk_array (nat rh) (nat cw) (\<lambda>r c. cell a r c)"
    by (simp add: slice2_def slice_range_prefix [OF nn(1) le(1)] slice_range_prefix [OF nn(2) le(2)])
  have eq: "mk_array (nat H) (nat W)
      (\<lambda>r c. if 0 \<le> r \<and> r < nat rh \<and> 0 \<le> c \<and> c < nat cw
              then cell (mk_array (nat rh) (nat cw) (\<lambda>r c. cell a r c))
                     (if nat rh = 1 then 0 else r - 0) (if nat cw = 1 then 0 else c - 0)
              else cell (mk_array (nat H) (nat W) (\<lambda>r c. NaN)) r c) =
    mk_array (nat H) (nat W) (\<lambda>r c. if r < nrows a \<and> c < ncols a then cell a r c else NaN)"
  proof (rule mk_array_cong)
    fix r c assume rc: "r < nat H" "c < nat W"
    have iff: "r < nat rh \<longleftrightarrow> r < nrows a" "c < nat cw \<longleftrightarrow> c < ncols a"
      using rc by (auto simp: rh_def cw_def)
    show "(if 0 \<le> r \<and> r < nat rh \<and> 0 \<le> c \<and> c < nat cw
              then cell (mk_array (nat rh) (nat cw) (\<lambda>r c. cell a r c))
                     (if nat rh = 1 then 0 else r - 0) (if nat cw = 1 then 0 else c - 0)
              else cell (mk_array (nat H) (nat W) (\<lambda>r c. NaN)) r c) =
          (if r < nrows a \<and> c < ncols a then cell a r c else NaN)"
    proof (cases "r < nat rh \<and> c < nat cw")
      case True
      then have "(if nat rh = 1 then 0 else r - 0) = r" "(if nat cw = 1 then 0 else c - 0) = c"
        by auto
      with True iff show ?thesis by simp
    next
      case False
      with iff rc show ?thesis by auto
    qed
  qed
  show ?thesis
    unfolding rh_def [symmetric] cw_def [symmetric] src
    using eq by (simp add: set_slice2_def slice_range_prefix [OF nn(1) le(3)]
        slice_range_prefix [OF nn(2) le(4)] Let_def)
qed

lemma own_composite_f64:
  assumes sl: "0 < t_scale_lon t" and sa: "0 < t_scale_lat t"
    and lon: "fl64 (t_origin_lon t) = t_origin_lon t"
    and lat: "fl64 (t_origin_lat t) = t_origin_lat t"
  shows "\<exists>height width. grid_size_f64 [t] (tile_bounds_f64 t) = Inr (height, width)
      \<and> 0 \<le> height \<and> 0 \<le> width
      \<and> composite_f64 [t] (tile_bounds_f64 t) =
          Inr (mk_array (nat height) (nat width)
            (\<lambda>r c. if r < nrows (t_data t) \<and> c < ncols (t_data t) then cell (t_data t) r c else NaN))"
proof -
  from own_bounds_f64 [OF sl sa lon lat] obtain min_lat max_lon
    where b: "tile_bounds_f64 t = (t_origin_lon t, min_lat, max_lon, t_origin_lat t)"
      and le: "min_lat \<le> t_origin_lat t" "t_origin_lon t \<le> max_lon"
    by blast
  note own = own_clip_f64 [OF sl sa b le]
  define height where "height = \<lceil>fl64 (fl64 (t_origin_lat t - min_lat) / t_scale_lat t)\<rceil>"
  define width where "width = \<lceil>fl64 (fl64 (max_lon - t_origin_lon t) / t_scale_lon t)\<rceil>"
  have gs: "grid_size_f64 [t] (tile_bounds_f64 t) = Inr (height, width)"
    and nn: "0 \<le> height" "0 \<le> width"
    using own(4-6) by (simp_all add: height_def width_def)
  have pl: "tile_placement_f64 height width (tile_bounds_f64 t) (t_scale_lon t) (t_scale_lat t) t =
      Some ((0, min height (int (nrows (t_data t))), 0, min width (int (ncols (t_data t)))),
            (0, min height (int (nrows (t_data t))), 0, min width (int (ncols (t_data t)))))"
    using own(1-3) by (simp add: tile_placement_f64_def Let_def)
  have comp: "composite_f64 [t] (tile_bounds_f64 t) =
      Inr (mk_array (nat height) (nat width)
        (\<lambda>r c. if r < nrows (t_data t) \<and> c < ncols (t_data t) then cell (t_data t) r c else NaN))"
    using nn by (simp add: composite_f64_def gs composite_tile_f64_def pl copy_at_origin)
  from gs nn comp show ?thesis
    by blast
qed

lemma exact_extent_size:
  assumes sl: "0 < t_scale_lon t" and sa: "0 < t_scale_lat t"
    and h: "int (nrows (t_data t)) \<le> 2 ^ 53" and w: "int (ncols (t_data t)) \<le> 2 ^ 53"
    and ew: "fl64 (real (ncols (t_data t)) * t_scale_lon t) = real (ncols (t_data t)) * t_scale_lon t"
    and eh: "fl64 (real (nrows (t_data t)) * t_scale_lat t) = real (nrows (t_data t)) * t_scale_lat t"
    and emax: "fl64 (t_origin_lon t + real (ncols (t_data t)) * t_scale_lon t) =
        t_origin_lon t + real (ncols (t_data t)) * t_scale_lon t"
    and emin: "fl64 (t_origin_lat t - real (nrows (t_data t)) * t_scale_lat t) =
        t_origin_lat t - real (nrows (t_data t)) * t_scale_lat t"
  shows "grid_size_f64 [t] (tile_bounds_f64 t) = Inr (int (nrows (t_data t)), int (ncols (t_data t)))"
proof -
  have b: "tile_bounds_f64 t = (t_origin_lon t, t_origin_lat t - real (nrows (t_data t)) * t_scale_lat t,
      t_origin_lon t + real (ncols (t_data t)) * t_scale_lon t, t_origin_lat t)"
    by (simp add: tile_bounds_f64_def Let_def ew eh emax emin)
  have n: "fl64 (real k) = real k" if "int k \<le> 2 ^ 53" for k
    using fl64_of_int [of "int k"] that by simp
  have "fl64 (fl64 (real (ncols (t_data t)) * t_scale_lon t) / t_scale_lon t) = real (ncols (t_data t))"
    using sl by (simp add: ew n [OF w])
  moreover have "fl64 (fl64 (real (nrows (t_data t)) * t_scale_lat t) / t_scale_lat t) = real (nrows (t_data t))"
    using sa by (simp add: eh n [OF h])
  ultimately show ?thesis
    using sl sa by (simp add: grid_size_f64_def b)
qed

lemma same_shape_identity:
  assumes wf: "wf_array a" and nn: "0 \<le> height" "0 \<le> width"
  shows "mk_array (nat height) (nat width)
           (\<lambda>r c. if r < nrows a \<and> c < ncols a then cell a r c else NaN) = a
     \<longleftrightarrow> height = int (nrows a) \<and> width = int (ncols a)"
proof
  assume "mk_array (nat height) (nat width)
           (\<lambda>r c. if r < nrows a \<and> c < ncols a then cell a r c else NaN) = a"
  then have "nrows (mk_array (nat height) (nat width)
           (\<lambda>r c. if r < nrows a \<and> c < ncols a then cell a r c else NaN)) = nrows a"
    and "ncols (mk_array (nat height) (nat width)
           (\<lambda>r c. if r < nrows a \<and> c < ncols a then cell a r c else NaN)) = ncols a"
    by simp_all
  then have "int (nat height) = int (nrows a)" "int (nat width) = int (ncols a)"
    by simp_all
  then show "height = int (nrows a) \<and> width = int (ncols a)"
    using nn by simp
next
  assume eq: "height = int (nrows a) \<and> width = int (ncols a)"
  have "mk_array (nrows a) (ncols a) (\<lambda>r c. if r < nrows a \<and> c < ncols a then cell a r c else NaN) =
      mk_array (nrows a) (ncols a) (cell a)"
    by (rule mk_array_cong) simp
  then show "mk_array (nat height) (nat width)
           (\<lambda>r c. if r < nrows a \<and> c < ncols a then cell a r c else NaN) = a"
    using eq mk_array_cells [OF wf] by simp
qed

text \<open>
  Claim C6, as amended. Let a single tile have a rectangular array, positive pixel sizes and
  origin coordinates that are binary64 numbers. Compositing it with its own bounding box as
  clip bounds returns a grid of the height and width that the code computes for these bounds,
  with every sample of the tile at its own position (as far as the grid reaches) and NaN in
  every cell outside the tile's shape. The result is the tile's array exactly when the
  computed height and width are the tile's; this is so whenever the products
  \<open>width * scale_lon\<close> and \<open>height * scale_lat\<close> and the sum and difference with the origin
  are exact in binary64 and the tile has at most \<open>2 ^ 53\<close> rows and columns. It is not so for
  every tile: when \<open>origin_lon + width * scale_lon\<close> is rounded upwards, the width
  \<^verbatim>\<open>ceil((max_lon - min_lon) / scale_lon)\<close> exceeds the width of the tile.
\<close>

theorem single_tile_composite:
  assumes wf: "wf_array (t_data t)"
    and sl: "0 < t_scale_lon t" and sa: "0 < t_scale_lat t"
    and lon: "fl64 (t_origin_lon t) = t_origin_lon t"
    and lat: "fl64 (t_origin_lat t) = t_origin_lat t"
  shows "\<exists>height width. grid_size_f64 [t] (tile_bounds_f64 t) = Inr (height, width)
      \<and> 0 \<le> height \<and> 0 \<le> width
      \<and> composite_f64 [t] (tile_bounds_f64 t) =
          Inr (mk_array (nat height) (nat width)
            (\<lambda>r c. if r < nrows (t_data t) \<and> c < ncols (t_data t) then cell (t_data t) r c else NaN))
      \<and> (composite_f64 [t] (tile_bounds_f64 t) = Inr (t_data t)
           \<longleftrightarrow> height = int (nrows (t_data t)) \<and> width = int (ncols (t_data t)))
      \<and> (int (nrows (t_data t)) \<le> 2 ^ 53 \<and> int (ncols (t_data t)) \<le> 2 ^ 53
         \<and> fl64 (real (ncols (t_data t)) * t_scale_lon t) = real (ncols (t_data t)) * t_scale_lon t
         \<and> fl64 (real (nrows (t_data t)) * t_scale_lat t) = real (nrows (t_data t)) * t_scale_lat t
         \<and> fl64 (t_origin_lon t + real (ncols (t_data t)) * t_scale_lon t) =
             t_origin_lon t + real (ncols (t_data t)) * t_scale_lon t
         \<and> fl64 (t_origin_lat t - real (nrows (t_data t)) * t_scale_lat t) =
             t_origin_lat t - real (nrows (t_data t)) * t_scale_lat t
         \<longrightarrow> composite_f64 [t] (tile_bounds_f64 t) = Inr (t_data t))"
proof -
  from own_composite_f64 [OF sl sa lon lat] obtain height width
    where gs: "grid_size_f64 [t] (tile_bounds_f64 t) = Inr (height, width)"
      and nn: "0 \<le> height" "0 \<le> width"
      and comp: "composite_f64 [t] (tile_bounds_f64 t) =
          Inr (mk_array (nat height) (nat width)
            (\<lambda>r c. if r < nrows (t_data t) \<and> c < ncols (t_data t) then cell (t_data t) r c else NaN))"
    by blast
  have same: "composite_f64 [t] (tile_bounds_f64 t) = Inr (t_data t)
      \<longleftrightarrow> height = int (nrows (t_data t)) \<and> width = int (ncols (t_data t))"
    unfolding comp using same_shape_identity [OF wf nn] by simp
  have exact: "composite_f64 [t] (tile_bounds_f64 t) = Inr (t_data t)"
    if "int (nrows (t_data t)) \<le> 2 ^ 53 \<and> int (ncols (t_data t)) \<le> 2 ^ 53
         \<and> fl64 (real (ncols (t_data t)) * t_scale_lon t) = real (ncols (t_data t)) * t_scale_lon t
         \<and> fl64 (real (nrows (t_data t)) * t_scale_lat t) = real (nrows (t_data t)) * t_scale_lat t
         \<and> fl64 (t_origin_lon t + real (ncols (t_data t)) * t_scale_lon t) =
             t_origin_lon t + real (ncols (t_data t)) * t_scale_lon t
         \<and> fl64 (t_origin_lat t - real (nrows (t_data t)) * t_scale_lat t) =
             t_origin_lat t - real (nrows (t_data t)) * t_scale_lat t"
  proof -
    from that have "grid_size_f64 [t] (tile_bounds_f64 t) =
        Inr (int (nrows (t_data t)), int (ncols (t_data t)))"
      by (intro exact_extent_size [OF sl sa]) simp_all
    with gs have "height = int (nrows (t_data t)) \<and> width = int (ncols (t_data t))"
      by simp
    with same show ?thesis by simp
  qed
  from gs nn comp same exact show ?thesis
    by blast
qed

theorem single_tile_composite_witness:
  "wf_array (t_data tileA) \<and> 0 < t_scale_lon tileA \<and> 0 < t_scale_lat tileA
   \<and> fl64 (t_origin_lon tileA) = t_origin_lon tileA \<and> fl64 (t_origin_lat tileA) = t_origin_lat tileA
   \<and> grid_size_f64 [tileA] (tile_bounds_f64 tileA) = Inr (2, 2)
   \<and> composite_f64 [tileA] (tile_bounds_f64 tileA) =
       Inr \<lparr>nrows = 2, ncols = 2, cells = [[Val 1, Val 2], [Val 3, Val 4]]\<rparr>"
proof -
  have wf: "wf_array (t_data tileA)" and sl: "0 < t_scale_lon tileA" and sa: "0 < t_scale_lat tileA"
    and lon: "fl64 (t_origin_lon tileA) = t_origin_lon tileA"
    and lat: "fl64 (t_origin_lat tileA) = t_origin_lat tileA"
    by (simp_all add: tileA_def tile22_def wf_array_def)
  have b: "tile_bounds_f64 tileA = (0, - 1, 2, 1)"
    using fl64_minus [of 1] by (simp add: tile_bounds_f64_def tileA_def tile22_def)
  have size: "grid_size_f64 [tileA] (tile_bounds_f64 tileA) = Inr (2, 2)"
    unfolding b by (simp add: grid_size_f64_def tileA_def tile22_def)
  from single_tile_composite [OF wf sl sa lon lat] obtain height width
    where gs: "grid_size_f64 [tileA] (tile_bounds_f64 tileA) = Inr (height, width)"
      and same: "composite_f64 [tileA] (tile_bounds_f64 tileA) = Inr (t_data tileA)
          \<longleftrightarrow> height = int (nrows (t_data tileA)) \<and> width = int (ncols (t_data tileA))"
    by blast
  from gs size have "height = 2" "width = 2"
    by simp_all
  with same have "composite_f64 [tileA] (tile_bounds_f64 tileA) = Inr (t_data tileA)"
    by (simp add: tileA_def tile22_def)
  with wf sl sa lon lat size show ?thesis
    by (simp add: tileA_def tile22_def)
qed

lemma tile13_composite:
  "composite_f64 [tile13] (tile_bounds_f64 tile13) =
     Inr \<lparr>nrows = 1, ncols = 4, cells = [[Val 1, Val 2, Val 3, NaN]]\<rparr>"
proof -
  have pos: "0 < t_scale_lon tile13" "0 < t_scale_lat tile13"
    by (simp_all add: tile13_def fl64_tenth)
  have rep: "fl64 (t_origin_lon tile13) = t_origin_lon tile13"
    "fl64 (t_origin_lat tile13) = t_origin_lat tile13"
    by (simp_all add: tile13_def)
  from own_composite_f64 [OF pos rep] obtain height width
    where "grid_size_f64 [tile13] (tile_bounds_f64 tile13) = Inr (height, width)"
      and comp: "composite_f64 [tile13] (tile_bounds_f64 tile13) =
          Inr (mk_array (nat height) (nat width)
            (\<lambda>r c. if r < nrows (t_data tile13) \<and> c < ncols (t_data tile13)
                    then cell (t_data tile13) r c else NaN))"
    by blast
  then have "height = 1" "width = 4"
    using tile13_size by (simp_all add: tile13_bounds)
  then show ?thesis
    unfolding comp by (simp add: mk_array_def tile13_def cell_def upt_rec)
qed

text \<open>
  The claim as stated gives the tile's own dimensions for every tile. For the 1 by 3 tile at
  origin \<open>(0, 0)\<close> with a pixel size of 0.1 degrees, \<open>max_lon\<close> is the binary64 product
  \<open>3 * 0.1 = 0.30000000000000004\<close>, the width is \<open>ceil (3.0000000000000004) = 4\<close>, and the
  result is the row 1, 2, 3, NaN.
\<close>

theorem single_tile_roundtrip_counterexample:
  "tile_bounds_f64 tile13 =
     (0, - (3602879701896397 / 36028797018963968), 1351079888211149 / 4503599627370496, 0)
   \<and> grid_size_f64 [tile13] (tile_bounds_f64 tile13) = Inr (1, 4)
   \<and> composite_f64 [tile13] (tile_bounds_f64 tile13) =
       Inr \<lparr>nrows = 1, ncols = 4, cells = [[Val 1, Val 2, Val 3, NaN]]\<rparr>
   \<and> composite_f64 [tile13] (tile_bounds_f64 tile13) \<noteq> Inr (t_data tile13)"
proof -
  have b: "tile_bounds_f64 tile13 =
     (0, - (3602879701896397 / 36028797018963968), 1351079888211149 / 4503599627370496, 0)"
    unfolding tile13_bounds by (simp only: fl64_tenth fl64_three_tenths_num)
  have s: "grid_size_f64 [tile13] (tile_bounds_f64 tile13) = Inr (1, 4)"
    using tile13_size by (simp add: tile13_bounds)
  have ne: "composite_f64 [tile13] (tile_bounds_f64 tile13) \<noteq> Inr (t_data tile13)"
    unfolding tile13_composite by (simp add: tile13_def)
  show ?thesis
    by (intro conjI b s tile13_composite ne)
qed

section \<open>Chunk seams in binary64\<close>

lemma length_vertices_f64:
  "length (vertices (create_terrain_mesh_f64 grid0 meta olat olon d)) =
     nrows (downsampled grid0 d) * ncols (downsampled grid0 d)"
  unfolding create_terrain_mesh_f64_def Let_def
  by (simp add: length_concat_map_upt)

lemma nth_vertices_f64:
  assumes "r < nrows (downsampled grid0 d)" "c < ncols (downsampled grid0 d)"
  shows "vertices (create_terrain_mesh_f64 grid0 meta olat olon d) ! (r * ncols (downsampled grid0 d) + c) =
     terrain_vertex_f64 (downsampled grid0 d) (fl64 (pixelSizeDeg meta * of_int d)) (originLat meta)
       (originLon meta) olat olon r c"
proof -
  let ?g = "downsampled grid0 d"
  let ?f = "\<lambda>row. map (\<lambda>col. terrain_vertex_f64 ?g (fl64 (pixelSizeDeg meta * of_int d))
      (originLat meta) (originLon meta) olat olon row col) [0..<ncols ?g]"
  have "concat (map ?f [0..<nrows ?g]) ! (r * ncols ?g + c) = ?f r ! c"
    using assms by (intro nth_concat_map_upt) simp_all
  with assms show ?thesis
    unfolding create_terrain_mesh_f64_def Let_def by simp
qed

lemma create_chunked_terrain_f64_1:
  assumes "chunk_size \<noteq> 0"
  shows "create_chunked_terrain_f64 grid meta origin_lat origin_lon chunk_size 1 =
     Inr \<lparr>m_chunks_x = \<lceil>fl64 (real (ncols grid) / of_int chunk_size)\<rceil>,
          m_chunks_z = \<lceil>fl64 (real (nrows grid) / of_int chunk_size)\<rceil>,
          m_chunk_size = chunk_size, m_origin_lat = origin_lat, m_origin_lon = origin_lon,
          m_files = concat (map (\<lambda>chunk_row. map (\<lambda>chunk_col.
              build_chunk_f64 grid meta origin_lat origin_lon chunk_size (fl64 (pixelSizeDeg meta))
                chunk_row chunk_col) [0..<nat \<lceil>fl64 (real (ncols grid) / of_int chunk_size)\<rceil>])
              [0..<nat \<lceil>fl64 (real (nrows grid) / of_int chunk_size)\<rceil>])\<rparr>"
  using assms by (simp add: create_chunked_terrain_f64_def Let_def)

lemma build_chunk_f64_fields:
  "chunk_x (build_chunk_f64 grid meta origin_lat origin_lon chunk_size pixel_size chunk_row chunk_col) = chunk_col"
  "chunk_z (build_chunk_f64 grid meta origin_lat origin_lon chunk_size pixel_size chunk_row chunk_col) = chunk_row"
  "chunk_mesh (build_chunk_f64 grid meta origin_lat origin_lon chunk_size pixel_size chunk_row chunk_col) =
     create_terrain_mesh_f64 (chunk_grid_of grid chunk_size chunk_row chunk_col)
       (chunk_meta_of_f64 grid meta pixel_size chunk_size chunk_row chunk_col) origin_lat origin_lon 1"
  by (simp_all add: build_chunk_f64_def Let_def split: prod.split)

lemma chunk_meta_f64_fields:
  "pixelSizeDeg (chunk_meta_of_f64 grid meta pixel_size chunk_size chunk_row chunk_col) = pixelSizeDeg meta"
  "originLat (chunk_meta_of_f64 grid meta pixel_size chunk_size chunk_row chunk_col) =
     fl64 (originLat meta - fl64 (of_int (int chunk_row * chunk_size) * pixel_size))"
  "originLon (chunk_meta_of_f64 grid meta pixel_size chunk_size chunk_row chunk_col) =
     fl64 (originLon meta + fl64 (of_int (int chunk_col * chunk_size) * pixel_size))"
  by (simp_all add: chunk_meta_of_f64_def Let_def)

lemma chunk_vertex_f64:
  assumes "r < nrows (chunk_grid_of grid chunk_size chunk_row chunk_col)"
    and "c < ncols (chunk_grid_of grid chunk_size chunk_row chunk_col)"
  shows "vertices (chunk_mesh (build_chunk_f64 grid meta origin_lat origin_lon chunk_size pixel_size
            chunk_row chunk_col)) ! (r * ncols (chunk_grid_of grid chunk_size chunk_row chunk_col) + c) =
     terrain_vertex_f64 (chunk_grid_of grid chunk_size chunk_row chunk_col) (fl64 (pixelSizeDeg meta))
       (fl64 (originLat meta - fl64 (of_int (int chunk_row * chunk_size) * pixel_size)))
       (fl64 (originLon meta + fl64 (of_int (int chunk_col * chunk_size) * pixel_size)))
       origin_lat origin_lon r c"
  using nth_vertices_f64 [of r "chunk_grid_of grid chunk_size chunk_row chunk_col" 1 c
      "chunk_meta_of_f64 grid meta pixel_size chunk_size chunk_row chunk_col" origin_lat origin_lon] assms
  by (simp add: build_chunk_f64_fields chunk_meta_f64_fields)

lemma terrain_vertex_f64_parts:
  "fst (terrain_vertex_f64 g ps hlat hlon olat olon row col) =
     fl32 (fst (latlon_to_local_f64 (fl64 (hlat - fl64 (real row * ps)))
       (fl64 (hlon + fl64 (real col * ps))) olat olon))"
  "fst (snd (terrain_vertex_f64 g ps hlat hlon olat olon row col)) =
     fst (snd (terrain_vertex g ps hlat hlon olat olon row col))"
  "snd (snd (terrain_vertex_f64 g ps hlat hlon olat olon row col)) =
     fl32 (snd (latlon_to_local_f64 (fl64 (hlat - fl64 (real row * ps)))
       (fl64 (hlon + fl64 (real col * ps))) olat olon))"
  by (simp_all add: terrain_vertex_f64_def terrain_vertex_def Let_def split: prod.split)

lemma latlon_to_local_f64_snd:
  "snd (latlon_to_local_f64 lat lon olat olon) = snd (latlon_to_local_f64 lat lon' olat olon)"
  by (simp add: latlon_to_local_f64_def Let_def)

lemma terrain_vertex_f64_eq:
  assumes "cell g row col = cell g' row' col'"
    and "fl64 (hlon + fl64 (real col * ps)) = fl64 (hlon' + fl64 (real col' * ps'))"
    and "fl64 (hlat - fl64 (real row * ps)) = fl64 (hlat' - fl64 (real row' * ps'))"
  shows "terrain_vertex_f64 g ps hlat hlon olat olon row col =
         terrain_vertex_f64 g' ps' hlat' hlon' olat olon row' col'"
  by (simp add: terrain_vertex_f64_def assms Let_def)

lemma terrain_vertex_f64_snd_eq:
  assumes "cell g row col = cell g' row' col'"
    and "fl64 (hlat - fl64 (real row * ps)) = fl64 (hlat' - fl64 (real row' * ps'))"
  shows "snd (terrain_vertex_f64 g ps hlat hlon olat olon row col) =
         snd (terrain_vertex_f64 g' ps' hlat' hlon' olat olon row' col')"
  by (simp add: terrain_vertex_f64_def latlon_to_local_f64_def assms Let_def)

lemma first_seam_lon:
  assumes "1 \<le> chunk_size" "fl64 (originLon meta) = originLon meta"
  shows "seam_lon_left meta chunk_size 0 = seam_lon_right meta chunk_size 0"
  using assms by (simp add: seam_lon_left_def seam_lon_right_def)

lemma seam_shape:
  assumes cs: "1 \<le> chunk_size"
    and row: "int chunk_row * chunk_size < int (nrows grid)"
    and col: "int (chunk_col + 1) * chunk_size < int (ncols grid)"
  shows "nrows (chunk_grid_of grid chunk_size chunk_row (chunk_col + 1)) =
           nrows (chunk_grid_of grid chunk_size chunk_row chunk_col)"
    and "nat chunk_size < ncols (chunk_grid_of grid chunk_size chunk_row chunk_col)"
    and "0 < ncols (chunk_grid_of grid chunk_size chunk_row (chunk_col + 1))"
    and "r < nrows (chunk_grid_of grid chunk_size chunk_row chunk_col) \<Longrightarrow>
         cell (chunk_grid_of grid chunk_size chunk_row chunk_col) r (nat chunk_size) =
         cell (chunk_grid_of grid chunk_size chunk_row (chunk_col + 1)) r 0"
proof -
  have col0: "int chunk_col * chunk_size < int (ncols grid)"
  proof -
    have "int chunk_col * chunk_size \<le> int (chunk_col + 1) * chunk_size"
      using cs by (simp add: algebra_simps)
    with col show ?thesis by linarith
  qed
  note shape_a = chunk_grid_shape [OF cs row col0]
  note shape_b = chunk_grid_shape [OF cs row col]
  show rows: "nrows (chunk_grid_of grid chunk_size chunk_row (chunk_col + 1)) =
           nrows (chunk_grid_of grid chunk_size chunk_row chunk_col)"
    by (simp only: shape_a(1) shape_b(1))
  have k: "nat (int chunk_col * chunk_size) = chunk_col * nat chunk_size"
    using cs by (simp add: nat_mult_distrib)
  have nn: "0 \<le> int chunk_col * chunk_size"
    using cs by simp
  have lt: "int chunk_col * chunk_size + chunk_size < min (int chunk_col * chunk_size + chunk_size + 1) (int (ncols grid))"
    using col by (simp add: algebra_simps)
  with nn cs have "0 < min (int chunk_col * chunk_size + chunk_size + 1) (int (ncols grid))"
    by linarith
  then have "nat (int chunk_col * chunk_size + chunk_size) < nat (min (int chunk_col * chunk_size + chunk_size + 1) (int (ncols grid)))"
    using lt by (simp only: nat_mono_iff)
  moreover have "nat (int chunk_col * chunk_size + chunk_size) = chunk_col * nat chunk_size + nat chunk_size"
    using cs k nn by (simp add: nat_add_distrib)
  ultimately show wide: "nat chunk_size < ncols (chunk_grid_of grid chunk_size chunk_row chunk_col)"
    unfolding shape_a(2) by linarith
  show pos: "0 < ncols (chunk_grid_of grid chunk_size chunk_row (chunk_col + 1))"
    unfolding shape_b(2) using chunk_slice_1d(2) [OF cs col] by simp
  show "cell (chunk_grid_of grid chunk_size chunk_row chunk_col) r (nat chunk_size) =
      cell (chunk_grid_of grid chunk_size chunk_row (chunk_col + 1)) r 0"
    if r: "r < nrows (chunk_grid_of grid chunk_size chunk_row chunk_col)"
  proof -
    have r': "r < nrows (chunk_grid_of grid chunk_size chunk_row (chunk_col + 1))"
      using r rows by simp
    show ?thesis
      unfolding chunk_grid_cell [OF cs row col0 r wide] chunk_grid_cell [OF cs row col r' pos]
      by (simp add: algebra_simps)
  qed
qed

lemma seam_vertex_f64:
  assumes cs: "1 \<le> chunk_size"
    and row: "int chunk_row * chunk_size < int (nrows grid)"
    and col: "int (chunk_col + 1) * chunk_size < int (ncols grid)"
    and r: "r < nrows (chunk_grid_of grid chunk_size chunk_row chunk_col)"
    and va: "va = vertices (chunk_mesh (build_chunk_f64 grid meta origin_lat origin_lon chunk_size
            (fl64 (pixelSizeDeg meta)) chunk_row chunk_col))
           ! (r * ncols (chunk_grid_of grid chunk_size chunk_row chunk_col) + nat chunk_size)"
    and vb: "vb = vertices (chunk_mesh (build_chunk_f64 grid meta origin_lat origin_lon chunk_size
            (fl64 (pixelSizeDeg meta)) chunk_row (chunk_col + 1)))
           ! (r * ncols (chunk_grid_of grid chunk_size chunk_row (chunk_col + 1)) + 0)"
  shows "snd va = snd vb"
    and "seam_lon_left meta chunk_size chunk_col = seam_lon_right meta chunk_size chunk_col \<Longrightarrow> va = vb"
proof -
  note sh = seam_shape [OF cs row col]
  have r': "r < nrows (chunk_grid_of grid chunk_size chunk_row (chunk_col + 1))"
    using r sh(1) by simp
  note cells = sh(4) [OF r]
  have va': "va = terrain_vertex_f64 (chunk_grid_of grid chunk_size chunk_row chunk_col) (fl64 (pixelSizeDeg meta))
       (fl64 (originLat meta - fl64 (of_int (int chunk_row * chunk_size) * fl64 (pixelSizeDeg meta))))
       (fl64 (originLon meta + fl64 (of_int (int chunk_col * chunk_size) * fl64 (pixelSizeDeg meta))))
       origin_lat origin_lon r (nat chunk_size)"
    unfolding va by (rule chunk_vertex_f64 [OF r sh(2)])
  have vb': "vb = terrain_vertex_f64 (chunk_grid_of grid chunk_size chunk_row (chunk_col + 1)) (fl64 (pixelSizeDeg meta))
       (fl64 (originLat meta - fl64 (of_int (int chunk_row * chunk_size) * fl64 (pixelSizeDeg meta))))
       (fl64 (originLon meta + fl64 (of_int (int (chunk_col + 1) * chunk_size) * fl64 (pixelSizeDeg meta))))
       origin_lat origin_lon r 0"
    unfolding vb by (rule chunk_vertex_f64 [OF r' sh(3)])
  show "snd va = snd vb"
    unfolding va' vb' using cells by (intro terrain_vertex_f64_snd_eq) simp_all
  show "va = vb" if "seam_lon_left meta chunk_size chunk_col = seam_lon_right meta chunk_size chunk_col"
    unfolding va' vb' using cells that
    by (intro terrain_vertex_f64_eq) (simp_all add: seam_lon_left_def seam_lon_right_def)
qed

text \<open>
  Claim C5, as amended. Without downsampling, for a chunk size of at least 1 and a grid with
  fewer than \<open>2 ^ 53\<close> rows and columns, \<^verbatim>\<open>create_chunked_terrain\<close> returns a manifest
  with \<open>chunks_x = ceil (W / chunk_size)\<close> and \<open>chunks_z = ceil (H / chunk_size)\<close> (the
  binary64 quotient has the ceiling of the exact one), its files in row-major chunk order; the
  mesh of chunk \<open>(chunk_col, chunk_row)\<close> is built from the sub-grid of the rows from
  \<open>chunk_row * chunk_size\<close> up to, not including,
  \<open>min (chunk_row * chunk_size + chunk_size + 1) H\<close> and the analogous columns. For two
  horizontally adjacent chunks the vertex of the overlap column of the left chunk (local
  column \<open>chunk_size\<close>) and the vertex of the same row in local column 0 of the right chunk
  have the same Y and the same Z. They have the same X as well whenever the two chunks
  compute the same binary64 longitude for the boundary column, which is always so between the
  chunk columns 0 and 1 when \<open>originLon\<close> is a binary64 number. Further to the right it need
  not be so: the left chunk computes
  \<open>(originLon + chunk_col * chunk_size * p) + chunk_size * p\<close> and the right chunk
  \<open>originLon + (chunk_col + 1) * chunk_size * p\<close>, each operation rounded.
\<close>

theorem chunk_seams:
  assumes cs: "1 \<le> chunk_size"
    and H: "H = nrows grid" and W: "W = ncols grid"
    and Hb: "int H < 2 ^ 53" and Wb: "int W < 2 ^ 53"
    and nx: "nx = nat \<lceil>real W / of_int chunk_size\<rceil>"
    and nz: "nz = nat \<lceil>real H / of_int chunk_size\<rceil>"
    and lon: "fl64 (originLon meta) = originLon meta"
  shows "\<exists>man. create_chunked_terrain_f64 grid meta origin_lat origin_lon chunk_size 1 = Inr man
     \<and> m_chunks_x man = \<lceil>real W / of_int chunk_size\<rceil>
     \<and> m_chunks_z man = \<lceil>real H / of_int chunk_size\<rceil>
     \<and> length (m_files man) = nz * nx
     \<and> (\<forall>chunk_row<nz. \<forall>chunk_col<nx.
           chunk_x (m_files man ! (chunk_row * nx + chunk_col)) = chunk_col
         \<and> chunk_z (m_files man ! (chunk_row * nx + chunk_col)) = chunk_row
         \<and> chunk_mesh (m_files man ! (chunk_row * nx + chunk_col)) =
             create_terrain_mesh_f64 (chunk_grid_of grid chunk_size chunk_row chunk_col)
               (chunk_meta_of_f64 grid meta (fl64 (pixelSizeDeg meta)) chunk_size chunk_row chunk_col)
               origin_lat origin_lon 1
         \<and> nrows (chunk_grid_of grid chunk_size chunk_row chunk_col) =
             nat (min (int chunk_row * chunk_size + chunk_size + 1) (int H)) - chunk_row * nat chunk_size
         \<and> ncols (chunk_grid_of grid chunk_size chunk_row chunk_col) =
             nat (min (int chunk_col * chunk_size + chunk_size + 1) (int W)) - chunk_col * nat chunk_size
         \<and> (\<forall>r<nrows (chunk_grid_of grid chunk_size chunk_row chunk_col).
              \<forall>c<ncols (chunk_grid_of grid chunk_size chunk_row chunk_col).
                cell (chunk_grid_of grid chunk_size chunk_row chunk_col) r c =
                cell grid (chunk_row * nat chunk_size + r) (chunk_col * nat chunk_size + c)))
     \<and> (\<forall>chunk_row<nz. \<forall>chunk_col. chunk_col + 1 < nx \<longrightarrow>
           nat chunk_size < ncols (chunk_grid_of grid chunk_size chunk_row chunk_col)
         \<and> nrows (chunk_grid_of grid chunk_size chunk_row (chunk_col + 1)) =
             nrows (chunk_grid_of grid chunk_size chunk_row chunk_col)
         \<and> (\<forall>r<nrows (chunk_grid_of grid chunk_size chunk_row chunk_col).
               snd (vertices (chunk_mesh (m_files man ! (chunk_row * nx + chunk_col)))
                 ! (r * ncols (chunk_grid_of grid chunk_size chunk_row chunk_col) + nat chunk_size)) =
               snd (vertices (chunk_mesh (m_files man ! (chunk_row * nx + (chunk_col + 1))))
                 ! (r * ncols (chunk_grid_of grid chunk_size chunk_row (chunk_col + 1)) + 0))
             \<and> (seam_lon_left meta chunk_size chunk_col = seam_lon_right meta chunk_size chunk_col
                  \<or> chunk_col = 0 \<longrightarrow>
               vertices (chunk_mesh (m_files man ! (chunk_row * nx + chunk_col)))
                 ! (r * ncols (chunk_grid_of grid chunk_size chunk_row chunk_col) + nat chunk_size) =
               vertices (chunk_mesh (m_files man ! (chunk_row * nx + (chunk_col + 1))))
                 ! (r * ncols (chunk_grid_of grid chunk_size chunk_row (chunk_col + 1)) + 0))))"
proof -
  define files where "files = concat (map (\<lambda>chunk_row. map (\<lambda>chunk_col.
      build_chunk_f64 grid meta origin_lat origin_lon chunk_size (fl64 (pixelSizeDeg meta))
        chunk_row chunk_col) [0..<nx]) [0..<nz])"
  define man where "man = \<lparr>m_chunks_x = \<lceil>real W / of_int chunk_size\<rceil>,
      m_chunks_z = \<lceil>real H / of_int chunk_size\<rceil>,
      m_chunk_size = chunk_size, m_origin_lat = origin_lat, m_origin_lon = origin_lon,
      m_files = files\<rparr>"
  have cx: "\<lceil>fl64 (real (ncols grid) / of_int chunk_size)\<rceil> = \<lceil>real (ncols grid) / of_int chunk_size\<rceil>"
    using Wb unfolding W by (rule ceiling_fl64_div [OF cs])
  have cz: "\<lceil>fl64 (real (nrows grid) / of_int chunk_size)\<rceil> = \<lceil>real (nrows grid) / of_int chunk_size\<rceil>"
    using Hb unfolding H by (rule ceiling_fl64_div [OF cs])
  have run: "create_chunked_terrain_f64 grid meta origin_lat origin_lon chunk_size 1 = Inr man"
    using cs by (simp add: create_chunked_terrain_f64_1 cx cz man_def files_def H W nx nz)
  have mf: "m_files man = files"
    by (simp add: man_def)
  have len: "length files = nz * nx"
    unfolding files_def by (rule length_concat_map_upt) simp
  have nth: "files ! (chunk_row * nx + chunk_col) =
      build_chunk_f64 grid meta origin_lat origin_lon chunk_size (fl64 (pixelSizeDeg meta)) chunk_row chunk_col"
    if "chunk_row < nz" "chunk_col < nx" for chunk_row chunk_col
    unfolding files_def using that by (rule nth_files)
  have row_ok: "int chunk_row * chunk_size < int (nrows grid)" if "chunk_row < nz" for chunk_row
    using cs that unfolding nz H by (rule chunk_start_in_range)
  have col_ok: "int chunk_col * chunk_size < int (ncols grid)" if "chunk_col < nx" for chunk_col
    using cs that unfolding nx W by (rule chunk_start_in_range)
  have per_chunk: "chunk_x (files ! (chunk_row * nx + chunk_col)) = chunk_col
         \<and> chunk_z (files ! (chunk_row * nx + chunk_col)) = chunk_row
         \<and> chunk_mesh (files ! (chunk_row * nx + chunk_col)) =
             create_terrain_mesh_f64 (chunk_grid_of grid chunk_size chunk_row chunk_col)
               (chunk_meta_of_f64 grid meta (fl64 (pixelSizeDeg meta)) chunk_size chunk_row chunk_col)
               origin_lat origin_lon 1
         \<and> nrows (chunk_grid_of grid chunk_size chunk_row chunk_col) =
             nat (min (int chunk_row * chunk_size + chunk_size + 1) (int H)) - chunk_row * nat chunk_size
         \<and> ncols (chunk_grid_of grid chunk_size chunk_row chunk_col) =
             nat (min (int chunk_col * chunk_size + chunk_size + 1) (int W)) - chunk_col * nat chunk_size
         \<and> (\<forall>r<nrows (chunk_grid_of grid chunk_size chunk_row chunk_col).
              \<forall>c<ncols (chunk_grid_of grid chunk_size chunk_row chunk_col).
                cell (chunk_grid_of grid chunk_size chunk_row chunk_col) r c =
                cell grid (chunk_row * nat chunk_size + r) (chunk_col * nat chunk_size + c))"
    if "chunk_row < nz" "chunk_col < nx" for chunk_row chunk_col
  proof -
    note ok = row_ok [OF that(1)] col_ok [OF that(2)]
    show ?thesis
      unfolding nth [OF that] build_chunk_f64_fields H W
      using chunk_grid_shape [OF cs ok] chunk_grid_cell [OF cs ok] by simp
  qed
  have seam: "nat chunk_size < ncols (chunk_grid_of grid chunk_size chunk_row chunk_col)
         \<and> nrows (chunk_grid_of grid chunk_size chunk_row (chunk_col + 1)) =
             nrows (chunk_grid_of grid chunk_size chunk_row chunk_col)
         \<and> (\<forall>r<nrows (chunk_grid_of grid chunk_size chunk_row chunk_col).
               snd (vertices (chunk_mesh (files ! (chunk_row * nx + chunk_col)))
                 ! (r * ncols (chunk_grid_of grid chunk_size chunk_row chunk_col) + nat chunk_size)) =
               snd (vertices (chunk_mesh (files ! (chunk_row * nx + (chunk_col + 1))))
                 ! (r * ncols (chunk_grid_of grid chunk_size chunk_row (chunk_col + 1)) + 0))
             \<and> (seam_lon_left meta chunk_size chunk_col = seam_lon_right meta chunk_size chunk_col
                  \<or> chunk_col = 0 \<longrightarrow>
               vertices (chunk_mesh (files ! (chunk_row * nx + chunk_col)))
                 ! (r * ncols (chunk_grid_of grid chunk_size chunk_row chunk_col) + nat chunk_size) =
               vertices (chunk_mesh (files ! (chunk_row * nx + (chunk_col + 1))))
                 ! (r * ncols (chunk_grid_of grid chunk_size chunk_row (chunk_col + 1)) + 0)))"
    if "chunk_row < nz" "chunk_col + 1 < nx" for chunk_row chunk_col
  proof -
    from that(2) have c0: "chunk_col < nx" by simp
    note row = row_ok [OF that(1)] and col = col_ok [OF that(2)]
    note sh = seam_shape [OF cs row col]
    have eq: "seam_lon_left meta chunk_size chunk_col = seam_lon_right meta chunk_size chunk_col"
      if "seam_lon_left meta chunk_size chunk_col = seam_lon_right meta chunk_size chunk_col \<or> chunk_col = 0"
      using that first_seam_lon [OF cs lon] by auto
    show ?thesis
      unfolding nth [OF that(1) c0] nth [OF that]
      using sh(1,2) seam_vertex_f64 [OF cs row col _ refl refl] eq by blast
  qed
  show ?thesis
    using run mf len per_chunk seam
    by (intro exI [of _ man] conjI) (simp_all add: man_def)
qed

theorem chunk_seams_witness:
  "(1::int) \<le> 2 \<and> int (nrows grid33) < 2 ^ 53 \<and> int (ncols grid33) < 2 ^ 53
   \<and> fl64 (originLon meta0) = originLon meta0
   \<and> (\<exists>man. create_chunked_terrain_f64 grid33 meta0 0 0 2 1 = Inr man
        \<and> m_chunks_x man = 2 \<and> m_chunks_z man = 2 \<and> length (m_files man) = 4
        \<and> ncols (chunk_grid_of grid33 2 0 0) = 3 \<and> ncols (chunk_grid_of grid33 2 0 1) = 1
        \<and> vertices (chunk_mesh (m_files man ! 0)) ! 2 = vertices (chunk_mesh (m_files man ! 1)) ! 0)"
proof -
  have cs: "(1::int) \<le> 2" by simp
  have H: "3 = nrows grid33" and W: "3 = ncols grid33"
    by (simp_all add: grid33_def)
  have b: "int 3 < 2 ^ 53"
    by simp
  have n: "2 = nat \<lceil>real 3 / of_int 2\<rceil>"
    by simp
  have lon: "fl64 (originLon meta0) = originLon meta0"
    by (simp add: meta0_def)
  from chunk_seams [OF cs H W b b n n lon, of 0 0]
  obtain man where all: "create_chunked_terrain_f64 grid33 meta0 0 0 2 1 = Inr man
       \<and> m_chunks_x man = \<lceil>real 3 / of_int 2\<rceil>
       \<and> m_chunks_z man = \<lceil>real 3 / of_int 2\<rceil>
       \<and> length (m_files man) = 2 * 2
       \<and> (\<forall>chunk_row<2. \<forall>chunk_col<2.
             chunk_x (m_files man ! (chunk_row * 2 + chunk_col)) = chunk_col
           \<and> chunk_z (m_files man ! (chunk_row * 2 + chunk_col)) = chunk_row
           \<and> chunk_mesh (m_files man ! (chunk_row * 2 + chunk_col)) =
               create_terrain_mesh_f64 (chunk_grid_of grid33 2 chunk_row chunk_col)
                 (chunk_meta_of_f64 grid33 meta0 (fl64 (pixelSizeDeg meta0)) 2 chunk_row chunk_col)
                 0 0 1
           \<and> nrows (chunk_grid_of grid33 2 chunk_row chunk_col) =
               nat (min (int chunk_row * 2 + 2 + 1) (int 3)) - chunk_row * nat 2
           \<and> ncols (chunk_grid_of grid33 2 chunk_row chunk_col) =
               nat (min (int chunk_col * 2 + 2 + 1) (int 3)) - chunk_col * nat 2
           \<and> (\<forall>r<nrows (chunk_grid_of grid33 2 chunk_row chunk_col).
                \<forall>c<ncols (chunk_grid_of grid33 2 chunk_row chunk_col).
                  cell (chunk_grid_of grid33 2 chunk_row chunk_col) r c =
                  cell grid33 (chunk_row * nat 2 + r) (chunk_col * nat 2 + c)))
       \<and> (\<forall>chunk_row<2. \<forall>chunk_col. chunk_col + 1 < 2 \<longrightarrow>
             nat 2 < ncols (chunk_grid_of grid33 2 chunk_row chunk_col)
           \<and> nrows (chunk_grid_of grid33 2 chunk_row (chunk_col + 1)) =
               nrows (chunk_grid_of grid33 2 chunk_row chunk_col)
           \<and> (\<forall>r<nrows (chunk_grid_of grid33 2 chunk_row chunk_col).
                 snd (vertices (chunk_mesh (m_files man ! (chunk_row * 2 + chunk_col)))
                   ! (r * ncols (chunk_grid_of grid33 2 chunk_row chunk_col) + nat 2)) =
                 snd (vertices (chunk_mesh (m_files man ! (chunk_row * 2 + (chunk_col + 1))))
                   ! (r * ncols (chunk_grid_of grid33 2 chunk_row (chunk_col + 1)) + 0))
               \<and> (seam_lon_left meta0 2 chunk_col = seam_lon_right meta0 2 chunk_col
                    \<or> chunk_col = 0 \<longrightarrow>
                 vertices (chunk_mesh (m_files man ! (chunk_row * 2 + chunk_col)))
                   ! (r * ncols (chunk_grid_of grid33 2 chunk_row chunk_col) + nat 2) =
                 vertices (chunk_mesh (m_files man ! (chunk_row * 2 + (chunk_col + 1))))
                   ! (r * ncols (chunk_grid_of grid33 2 chunk_row (chunk_col + 1)) + 0))))" ..
  note run = all [THEN conjunct1]
    and cx = all [THEN conjunct2, THEN conjunct1]
    and cz = all [THEN conjunct2, THEN conjunct2, THEN conjunct1]
    and len = all [THEN conjunct2, THEN conjunct2, THEN conjunct2, THEN conjunct1]
    and per = all [THEN conjunct2, THEN conjunct2, THEN conjunct2, THEN conjunct2, THEN conjunct1,
        rule_format]
    and seam = all [THEN conjunct2, THEN conjunct2, THEN conjunct2, THEN conjunct2, THEN conjunct2,
        rule_format]
  have two: "(0::nat) < 2" "(1::nat) < 2" "(0::nat) + 1 < 2" by simp_all
  note p00 = per [OF two(1) two(1)] and p01 = per [OF two(1) two(2)]
  from p00 have h00: "nrows (chunk_grid_of grid33 2 0 0) = 3"
    and w00: "ncols (chunk_grid_of grid33 2 0 0) = 3"
    by simp_all
  from p01 have w01: "ncols (chunk_grid_of grid33 2 0 1) = 1"
    by simp
  have r0: "0 < nrows (chunk_grid_of grid33 2 0 0)"
    by (simp add: h00)
  note s0 = seam [OF two(1) two(3), THEN conjunct2, THEN conjunct2, rule_format, OF r0,
      THEN conjunct2, rule_format, OF disjI2 [OF refl]]
  then have v: "vertices (chunk_mesh (m_files man ! 0)) ! 2 = vertices (chunk_mesh (m_files man ! 1)) ! 0"
    by (simp add: w00 w01 numeral_2_eq_2)
  have "m_chunks_x man = 2" "m_chunks_z man = 2" "length (m_files man) = 4"
    using cx cz len by simp_all
  moreover have "int (nrows grid33) < 2 ^ 53" "int (ncols grid33) < 2 ^ 53"
    by (simp_all add: grid33_def)
  ultimately show ?thesis
    using run v w00 w01 lon
    by (intro conjI exI [of _ man]) simp_all
qed

lemma fl64_one_plus_tenth_num:
  "fl64 (1 + 3602879701896397 / 36028797018963968) = 2476979795053773 / 2251799813685248"
proof -
  have "round_to 53 (1 + 3602879701896397 / 36028797018963968) = of_int 4953959590107546 * (1 / 2 ^ 52)"
  proof (rule round_to_eval_small)
    show "py_round ((1 + 3602879701896397 / 36028797018963968) / (1 / 2 ^ 52)) = 4953959590107546"
      by (simp add: py_round_def Let_def)
  qed simp_all
  then show ?thesis
    by (simp add: fl64_def)
qed

lemma fl64_seam_left_num:
  "fl64 (2476979795053773 / 2251799813685248 + 3602879701896397 / 36028797018963968) = 1351079888211149 / 1125899906842624"
proof -
  have "round_to 53 (2476979795053773 / 2251799813685248 + 3602879701896397 / 36028797018963968) = of_int 5404319552844596 * (1 / 2 ^ 52)"
  proof (rule round_to_eval_small)
    show "py_round ((2476979795053773 / 2251799813685248 + 3602879701896397 / 36028797018963968) / (1 / 2 ^ 52)) = 5404319552844596"
      by (simp add: py_round_def Let_def)
  qed simp_all
  then show ?thesis
    by (simp add: fl64_def)
qed

lemma fl64_two_tenths_num:
  "fl64 (2 * (3602879701896397 / 36028797018963968)) = 3602879701896397 / 18014398509481984"
proof -
  have "round_to 53 (2 * (3602879701896397 / 36028797018963968)) = of_int 7205759403792794 * (1 / 2 ^ 55)"
  proof (rule round_to_eval_small)
    show "py_round ((2 * (3602879701896397 / 36028797018963968)) / (1 / 2 ^ 55)) = 7205759403792794"
      by (simp add: py_round_def Let_def)
  qed simp_all
  then show ?thesis
    by (simp add: fl64_def)
qed

lemma fl64_one_plus_two_tenths_num:
  "fl64 (1 + 3602879701896397 / 18014398509481984) = 5404319552844595 / 4503599627370496"
proof -
  have "round_to 53 (1 + 3602879701896397 / 18014398509481984) = of_int 5404319552844595 * (1 / 2 ^ 52)"
  proof (rule round_to_eval_small)
    show "py_round ((1 + 3602879701896397 / 18014398509481984) / (1 / 2 ^ 52)) = 5404319552844595"
      by (simp add: py_round_def Let_def)
  qed simp_all
  then show ?thesis
    by (simp add: fl64_def)
qed

lemma fl64_six_fifths:
  "fl64 (6 / 5) = 5404319552844595 / 4503599627370496"
proof -
  have "round_to 53 (6 / 5) = of_int 5404319552844595 * (1 / 2 ^ 52)"
  proof (rule round_to_eval_small)
    show "py_round ((6 / 5) / (1 / 2 ^ 52)) = 5404319552844595"
      by (simp add: py_round_def Let_def)
  qed simp_all
  then show ?thesis
    by (simp add: fl64_def)
qed

lemma fl64_delta_num:
  "fl64 (1351079888211149 / 1125899906842624 - 5404319552844595 / 4503599627370496) = 1 / 4503599627370496"
proof -
  have "round_to 53 (1351079888211149 / 1125899906842624 - 5404319552844595 / 4503599627370496) = of_int 4503599627370496 * (1 / 2 ^ 104)"
  proof (rule round_to_eval_small)
    show "py_round ((1351079888211149 / 1125899906842624 - 5404319552844595 / 4503599627370496) / (1 / 2 ^ 104)) = 4503599627370496"
      by (simp add: py_round_def Let_def)
  qed simp_all
  then show ?thesis
    by (simp add: fl64_def)
qed

lemma fl64_deg_num:
  "fl64 (884279719003555 / 281474976710656 / 180) = 5030569068109113 / 288230376151711744"
proof -
  have "round_to 53 (884279719003555 / 281474976710656 / 180) = of_int 5030569068109113 * (1 / 2 ^ 58)"
  proof (rule round_to_eval_small)
    show "py_round ((884279719003555 / 281474976710656 / 180) / (1 / 2 ^ 58)) = 5030569068109113"
      by (simp add: py_round_def Let_def)
  qed simp_all
  then show ?thesis
    by (simp add: fl64_def)
qed

lemma fl64_meters_per_deg_num:
  "fl64 (5030569068109113 / 288230376151711744 * 6378137) = 7649817157831729 / 68719476736"
proof -
  have "round_to 53 (5030569068109113 / 288230376151711744 * 6378137) = of_int 7649817157831729 * (1 / 2 ^ 36)"
  proof (rule round_to_eval_small)
    show "py_round ((5030569068109113 / 288230376151711744 * 6378137) / (1 / 2 ^ 36)) = 7649817157831729"
      by (simp add: py_round_def Let_def)
  qed simp_all
  then show ?thesis
    by (simp add: fl64_def)
qed

lemma fl64_dx_num:
  "fl64 (1 / 4503599627370496 * (7649817157831729 / 68719476736)) = 7649817157831729 / 309485009821345068724781056"
proof -
  have "round_to 53 (1 / 4503599627370496 * (7649817157831729 / 68719476736)) = of_int 7649817157831729 * (1 / 2 ^ 88)"
  proof (rule round_to_eval_small)
    show "py_round ((1 / 4503599627370496 * (7649817157831729 / 68719476736)) / (1 / 2 ^ 88)) = 7649817157831729"
      by (simp add: py_round_def Let_def)
  qed simp_all
  then show ?thesis
    by (simp add: fl64_def)
qed

lemma fl64_feet_num:
  "fl64 (328084 / 100000) = 7387794900731109 / 2251799813685248"
proof -
  have "round_to 53 (328084 / 100000) = of_int 7387794900731109 * (1 / 2 ^ 51)"
  proof (rule round_to_eval_small)
    show "py_round ((328084 / 100000) / (1 / 2 ^ 51)) = 7387794900731109"
      by (simp add: py_round_def Let_def)
  qed simp_all
  then show ?thesis
    by (simp add: fl64_def)
qed

lemma fl64_x_num:
  "fl64 (7649817157831729 / 309485009821345068724781056 * (7387794900731109 / 2251799813685248)) = 3137228265512581 / 38685626227668133590597632"
proof -
  have "round_to 53 (7649817157831729 / 309485009821345068724781056 * (7387794900731109 / 2251799813685248)) = of_int 6274456531025162 * (1 / 2 ^ 86)"
  proof (rule round_to_eval_small)
    show "py_round ((7649817157831729 / 309485009821345068724781056 * (7387794900731109 / 2251799813685248)) / (1 / 2 ^ 86)) = 6274456531025162"
      by (simp add: py_round_def Let_def)
  qed simp_all
  then show ?thesis
    by (simp add: fl64_def)
qed

lemma fl32_x_num:
  "fl32 (3137228265512581 / 38685626227668133590597632) = 5843543 / 72057594037927936"
proof -
  have "round_to 24 (3137228265512581 / 38685626227668133590597632) = of_int 11687086 * (1 / 2 ^ 57)"
  proof (rule round_to_eval_small)
    show "py_round ((3137228265512581 / 38685626227668133590597632) / (1 / 2 ^ 57)) = 11687086"
      by (simp add: py_round_def Let_def)
  qed simp_all
  then show ?thesis
    by (simp add: fl32_def)
qed

lemma latlon_to_local_f64_equator:
  "fst (latlon_to_local_f64 lat lon 0 olon) =
     fl64 (fl64 (fl64 (lon - olon) * fl64 (fl64 (pi_f64 / 180) * EARTH_RADIUS)) * fl64 METERS_TO_FEET)"
  by (simp add: latlon_to_local_f64_def radians_f64_def cos_f64_def Let_def)

lemma seam_left_lon:
  "fl64 (fl64 (1 + fl64 (1 / 10)) + fl64 (1 / 10)) = 1351079888211149 / 1125899906842624"
  by (simp only: fl64_tenth fl64_one_plus_tenth_num fl64_seam_left_num)

lemma seam_right_lon:
  "fl64 (1 + fl64 (2 * fl64 (1 / 10))) = 5404319552844595 / 4503599627370496"
  by (simp only: fl64_tenth fl64_two_tenths_num fl64_one_plus_two_tenths_num)

lemma meters_per_deg_f64:
  "fl64 (fl64 (pi_f64 / 180) * EARTH_RADIUS) = 7649817157831729 / 68719476736"
  by (simp only: pi_f64_def EARTH_RADIUS_def fl64_deg_num fl64_meters_per_deg_num)

lemma feet_f64: "fl64 METERS_TO_FEET = 7387794900731109 / 2251799813685248"
proof -
  have eq: "METERS_TO_FEET = 328084 / 100000"
    by (simp add: METERS_TO_FEET_def)
  show ?thesis
    unfolding eq by (rule fl64_feet_num)
qed

lemma seam_left_x:
  "fl32 (fl64 (fl64 (fl64 (fl64 (fl64 (1 + fl64 (1 / 10)) + fl64 (1 / 10)) - fl64 (6 / 5))
       * fl64 (fl64 (pi_f64 / 180) * EARTH_RADIUS)) * fl64 METERS_TO_FEET)) =
   5843543 / 72057594037927936"
  by (simp only: seam_left_lon fl64_six_fifths meters_per_deg_f64 feet_f64 fl64_delta_num
        fl64_dx_num fl64_x_num fl32_x_num)

lemma seam_right_x:
  "fl32 (fl64 (fl64 (fl64 (fl64 (1 + fl64 (2 * fl64 (1 / 10))) - fl64 (6 / 5))
       * fl64 (fl64 (pi_f64 / 180) * EARTH_RADIUS)) * fl64 METERS_TO_FEET)) = 0"
  by (simp add: seam_right_lon fl64_six_fifths fl32_def)

lemma grid13_chunks:
  "nrows (chunk_grid_of grid13 1 0 (Suc 0)) = 1" "ncols (chunk_grid_of grid13 1 0 (Suc 0)) = 2"
  "nrows (chunk_grid_of grid13 1 0 2) = 1" "ncols (chunk_grid_of grid13 1 0 2) = 1"
  by code_simp+

lemma seam_example_run:
  "create_chunked_terrain_f64 grid13 meta_tenth 0 (fl64 (6 / 5)) 1 1 =
     Inr \<lparr>m_chunks_x = 3, m_chunks_z = 1, m_chunk_size = 1, m_origin_lat = 0,
          m_origin_lon = fl64 (6 / 5),
          m_files = [build_chunk_f64 grid13 meta_tenth 0 (fl64 (6 / 5)) 1 (fl64 (1 / 10)) 0 0,
                     build_chunk_f64 grid13 meta_tenth 0 (fl64 (6 / 5)) 1 (fl64 (1 / 10)) 0 1,
                     build_chunk_f64 grid13 meta_tenth 0 (fl64 (6 / 5)) 1 (fl64 (1 / 10)) 0 2]\<rparr>"
  by (simp add: create_chunked_terrain_f64_1 grid13_def meta_tenth_def upt3)

lemma seam_example_left:
  "fst (vertices (chunk_mesh (build_chunk_f64 grid13 meta_tenth 0 (fl64 (6 / 5)) 1 (fl64 (1 / 10)) 0 1)) ! 1) =
     fl32 (fl64 (fl64 (fl64 (fl64 (fl64 (1 + fl64 (1 / 10)) + fl64 (1 / 10)) - fl64 (6 / 5))
       * fl64 (fl64 (pi_f64 / 180) * EARTH_RADIUS)) * fl64 METERS_TO_FEET))"
  using chunk_vertex_f64 [of 0 grid13 1 0 1 1 meta_tenth 0 "fl64 (6 / 5)" "fl64 (1 / 10)"]
  by (simp add: grid13_chunks terrain_vertex_f64_parts latlon_to_local_f64_equator meta_tenth_def)

lemma seam_example_right:
  "fst (vertices (chunk_mesh (build_chunk_f64 grid13 meta_tenth 0 (fl64 (6 / 5)) 1 (fl64 (1 / 10)) 0 2)) ! 0) =
     fl32 (fl64 (fl64 (fl64 (fl64 (1 + fl64 (2 * fl64 (1 / 10))) - fl64 (6 / 5))
       * fl64 (fl64 (pi_f64 / 180) * EARTH_RADIUS)) * fl64 METERS_TO_FEET))"
  using chunk_vertex_f64 [of 0 grid13 1 0 2 0 meta_tenth 0 "fl64 (6 / 5)" "fl64 (1 / 10)"]
  by (simp add: grid13_chunks terrain_vertex_f64_parts latlon_to_local_f64_equator meta_tenth_def)

text \<open>
  The claim as stated gives identical coordinates along every shared boundary column. For
  the 1 by 3 grid whose first column is at longitude 1, with a pixel size of 0.1 degrees, a
  chunk size of 1 and the world origin at longitude 1.2, the chunk of column 1 computes the
  longitude \<open>(1 + 0.1) + 0.1 = 1.2000000000000002\<close> for the boundary column, and the chunk of
  column 2 computes \<open>1 + 0.2 = 1.2\<close>: the X coordinates of the two boundary vertices are
  \<open>5843543 / 2 ^ 56\<close> feet and 0.
\<close>

theorem chunk_seam_counterexample:
  "create_chunked_terrain_f64 grid13 meta_tenth 0 (fl64 (6 / 5)) 1 1 =
     Inr \<lparr>m_chunks_x = 3, m_chunks_z = 1, m_chunk_size = 1, m_origin_lat = 0,
          m_origin_lon = fl64 (6 / 5),
          m_files = [build_chunk_f64 grid13 meta_tenth 0 (fl64 (6 / 5)) 1 (fl64 (1 / 10)) 0 0,
                     build_chunk_f64 grid13 meta_tenth 0 (fl64 (6 / 5)) 1 (fl64 (1 / 10)) 0 1,
                     build_chunk_f64 grid13 meta_tenth 0 (fl64 (6 / 5)) 1 (fl64 (1 / 10)) 0 2]\<rparr>
   \<and> ncols (chunk_grid_of grid13 1 0 1) = 2
   \<and> fst (vertices (chunk_mesh (build_chunk_f64 grid13 meta_tenth 0 (fl64 (6 / 5)) 1 (fl64 (1 / 10)) 0 1)) ! 1) =
       5843543 / 72057594037927936
   \<and> fst (vertices (chunk_mesh (build_chunk_f64 grid13 meta_tenth 0 (fl64 (6 / 5)) 1 (fl64 (1 / 10)) 0 2)) ! 0) = 0
   \<and> vertices (chunk_mesh (build_chunk_f64 grid13 meta_tenth 0 (fl64 (6 / 5)) 1 (fl64 (1 / 10)) 0 1)) ! 1 \<noteq>
     vertices (chunk_mesh (build_chunk_f64 grid13 meta_tenth 0 (fl64 (6 / 5)) 1 (fl64 (1 / 10)) 0 2)) ! 0"
proof -
  have l: "fst (vertices (chunk_mesh (build_chunk_f64 grid13 meta_tenth 0 (fl64 (6 / 5)) 1 (fl64 (1 / 10)) 0 1)) ! 1) =
       5843543 / 72057594037927936"
    unfolding seam_example_left by (rule seam_left_x)
  have r: "fst (vertices (chunk_mesh (build_chunk_f64 grid13 meta_tenth 0 (fl64 (6 / 5)) 1 (fl64 (1 / 10)) 0 2)) ! 0) = 0"
    unfolding seam_example_right by (rule seam_right_x)
  have "fst (vertices (chunk_mesh (build_chunk_f64 grid13 meta_tenth 0 (fl64 (6 / 5)) 1 (fl64 (1 / 10)) 0 1)) ! 1) \<noteq>
     fst (vertices (chunk_mesh (build_chunk_f64 grid13 meta_tenth 0 (fl64 (6 / 5)) 1 (fl64 (1 / 10)) 0 2)) ! 0)"
    unfolding l r by simp
  then have ne: "vertices (chunk_mesh (build_chunk_f64 grid13 meta_tenth 0 (fl64 (6 / 5)) 1 (fl64 (1 / 10)) 0 1)) ! 1 \<noteq>
     vertices (chunk_mesh (build_chunk_f64 grid13 meta_tenth 0 (fl64 (6 / 5)) 1 (fl64 (1 / 10)) 0 2)) ! 0"
    by auto
  show ?thesis
    using grid13_chunks(2) by (intro conjI seam_example_run l r ne) simp
qed

end
